(* ===== verification/Prelude.thy ===== *)
theory Prelude
  imports Main "HOL-Library.Word" "HOL-Library.Signed_Division"
begin

text \<open>
  Names and automation shared by every component of the model: the machine types of the
  C++ code, its exceptions, result values, and the generic lemmas on lists, words and
  results that the component theories use.

  \<^item> \<open>u8 .. u64\<close> are the code's unsigned integers, kept at their width.
  \<^item> Signed values whose overflow the code never relies on are \<^typ>\<open>int\<close>; the predicates
    \<open>in_i32\<close> and \<open>in_i64\<close> say when such a value fits the C++ type, and a component that
    computes with them proves that they do.
  \<^item> A call that can throw returns a value of type \<open>cpp_exn + 'a\<close>.
\<close>

unbundle bit_operations_syntax

section \<open>Machine types\<close>

type_synonym u8 = "8 word"
type_synonym u16 = "16 word"
type_synonym u32 = "32 word"
type_synonym u64 = "64 word"

definition in_i32 :: "int \<Rightarrow> bool" where
  "in_i32 i \<longleftrightarrow> - (2 ^ 31) \<le> i \<and> i < 2 ^ 31"

definition in_i64 :: "int \<Rightarrow> bool" where
  "in_i64 i \<longleftrightarrow> - (2 ^ 63) \<le> i \<and> i < 2 ^ 63"

lemma in_i32I: "- 2147483648 \<le> i \<Longrightarrow> i < 2147483648 \<Longrightarrow> in_i32 i"
  by (simp add: in_i32_def)

lemma in_i64I: "- 9223372036854775808 \<le> i \<Longrightarrow> i < 9223372036854775808 \<Longrightarrow> in_i64 i"
  by (simp add: in_i64_def)

section \<open>Exceptions and results\<close>

text \<open>The exceptions the numeric conversions of the standard library throw.\<close>

datatype cpp_exn = Invalid_argument | Out_of_range

fun bind_result :: "('e + 'a) \<Rightarrow> ('a \<Rightarrow> 'e + 'b) \<Rightarrow> 'e + 'b" where
  "bind_result (Inl e) f = Inl e"
| "bind_result (Inr x) f = f x"

named_theorems result_simps \<open>case analysis of calls that may throw\<close>

lemma bind_result_eq_Inr [result_simps]:
  "bind_result m f = Inr y \<longleftrightarrow> (\<exists>x. m = Inr x \<and> f x = Inr y)"
  by (cases m) auto

lemma bind_result_eq_Inl [result_simps]:
  "bind_result m f = Inl e \<longleftrightarrow> m = Inl e \<or> (\<exists>x. m = Inr x \<and> f x = Inl e)"
  by (cases m) auto

section \<open>Lists\<close>

lemma nth_take_drop: "i < n \<Longrightarrow> k + n \<le> length xs \<Longrightarrow> take n (drop k xs) ! i = xs ! (k + i)"
  by simp

lemma takeWhile_notin: "x \<notin> set xs \<Longrightarrow> takeWhile (\<lambda>c. c \<noteq> x) xs = xs"
  by (induction xs) auto

lemma dropWhile_notin: "x \<notin> set xs \<Longrightarrow> dropWhile (\<lambda>c. c \<noteq> x) xs = []"
  by (induction xs) auto

lemma takeWhile_sep: "x \<notin> set xs \<Longrightarrow> takeWhile (\<lambda>c. c \<noteq> x) (xs @ x # ys) = xs"
  by (induction xs) auto

lemma dropWhile_sep: "x \<notin> set xs \<Longrightarrow> dropWhile (\<lambda>c. c \<noteq> x) (xs @ x # ys) = x # ys"
  by (induction xs) auto

section \<open>Validation reports\<close>

text \<open>The step \<open>if (bad) { errors.push_back(msg); }\<close> of the validation routines.\<close>

definition push_error :: "bool \<Rightarrow> string \<Rightarrow> string list \<Rightarrow> string list" where
  "push_error bad msg errors = (if bad then errors @ [msg] else errors)"

lemma push_error_eq_Nil [simp]: "push_error bad msg errors = [] \<longleftrightarrow> \<not> bad \<and> errors = []"
  by (simp add: push_error_def)

lemma set_push_error: "set (push_error bad msg errors) = set errors \<union> (if bad then {msg} else {})"
  by (simp add: push_error_def)

lemma length_push_error:
  "length (push_error bad msg errors) = length errors + (if bad then 1 else 0)"
  by (simp add: push_error_def)

section \<open>Words\<close>

named_theorems bits_simps \<open>bitwise equality of word expressions\<close>

lemma word_eqI_nth:
  fixes a b :: "'a::len word"
  assumes "\<And>n. n < LENGTH('a) \<Longrightarrow> bit a n = bit b n"
  shows "a = b"
  using assms by (auto intro: bit_word_eqI)

lemma unat_inc:
  fixes w :: "'a::len word"
  assumes "unat w + 1 < 2 ^ LENGTH('a)"
  shows "unat (w + 1) = unat w + 1"
  using assms by (simp add: unat_word_ariths)

lemma unat_mono_inc:
  fixes w :: "'a::len word"
  shows "w + 1 \<noteq> 0 \<Longrightarrow> unat (w + 1) = unat w + 1"
  by (metis Suc_eq_plus1 add.commute unatSuc)

end
