(* ===== verification/CppStd.thy ===== *)
theory CppStd
  imports Prelude
begin

text \<open>
  The parts of the C++ standard library the daemon's logic goes through: character
  classes and \<open>tolower\<close>, \<open>std::string\<close> searching and trimming, \<open>std::getline\<close> with a
  delimiter, the throwing conversions \<open>std::stoi\<close>, \<open>std::stoul\<close>, \<open>std::stoull\<close>,
  \<open>std::stoll\<close> (on the LP64 ABI of Linux and macOS, where \<open>unsigned long\<close> has 64 bits),
  \<open>std::to_string\<close>, and the truncating division of \<open>std::chrono\<close>.
  Strings are byte strings, as \<open>std::string\<close> is.
\<close>

section \<open>Characters\<close>

definition is_space :: "char \<Rightarrow> bool" where
  "is_space c \<longleftrightarrow> (of_char c = (32::nat) \<or> (9 \<le> (of_char c :: nat) \<and> (of_char c :: nat) \<le> 13))"

definition is_digit :: "char \<Rightarrow> bool" where
  "is_digit c \<longleftrightarrow> 48 \<le> (of_char c :: nat) \<and> (of_char c :: nat) \<le> 57"

definition digit_val :: "char \<Rightarrow> nat" where
  "digit_val c = of_char c - 48"

definition tolower :: "char \<Rightarrow> char" where
  "tolower c = (if 65 \<le> (of_char c :: nat) \<and> (of_char c :: nat) \<le> 90
                then char_of ((of_char c :: nat) + 32) else c)"

definition lower :: "string \<Rightarrow> string" where
  "lower s = map tolower s"

lemma of_char_char_of_small [simp]: "n < 256 \<Longrightarrow> (of_char (char_of (n::nat)) :: nat) = n"
  by simp

lemma tolower_idem [simp]: "tolower (tolower c) = tolower c"
  by (simp add: tolower_def)

lemma lower_idem [simp]: "lower (lower s) = lower s"
  by (induction s) (simp_all add: lower_def)

lemma length_lower [simp]: "length (lower s) = length s"
  by (simp add: lower_def)

section \<open>Searching, cutting and trimming strings\<close>

text \<open>\<open>s.find(c)\<close>: the index of the first occurrence, or \<open>npos\<close>.\<close>

definition find_char :: "char \<Rightarrow> string \<Rightarrow> nat option" where
  "find_char c s = (if c \<in> set s then Some (length (takeWhile (\<lambda>x. x \<noteq> c) s)) else None)"

text \<open>\<open>s.substr(pos, len)\<close> and \<open>s.substr(pos)\<close>, for the in-range positions the code uses.\<close>

definition substr :: "string \<Rightarrow> nat \<Rightarrow> nat \<Rightarrow> string" where
  "substr s pos len = take len (drop pos s)"

definition substr_from :: "string \<Rightarrow> nat \<Rightarrow> string" where
  "substr_from s pos = drop pos s"

text \<open>
  The pair \<open>s.erase(0, s.find_first_not_of(cs)); s.erase(s.find_last_not_of(cs) + 1)\<close>.
  With no character left, the first call erases everything (\<open>erase(0, npos)\<close>), and the
  second erases from position \<open>npos + 1 = 0\<close> of the empty string.
\<close>

definition trim_chars :: "char set \<Rightarrow> string \<Rightarrow> string" where
  "trim_chars cs s = rev (dropWhile (\<lambda>c. c \<in> cs) (rev (dropWhile (\<lambda>c. c \<in> cs) s)))"

lemma dropWhile_id: "(xs = [] \<or> \<not> P (hd xs)) \<Longrightarrow> dropWhile P xs = xs"
  by (cases xs) auto

lemma trim_chars_hd: "trim_chars cs s \<noteq> [] \<Longrightarrow> hd (trim_chars cs s) \<notin> cs"
proof -
  define t where "t = dropWhile (\<lambda>c. c \<in> cs) s"
  assume ne: "trim_chars cs s \<noteq> []"
  have tc: "trim_chars cs s = rev (dropWhile (\<lambda>c. c \<in> cs) (rev t))"
    by (simp add: trim_chars_def t_def)
  obtain zs where zs: "t = trim_chars cs s @ zs"
    by (metis tc rev_append rev_rev_ident takeWhile_dropWhile_id)
  with ne have "t \<noteq> []" and "hd t = hd (trim_chars cs s)" by auto
  moreover from \<open>t \<noteq> []\<close> have "hd t \<notin> cs" unfolding t_def by (rule hd_dropWhile)
  ultimately show ?thesis by simp
qed

lemma trim_chars_last: "trim_chars cs s \<noteq> [] \<Longrightarrow> last (trim_chars cs s) \<notin> cs"
  using hd_dropWhile [of "\<lambda>c. c \<in> cs" "rev (dropWhile (\<lambda>c. c \<in> cs) s)"]
  by (simp add: trim_chars_def last_rev)

lemma trim_chars_id:
  assumes "s = [] \<or> (hd s \<notin> cs \<and> last s \<notin> cs)"
  shows "trim_chars cs s = s"
proof (cases "s = []")
  case True
  then show ?thesis by (simp add: trim_chars_def)
next
  case False
  with assms have h: "hd s \<notin> cs" and l: "last s \<notin> cs" by auto
  from h have "dropWhile (\<lambda>c. c \<in> cs) s = s" by (simp add: dropWhile_id)
  moreover from l False have "dropWhile (\<lambda>c. c \<in> cs) (rev s) = rev s"
    by (intro dropWhile_id) (simp add: hd_rev)
  ultimately show ?thesis by (simp add: trim_chars_def)
qed

lemma trim_chars_idem [simp]: "trim_chars cs (trim_chars cs s) = trim_chars cs s"
  by (rule trim_chars_id) (use trim_chars_hd trim_chars_last in blast)

lemma trim_chars_Cons [simp]: "c \<in> cs \<Longrightarrow> trim_chars cs (c # s) = trim_chars cs s"
  by (simp add: trim_chars_def)

lemma trim_chars_snoc [simp]:
  assumes "c \<in> cs"
  shows "trim_chars cs (s @ [c]) = trim_chars cs s"
proof (cases "\<forall>x \<in> set s. x \<in> cs")
  case True
  with assms show ?thesis
    by (auto simp: trim_chars_def dropWhile_append dest: set_dropWhileD)
next
  case False
  then obtain x where "x \<in> set s" "x \<notin> cs" by auto
  then have "dropWhile (\<lambda>c. c \<in> cs) (s @ [c]) = dropWhile (\<lambda>c. c \<in> cs) s @ [c]"
    by (rule dropWhile_append1)
  with assms show ?thesis by (simp add: trim_chars_def)
qed

text \<open>Cutting a string at a separator it contains, as the code's \<open>find\<close>/\<open>substr\<close> pairs do.\<close>

lemma find_char_sep:
  assumes "c \<notin> set a"
  shows "find_char c (a @ c # b) = Some (length a)"
  using assms by (simp add: find_char_def takeWhile_sep)

lemma find_char_None [simp]: "c \<notin> set s \<Longrightarrow> find_char c s = None"
  by (simp add: find_char_def)

lemma find_char_Some_split:
  assumes "find_char c s = Some i"
  shows "s = take i s @ c # drop (Suc i) s \<and> c \<notin> set (take i s) \<and> i < length s"
proof -
  from assms have c: "c \<in> set s" and i: "i = length (takeWhile (\<lambda>x. x \<noteq> c) s)"
    by (auto simp: find_char_def split: if_splits)
  from c have "dropWhile (\<lambda>x. x \<noteq> c) s \<noteq> []" by (simp add: dropWhile_eq_Nil_conv)
  then obtain r where r: "dropWhile (\<lambda>x. x \<noteq> c) s = c # r"
    by (metis (mono_tags, lifting) hd_dropWhile list.exhaust_sel)
  define a where "a = takeWhile (\<lambda>x. x \<noteq> c) s"
  have s: "s = a @ c # r"
    unfolding a_def by (metis r takeWhile_dropWhile_id)
  have "c \<notin> set a" unfolding a_def by (auto dest: set_takeWhileD)
  with s have "length (takeWhile (\<lambda>x. x \<noteq> c) s) = length a" by (simp add: takeWhile_sep)
  with i have "i = length a" by simp
  with s \<open>c \<notin> set a\<close> show ?thesis by simp
qed

section \<open>Reading delimited items\<close>

text \<open>
  The loop \<open>while (std::getline(ss, item, d))\<close>: the items between delimiters, with no
  last item when the input ends with a delimiter (or is empty).
\<close>

function getlines :: "char \<Rightarrow> string \<Rightarrow> string list" where
  "getlines d [] = []"
| "getlines d (c # s) =
     takeWhile (\<lambda>x. x \<noteq> d) (c # s) # getlines d (tl (dropWhile (\<lambda>x. x \<noteq> d) (c # s)))"
  by pat_completeness auto
termination
proof (relation "measure (\<lambda>(d, s). length s)", goal_cases)
  case 1
  show ?case by simp
next
  case (2 d c s)
  have "length (dropWhile (\<lambda>x. x \<noteq> d) (c # s)) \<le> length (c # s)"
    by (rule length_dropWhile_le)
  then show ?case by (cases "c = d") auto
qed

lemma getlines_sep:
  assumes "d \<notin> set a"
  shows "getlines d (a @ d # b) = a # getlines d b"
proof (cases a)
  case Nil
  then show ?thesis by simp
next
  case (Cons x xs)
  with assms show ?thesis
    by (auto simp: takeWhile_sep dropWhile_sep)
qed

lemma getlines_last:
  assumes "d \<notin> set a" "a \<noteq> []"
  shows "getlines d a = [a]"
  using assms by (cases a) (auto simp: takeWhile_notin dropWhile_notin)

text \<open>Joining items with the delimiter; \<^const>\<open>getlines\<close> takes the result apart again.\<close>

fun join_with :: "char \<Rightarrow> string list \<Rightarrow> string" where
  "join_with d [] = []"
| "join_with d [a] = a"
| "join_with d (a # b # xs) = a @ d # join_with d (b # xs)"

lemma getlines_join_with:
  assumes "\<forall>a \<in> set xs. d \<notin> set a \<and> a \<noteq> []"
  shows "getlines d (join_with d xs) = xs"
  using assms
proof (induction d xs rule: join_with.induct)
  case (1 d)
  then show ?case by simp
next
  case (2 d a)
  then show ?case by (simp add: getlines_last)
next
  case (3 d a b xs)
  then show ?case by (simp add: getlines_sep)
qed

lemma getlines_notin: "a \<in> set (getlines d s) \<Longrightarrow> d \<notin> set a"
  by (induction d s rule: getlines.induct) (auto dest: set_takeWhileD split: if_splits)

section \<open>Numbers from strings\<close>

text \<open>
  The common front end of the \<open>strto*\<close> family: white space, an optional sign, then the
  longest run of decimal digits; what follows is ignored. \<^const>\<open>None\<close> when there is no digit.
\<close>

definition digits_val :: "string \<Rightarrow> nat" where
  "digits_val ds = foldl (\<lambda>a c. 10 * a + digit_val c) 0 ds"

definition strto_sign :: "string \<Rightarrow> bool \<times> string" where
  "strto_sign s = (case s of
      [] \<Rightarrow> (False, [])
    | c # r \<Rightarrow> if c = CHR ''-'' then (True, r) else if c = CHR ''+'' then (False, r) else (False, s))"

definition strto_parse :: "string \<Rightarrow> (bool \<times> nat) option" where
  "strto_parse s =
     (let (neg, r) = strto_sign (dropWhile is_space s); ds = takeWhile is_digit r
      in if ds = [] then None else Some (neg, digits_val ds))"

definition signed_val :: "bool \<times> nat \<Rightarrow> int" where
  "signed_val p = (if fst p then - int (snd p) else int (snd p))"

definition stoi :: "string \<Rightarrow> cpp_exn + int" where
  "stoi s = (case strto_parse s of
      None \<Rightarrow> Inl Invalid_argument
    | Some p \<Rightarrow> if in_i32 (signed_val p) then Inr (signed_val p) else Inl Out_of_range)"

definition stoll :: "string \<Rightarrow> cpp_exn + int" where
  "stoll s = (case strto_parse s of
      None \<Rightarrow> Inl Invalid_argument
    | Some p \<Rightarrow> if in_i64 (signed_val p) then Inr (signed_val p) else Inl Out_of_range)"

text \<open>
  \<open>std::stoul\<close> and \<open>std::stoull\<close> accept a minus sign: the magnitude is negated in the
  unsigned type, so \<open>-1\<close> reads as the largest value.
\<close>

definition stoull :: "string \<Rightarrow> cpp_exn + u64" where
  "stoull s = (case strto_parse s of
      None \<Rightarrow> Inl Invalid_argument
    | Some p \<Rightarrow> if snd p < 2 ^ 64 then Inr (if fst p then - of_nat (snd p) else of_nat (snd p))
                else Inl Out_of_range)"

abbreviation stoul :: "string \<Rightarrow> cpp_exn + u64" where
  "stoul \<equiv> stoull"

lemma stoi_range: "stoi s = Inr i \<Longrightarrow> in_i32 i"
  by (auto simp: stoi_def split: option.splits if_splits)

lemma stoll_range: "stoll s = Inr i \<Longrightarrow> in_i64 i"
  by (auto simp: stoll_def split: option.splits if_splits)

section \<open>Strings from numbers\<close>

definition digit_char :: "nat \<Rightarrow> char" where
  "digit_char d = char_of (if d < 10 then 48 + d else 87 + d)"

text \<open>The digits of a number in a base, most significant first (bases 10 and 16 are used).\<close>

function base_digits :: "nat \<Rightarrow> nat \<Rightarrow> string" where
  "base_digits b n =
     (if b < 2 \<or> n < b then [digit_char n] else base_digits b (n div b) @ [digit_char (n mod b)])"
  by pat_completeness auto
termination
  by (relation "measure (\<lambda>(b, n). n)") (auto intro: div_less_dividend)

declare base_digits.simps [simp del]

definition to_string_nat :: "nat \<Rightarrow> string" where
  "to_string_nat n = base_digits 10 n"

definition to_string :: "int \<Rightarrow> string" where
  "to_string i = (if i < 0 then CHR ''-'' # to_string_nat (nat (- i)) else to_string_nat (nat i))"

definition to_hex :: "nat \<Rightarrow> string" where
  "to_hex n = base_digits 16 n"

lemma digit_char_digit [simp]: "d < 10 \<Longrightarrow> is_digit (digit_char d)"
  by (simp add: is_digit_def digit_char_def)

lemma digit_val_char [simp]: "d < 10 \<Longrightarrow> digit_val (digit_char d) = d"
  by (simp add: digit_val_def digit_char_def)

lemma digit_char_values [simp]:
  "digit_char 0 = CHR ''0''"
  "digit_char (Suc 0) = CHR ''1''"
  "digit_char 2 = CHR ''2''"
  "digit_char 3 = CHR ''3''"
  "digit_char 4 = CHR ''4''"
  "digit_char 5 = CHR ''5''"
  "digit_char 6 = CHR ''6''"
  "digit_char 7 = CHR ''7''"
  "digit_char 8 = CHR ''8''"
  "digit_char 9 = CHR ''9''"
  by (simp_all add: digit_char_def char_of_def bit_0)

lemma base_digits_nonempty [simp]: "base_digits b n \<noteq> []"
  by (subst base_digits.simps) simp

lemma to_string_nat_nonempty [simp]: "to_string_nat n \<noteq> []"
  by (simp add: to_string_nat_def)

lemma to_string_nat_digits: "\<forall>c \<in> set (to_string_nat n). is_digit c"
proof (induction n rule: less_induct)
  case (less n)
  show ?case
  proof (cases "n < 10")
    case True
    then show ?thesis by (simp add: to_string_nat_def base_digits.simps [of 10 n])
  next
    case False
    then have "n div 10 < n" by simp
    from less [OF this] False show ?thesis
      by (simp add: to_string_nat_def base_digits.simps [of 10 n])
  qed
qed

lemma digits_val_snoc [simp]: "digits_val (ds @ [c]) = 10 * digits_val ds + digit_val c"
  by (simp add: digits_val_def)

lemma digits_val_to_string [simp]: "digits_val (to_string_nat n) = n"
proof (induction n rule: less_induct)
  case (less n)
  show ?case
  proof (cases "n < 10")
    case True
    then show ?thesis by (simp add: to_string_nat_def base_digits.simps [of 10 n] digits_val_def)
  next
    case False
    then have "n div 10 < n" by simp
    from less [OF this] have "digits_val (base_digits 10 (n div 10)) = n div 10"
      by (simp add: to_string_nat_def)
    with False show ?thesis
      by (simp add: to_string_nat_def base_digits.simps [of 10 n])
  qed
qed

lemma digit_not_space: "is_digit c \<Longrightarrow> \<not> is_space c"
  by (auto simp: is_digit_def is_space_def)

lemma digit_not_sign: "is_digit c \<Longrightarrow> c \<noteq> CHR ''-'' \<and> c \<noteq> CHR ''+''"
  by (auto simp: is_digit_def)

lemma strto_sign_digits:
  assumes "\<forall>c \<in> set ds. is_digit c"
  shows "strto_sign ds = (False, ds)"
  using assms digit_not_sign by (cases ds) (auto simp: strto_sign_def)

lemma takeWhile_all_digits: "\<forall>c \<in> set ds. is_digit c \<Longrightarrow> takeWhile is_digit ds = ds"
  by (simp add: takeWhile_eq_all_conv)

lemma dropWhile_space_digits:
  "\<forall>c \<in> set ds. is_digit c \<Longrightarrow> dropWhile is_space ds = ds"
  by (cases ds) (auto dest: digit_not_space)

lemma strto_parse_nat: "strto_parse (to_string_nat n) = Some (False, n)"
proof -
  note d = to_string_nat_digits [of n]
  show ?thesis
    by (simp add: strto_parse_def dropWhile_space_digits [OF d] strto_sign_digits [OF d]
        takeWhile_all_digits [OF d])
qed

lemma strto_parse_neg: "strto_parse (CHR ''-'' # to_string_nat n) = Some (True, n)"
proof -
  note d = to_string_nat_digits [of n]
  have "\<not> is_space (CHR ''-'')" by (simp add: is_space_def)
  then show ?thesis
    by (simp add: strto_parse_def strto_sign_def takeWhile_all_digits [OF d])
qed

lemma strto_parse_to_string: "strto_parse (to_string i) = Some (i < 0, nat \<bar>i\<bar>)"
  by (simp add: to_string_def strto_parse_nat strto_parse_neg)

lemma stoi_to_string: "in_i32 i \<Longrightarrow> stoi (to_string i) = Inr i"
  by (simp add: stoi_def strto_parse_to_string signed_val_def)

lemma stoll_to_string: "in_i64 i \<Longrightarrow> stoll (to_string i) = Inr i"
  by (simp add: stoll_def strto_parse_to_string signed_val_def)

lemma stoull_to_string: "stoull (to_string_nat (unat w)) = Inr w"
proof -
  have "unat w < 2 ^ 64" using unsigned_less [of w, where ?'a = nat] by simp
  then show ?thesis by (simp add: stoull_def strto_parse_nat)
qed

section \<open>Truncating division\<close>

text \<open>
  \<^term>\<open>a sdiv b\<close> on \<^typ>\<open>int\<close> rounds towards zero, as the division of \<open>std::chrono\<close>
  durations and \<open>duration_cast\<close> do.
\<close>

lemma sdiv_nonneg: "0 \<le> a \<Longrightarrow> 0 < b \<Longrightarrow> (a::int) sdiv b = a div b"
  by (simp add: signed_divide_int_def sgn_if)

lemma sdiv_neg: "a \<le> 0 \<Longrightarrow> 0 < b \<Longrightarrow> (a::int) sdiv b = - ((- a) div b)"
  by (auto simp: signed_divide_int_def sgn_if)

lemma sdiv_mult_cancel: "0 < b \<Longrightarrow> (a * b) sdiv (b::int) = a"
  by (simp add: signed_divide_int_def sgn_mult abs_mult sgn_mult_abs)

lemma sdiv_bounds:
  assumes "0 < (b::int)" "- m \<le> a" "a < m" "0 < m"
  shows "- m \<le> a sdiv b \<and> a sdiv b < m"
proof (cases "0 \<le> a")
  case True
  with assms have "a div b \<le> a" "0 \<le> a div b"
    using zdiv_mono2 [of a 1 b] by (auto simp: pos_imp_zdiv_nonneg_iff)
  with assms True show ?thesis by (simp add: sdiv_nonneg)
next
  case False
  with assms have "(- a) div b \<le> - a" "0 \<le> (- a) div b"
    using zdiv_mono2 [of "- a" 1 b] by (auto simp: pos_imp_zdiv_nonneg_iff)
  with assms False show ?thesis by (simp add: sdiv_neg)
qed

lemma div_between: "0 < (b::int) \<Longrightarrow> b * (a div b) \<le> a \<and> a < b * (a div b) + b"
  using pos_mod_bound [of b a] pos_mod_sign [of b a] minus_mult_div_eq_mod [of a b] by linarith

lemma sdiv_error:
  assumes "0 < (b::int)"
  shows "\<bar>b * (a sdiv b) - a\<bar> < b"
proof (cases "0 \<le> a")
  case True
  with assms have "a sdiv b = a div b" by (simp add: sdiv_nonneg)
  with div_between [OF assms, of a] show ?thesis by (simp add: abs_less_iff)
next
  case False
  with assms have "a sdiv b = - (- a div b)" by (simp add: sdiv_neg)
  with div_between [OF assms, of "- a"] show ?thesis by (simp add: abs_less_iff)
qed

end
