(* ===== verification/Platform.thy ===== *)
theory Platform
  imports Prelude
begin

text \<open>
  \<open>include/simple-ntpd/utils/platform.hpp\<close>: protocol constants and the protocol's enums.
  \<open>enum class\<close> values of underlying type \<open>uint8_t\<close> can hold any byte, so a field of type
  \<open>NtpStratum\<close> is a \<^typ>\<open>u8\<close>, and a cast of a byte to \<open>NtpMode\<close> names an enumerator or
  none (the \<open>default\<close> branch of a switch).
\<close>

definition NTP_PACKET_SIZE :: nat where "NTP_PACKET_SIZE = 48"
definition NTP_VERSION :: nat where "NTP_VERSION = 4"
definition NTP_STRATUM_MAX :: nat where "NTP_STRATUM_MAX = 15"

datatype NtpMode =
    RESERVED | SYMMETRIC_ACTIVE | SYMMETRIC_PASSIVE | CLIENT | SERVER | BROADCAST
  | NTP_CONTROL_MESSAGE | RESERVED_PRIVATE

fun NtpMode_value :: "NtpMode \<Rightarrow> u8" where
  "NtpMode_value RESERVED = 0"
| "NtpMode_value SYMMETRIC_ACTIVE = 1"
| "NtpMode_value SYMMETRIC_PASSIVE = 2"
| "NtpMode_value CLIENT = 3"
| "NtpMode_value SERVER = 4"
| "NtpMode_value BROADCAST = 5"
| "NtpMode_value NTP_CONTROL_MESSAGE = 6"
| "NtpMode_value RESERVED_PRIVATE = 7"

definition NtpMode_of :: "u8 \<Rightarrow> NtpMode option" where
  "NtpMode_of b = List.find (\<lambda>m. NtpMode_value m = b)
     [RESERVED, SYMMETRIC_ACTIVE, SYMMETRIC_PASSIVE, CLIENT, SERVER, BROADCAST,
      NTP_CONTROL_MESSAGE, RESERVED_PRIVATE]"

type_synonym NtpStratum = u8

abbreviation (input) STRATUM_UNSPECIFIED :: NtpStratum where "STRATUM_UNSPECIFIED \<equiv> 0"
abbreviation (input) PRIMARY_REFERENCE :: NtpStratum where "PRIMARY_REFERENCE \<equiv> 1"
abbreviation (input) SECONDARY_REFERENCE :: NtpStratum where "SECONDARY_REFERENCE \<equiv> 2"
abbreviation (input) TERTIARY_REFERENCE :: NtpStratum where "TERTIARY_REFERENCE \<equiv> 3"
abbreviation (input) MAX_STRATUM :: NtpStratum where "MAX_STRATUM \<equiv> 15"

lemma NtpMode_of_value [simp]: "NtpMode_of (NtpMode_value m) = Some m"
  by (cases m) (simp_all add: NtpMode_of_def)

lemma NtpMode_of_eq_Some: "NtpMode_of b = Some m \<longleftrightarrow> b = NtpMode_value m"
proof
  assume "NtpMode_of b = Some m"
  then show "b = NtpMode_value m"
    unfolding NtpMode_of_def find_Some_iff by metis
qed simp

lemma NtpMode_value_inj [simp]: "NtpMode_value m = NtpMode_value m' \<longleftrightarrow> m = m'"
  by (metis NtpMode_of_value option.inject)

lemma NtpMode_of_defined: "NtpMode_of b \<noteq> None \<longleftrightarrow> b \<le> 7"
proof
  assume "NtpMode_of b \<noteq> None"
  then obtain m where "b = NtpMode_value m" by (auto simp: NtpMode_of_eq_Some)
  then show "b \<le> 7" by (cases m) simp_all
next
  assume "b \<le> 7"
  then have "unat b \<le> 7" by (simp add: word_le_nat_alt)
  then have "unat b \<in> {0, 1, 2, 3, 4, 5, 6, 7}" by auto
  then have "(of_nat (unat b) :: u8) \<in> {0, 1, 2, 3, 4, 5, 6, 7}" by fastforce
  then have "b \<in> {0, 1, 2, 3, 4, 5, 6, 7}" by simp
  then show "NtpMode_of b \<noteq> None" by (auto simp: NtpMode_of_def)
qed

end
