(* ===== verification/Timestamp.thy ===== *)
theory Timestamp
  imports CppStd
begin

text \<open>
  \<open>NtpTimestamp\<close> of \<open>core/packet.hpp\<close> and \<open>core/packet.cpp\<close>: the 64-bit NTP time format,
  its conversions from and to \<open>std::chrono::system_clock\<close>, and the round-trip delay and
  clock offset that \<open>NtpPacketHandler\<close> computes from four timestamps.
  A system time is the clock's tick count since 1970 as an \<^typ>\<open>int\<close>; ticks are
  nanoseconds, as in libstdc++ (the Linux build). Unsigned steps wrap at 64 and 32 bits as
  in the code, and the lemmas show where the signed tick arithmetic stays inside 64 bits.
\<close>

record NtpTimestamp =
  seconds :: u32
  fraction :: u32

definition NtpTimestamp_zero :: NtpTimestamp where
  "NtpTimestamp_zero = \<lparr>seconds = 0, fraction = 0\<rparr>"

type_synonym time_point = int

definition NTP_EPOCH_OFFSET :: u64 where
  "NTP_EPOCH_OFFSET = 2208988800"

definition fromSystemTime :: "time_point \<Rightarrow> NtpTimestamp" where
  "fromSystemTime t =
     (let secs = t sdiv 1000000000;
          frac = t - secs * 1000000000;
          ntp_fraction = ((word_of_int frac :: u64) * 4294967296) div 1000000000
      in \<lparr>seconds = ucast ((word_of_int secs :: u64) + NTP_EPOCH_OFFSET),
          fraction = ucast ntp_fraction\<rparr>)"

definition total_microseconds :: "NtpTimestamp \<Rightarrow> int" where
  "total_microseconds ts = sint
     (((ucast (seconds ts) :: u64) - NTP_EPOCH_OFFSET) * 1000000
      + ((ucast (fraction ts) :: u64) * 1000000) div 4294967296)"

definition toSystemTime :: "NtpTimestamp \<Rightarrow> time_point" where
  "toSystemTime ts = 1000 * total_microseconds ts"

section \<open>Delay and offset\<close>

definition calculateRoundTripDelay ::
    "NtpTimestamp \<Rightarrow> NtpTimestamp \<Rightarrow> NtpTimestamp \<Rightarrow> NtpTimestamp \<Rightarrow> int" where
  "calculateRoundTripDelay t1 t2 t3 t4 =
     (let time1 = toSystemTime t1; time2 = toSystemTime t2;
          time3 = toSystemTime t3; time4 = toSystemTime t4;
          delay = (time4 - time1) - (time3 - time2)
      in delay sdiv 1000)"

definition calculateOffset ::
    "NtpTimestamp \<Rightarrow> NtpTimestamp \<Rightarrow> NtpTimestamp \<Rightarrow> NtpTimestamp \<Rightarrow> int" where
  "calculateOffset t1 t2 t3 t4 =
     (let time1 = toSystemTime t1; time2 = toSystemTime t2;
          time3 = toSystemTime t3; time4 = toSystemTime t4;
          offset = ((time2 - time1) + (time3 - time4)) sdiv 2
      in offset sdiv 1000)"

section \<open>The value of a timestamp\<close>

lemma sint_word_of_int_u64: "in_i64 v \<Longrightarrow> sint (word_of_int v :: u64) = v"
  by (simp add: in_i64_def sint_sbintrunc' signed_take_bit_int_eq_self)

lemma uint_ucast_u32: "uint (ucast (w::u64) :: u32) = uint w mod 4294967296"
  by (simp add: unsigned_ucast_eq take_bit_eq_mod)

lemma uint_u32_bounds: "0 \<le> uint (w::u32)" "uint (w::u32) < 4294967296"
  using uint_lt2p [of w] by auto

lemma uint_ucast_u64 [simp]: "uint (ucast (w::u32) :: u64) = uint w"
  by (simp add: uint_up_ucast is_up)

lemma frac_us_bounds:
  "0 \<le> uint (w::u32) * 1000000 div 4294967296" "uint (w::u32) * 1000000 div 4294967296 < 1000000"
  using uint_u32_bounds [of w] by (auto simp: pos_imp_zdiv_nonneg_iff)

lemma uint_frac_us:
  "uint ((ucast (w::u32) :: u64) * 1000000 div 4294967296) = uint w * 1000000 div 4294967296"
proof -
  have "uint ((ucast w :: u64) * 1000000) = uint w * 1000000"
    using uint_u32_bounds [of w] by (simp add: uint_word_ariths)
  then show ?thesis by (simp add: uint_div)
qed

text \<open>
  The 64-bit computation never loses a bit of the result: the wrap-around of the unsigned
  subtraction is undone by the conversion to a signed count.
\<close>

lemma total_microseconds_eq:
  "total_microseconds ts =
     (uint (seconds ts) - 2208988800) * 1000000 + uint (fraction ts) * 1000000 div 4294967296"
proof -
  let ?v = "(uint (seconds ts) - 2208988800) * 1000000 + uint (fraction ts) * 1000000 div 4294967296"
  let ?w = "((ucast (seconds ts) :: u64) - NTP_EPOCH_OFFSET) * 1000000
      + ((ucast (fraction ts) :: u64) * 1000000) div 4294967296"
  have secs: "word_of_int (uint (seconds ts)) = (ucast (seconds ts) :: u64)"
    by (metis uint_ucast_u64 word_of_int_uint)
  have frac: "word_of_int (uint (fraction ts) * 1000000 div 4294967296)
      = (ucast (fraction ts) :: u64) * 1000000 div 4294967296"
    by (metis uint_frac_us word_of_int_uint)
  have "(word_of_int ?v :: u64) =
      (word_of_int (uint (seconds ts)) - 2208988800) * 1000000
       + word_of_int (uint (fraction ts) * 1000000 div 4294967296)"
    by simp
  then have w: "?w = word_of_int ?v"
    by (simp only: secs frac NTP_EPOCH_OFFSET_def)
  have "in_i64 ?v"
    using uint_u32_bounds [of "seconds ts"] frac_us_bounds [of "fraction ts"]
    by (auto simp: in_i64_def)
  then show ?thesis
    by (simp only: total_microseconds_def w sint_word_of_int_u64)
qed

lemma total_microseconds_bounds:
  "- 2208988800000000 \<le> total_microseconds ts" "total_microseconds ts < 2085978496000000"
  using uint_u32_bounds [of "seconds ts"] frac_us_bounds [of "fraction ts"]
  by (auto simp: total_microseconds_eq)

lemma toSystemTime_bounds:
  "- 2208988800000000000 \<le> toSystemTime ts" "toSystemTime ts < 2085978496000000000"
  using total_microseconds_bounds [of ts] by (auto simp: toSystemTime_def)

section \<open>The order of timestamps\<close>

text \<open>Timestamps are ordered by their seconds, then by their fraction.\<close>

instantiation NtpTimestamp_ext :: (linorder) linorder
begin

definition less_eq_NtpTimestamp_ext where
  "a \<le> b \<longleftrightarrow> seconds a < seconds b \<or> seconds a = seconds b \<and>
     (fraction a < fraction b \<or> fraction a = fraction b \<and> NtpTimestamp.more a \<le> NtpTimestamp.more b)"

definition less_NtpTimestamp_ext where
  "a < b \<longleftrightarrow> seconds a < seconds b \<or> seconds a = seconds b \<and>
     (fraction a < fraction b \<or> fraction a = fraction b \<and> NtpTimestamp.more a < NtpTimestamp.more b)"

instance
  by standard (auto simp: less_eq_NtpTimestamp_ext_def less_NtpTimestamp_ext_def)

end

lemma timestamp_le: "(a :: NtpTimestamp) \<le> b \<longleftrightarrow>
    uint (seconds a) < uint (seconds b)
    \<or> uint (seconds a) = uint (seconds b) \<and> uint (fraction a) \<le> uint (fraction b)"
  by (auto simp: less_eq_NtpTimestamp_ext_def word_less_def word_uint_eq_iff)

lemma toSystemTime_mono: "mono toSystemTime"
proof (rule monoI)
  fix a b :: NtpTimestamp
  let ?f = "\<lambda>ts. uint (fraction ts) * 1000000 div 4294967296"
  assume "a \<le> b"
  then consider "uint (seconds a) + 1 \<le> uint (seconds b)"
    | "uint (seconds a) = uint (seconds b)" "?f a \<le> ?f b"
    by (auto simp: timestamp_le intro: zdiv_mono1)
  then show "toSystemTime a \<le> toSystemTime b"
  proof cases
    case 1
    have "(x - 2208988800) * 1000000 + f \<le> (y - 2208988800) * 1000000 + g"
      if "x + 1 \<le> y" "f < 1000000" "0 \<le> g" for x y f g :: int
      using that by (simp add: algebra_simps)
    from this [OF 1 frac_us_bounds(2) frac_us_bounds(1)]
    have "total_microseconds a \<le> total_microseconds b" by (simp only: total_microseconds_eq)
    then show ?thesis by (simp add: toSystemTime_def)
  next
    case 2
    then show ?thesis by (simp add: toSystemTime_def total_microseconds_eq)
  qed
qed

section \<open>Converting a system time\<close>

text \<open>
  For times from 1970 on the fraction is exact arithmetic, and the seconds are reduced to
  32 bits: the value is the time modulo one NTP era (136 years, the first ending in 2036).
\<close>

lemma fromSystemTime_nonneg:
  assumes "0 \<le> t" "t < 2 ^ 63"
  shows "uint (seconds (fromSystemTime t)) = (t div 1000000000 + 2208988800) mod 4294967296"
    and "uint (fraction (fromSystemTime t)) = (t mod 1000000000 * 4294967296) div 1000000000"
proof -
  let ?s = "t div 1000000000" and ?f = "t mod 1000000000"
  have q: "t sdiv 1000000000 = ?s" using assms by (simp add: sdiv_nonneg)
  have f: "t - ?s * 1000000000 = ?f" by (simp add: minus_div_mult_eq_mod)
  have fb: "0 \<le> ?f" "?f < 1000000000" by auto
  have sb: "0 \<le> ?s" "?s < 9223372037" using assms by (auto simp: pos_imp_zdiv_nonneg_iff)
  have "uint ((word_of_int ?s :: u64) + NTP_EPOCH_OFFSET) = ?s + 2208988800"
    using sb by (simp add: NTP_EPOCH_OFFSET_def uint_word_ariths uint_word_of_int)
  then show "uint (seconds (fromSystemTime t)) = (?s + 2208988800) mod 4294967296"
    by (simp add: fromSystemTime_def q Let_def uint_ucast_u32)
  have "uint ((word_of_int ?f :: u64) * 4294967296) = ?f * 4294967296"
    using fb by (simp add: uint_word_ariths uint_word_of_int)
  then have u: "uint ((word_of_int ?f :: u64) * 4294967296 div 1000000000)
      = ?f * 4294967296 div 1000000000"
    by (simp add: uint_div)
  have "0 \<le> ?f * 4294967296 div 1000000000" "?f * 4294967296 div 1000000000 < 4294967296"
    using fb by (auto simp: pos_imp_zdiv_nonneg_iff)
  then have "uint (ucast ((word_of_int ?f :: u64) * 4294967296 div 1000000000) :: u32)
      = ?f * 4294967296 div 1000000000"
    by (simp only: uint_ucast_u32 u mod_pos_pos_trivial)
  then show "uint (fraction (fromSystemTime t)) = ?f * 4294967296 div 1000000000"
    by (simp only: fromSystemTime_def q f Let_def NtpTimestamp.simps)
qed

text \<open>The fraction loses less than a microsecond and a quarter of a nanosecond.\<close>

lemma frac_us_close:
  fixes n :: int
  assumes "0 \<le> n" "n < 1000000000"
  defines "us \<equiv> (n * 4294967296 div 1000000000) * 1000000 div 4294967296"
  shows "0 \<le> n - 1000 * us" "n - 1000 * us \<le> 1000"
  using assms(1,2)
    div_between [of 1000000000 "n * 4294967296"]
    div_between [of 4294967296 "(n * 4294967296 div 1000000000) * 1000000"]
  unfolding us_def by linarith+

lemma us_frac_close:
  fixes f :: int
  assumes "0 \<le> f" "f < 4294967296"
  defines "f' \<equiv> (f * 1000000 div 4294967296 * 1000) * 4294967296 div 1000000000"
  shows "0 \<le> f - f'" "f - f' \<le> 4295"
  using assms(1,2)
    div_between [of 4294967296 "f * 1000000"]
    div_between [of 1000000000 "(f * 1000000 div 4294967296 * 1000) * 4294967296"]
  unfolding f'_def by linarith+

lemma era_cancel:
  fixes S E U N :: int
  shows "(S * 1000000000 + N)
      - ((S - E * 4294967296) * 1000000000 + 1000 * U + E * 4294967296000000000) = N - 1000 * U"
  by (simp add: algebra_simps)

definition ntp_era :: "time_point \<Rightarrow> int" where
  "ntp_era t = (t div 1000000000 + 2208988800) div 4294967296"

lemma fromSystemTime_error:
  assumes "0 \<le> t" "t < 2 ^ 63"
  shows "0 \<le> t - (toSystemTime (fromSystemTime t) + ntp_era t * 4294967296000000000)
    \<and> t - (toSystemTime (fromSystemTime t) + ntp_era t * 4294967296000000000) \<le> 1000"
proof -
  let ?s = "t div 1000000000" and ?n = "t mod 1000000000"
  have n: "0 \<le> ?n" "?n < 1000000000" by auto
  have "(?s + 2208988800) mod 4294967296 = ?s + 2208988800 - ntp_era t * 4294967296"
    by (simp add: ntp_era_def minus_div_mult_eq_mod)
  then have "toSystemTime (fromSystemTime t) = (?s - ntp_era t * 4294967296) * 1000000000
      + 1000 * ((?n * 4294967296 div 1000000000) * 1000000 div 4294967296)"
    by (simp add: toSystemTime_def total_microseconds_eq fromSystemTime_nonneg [OF assms])
  moreover have "?s * 1000000000 + ?n = t" by simp
  ultimately have
    "t - (toSystemTime (fromSystemTime t) + ntp_era t * 4294967296000000000)
      = ?n - 1000 * ((?n * 4294967296 div 1000000000) * 1000000 div 4294967296)"
    using era_cancel [of ?s ?n "ntp_era t"] by (simp only:)
  then show ?thesis using frac_us_close [OF n] by (simp only:)
qed

text \<open>The readings of a clock in the first NTP era, a microsecond after its start.\<close>

definition first_era :: "time_point \<Rightarrow> bool" where
  "first_era t \<longleftrightarrow> 1000 \<le> t \<and> t < 2085978496000000000"

lemma first_era_error:
  assumes "0 \<le> t" "t < 2085978496000000000"
  shows "0 \<le> t - toSystemTime (fromSystemTime t)" "t - toSystemTime (fromSystemTime t) \<le> 1000"
proof -
  have "t div 1000000000 < 2085978496" using assms(2) by (simp add: div_less_iff_less_mult)
  then have "ntp_era t = 0"
    using assms(1) by (simp add: ntp_era_def pos_imp_zdiv_nonneg_iff)
  then show "0 \<le> t - toSystemTime (fromSystemTime t)" "t - toSystemTime (fromSystemTime t) \<le> 1000"
    using fromSystemTime_error [of t] assms by auto
qed



lemma fromSystemTime_mono:
  assumes "0 \<le> a" "a \<le> b" "b < 2 ^ 63" "ntp_era a = ntp_era b"
  shows "fromSystemTime a \<le> fromSystemTime b"
proof -
  let ?s = "\<lambda>t. t div 1000000000 + 2208988800" and ?n = "\<lambda>t. t mod 1000000000"
  have secs: "uint (seconds (fromSystemTime t)) = ?s t - 4294967296 * ntp_era a"
    and frac: "uint (fraction (fromSystemTime t)) = ?n t * 4294967296 div 1000000000"
    if "t \<in> {a, b}" for t
    using that assms by (auto simp: fromSystemTime_nonneg ntp_era_def minus_mult_div_eq_mod [symmetric])
  have "?s a \<le> ?s b" using assms(2) by (simp add: zdiv_mono1)
  then consider "?s a < ?s b" | "?s a = ?s b" "?n a \<le> ?n b"
    using assms(2) mult_div_mod_eq [of 1000000000 a] mult_div_mod_eq [of 1000000000 b] by fastforce
  then show ?thesis
    by cases (simp_all add: timestamp_le secs frac zdiv_mono1)
qed

text \<open>
  Timestamps keep the order of time: a later timestamp never converts to an earlier system
  time, and within an NTP era a later system time never converts to an earlier timestamp. At the
  end of the first era, in February 2036, the order breaks: the next second comes before all others.
\<close>

lemma timestamps_keep_order:
  "((t :: NtpTimestamp) \<le> t' \<longrightarrow> toSystemTime t \<le> toSystemTime t')
   \<and> (0 \<le> a \<and> a \<le> b \<and> b < 2 ^ 63 \<and> ntp_era a = ntp_era b \<longrightarrow> fromSystemTime a \<le> fromSystemTime b)
   \<and> fromSystemTime 2085978496000000000 < fromSystemTime 2085978495000000000"
proof -
  have "uint (seconds (fromSystemTime 2085978496000000000)) = 0"
    and "uint (seconds (fromSystemTime 2085978495000000000)) = 4294967295"
    by (simp_all add: fromSystemTime_nonneg)
  then have "\<not> fromSystemTime 2085978495000000000 \<le> fromSystemTime 2085978496000000000"
    by (simp add: timestamp_le)
  then show ?thesis
    using toSystemTime_mono fromSystemTime_mono by (auto dest: monoD)
qed

lemma timestamps_keep_order_witness:
  "fromSystemTime 1700000000000000000 \<le> fromSystemTime 1700000000000000001"
  using timestamps_keep_order [of NtpTimestamp_zero NtpTimestamp_zero 1700000000000000000
      1700000000000000001]
  by (simp add: ntp_era_def)

lemma difference_bounds:
  "\<bar>(toSystemTime t4 - toSystemTime t1) - (toSystemTime t3 - toSystemTime t2)\<bar> < 8589934592000000000"
  "\<bar>(toSystemTime t2 - toSystemTime t1) + (toSystemTime t3 - toSystemTime t4)\<bar> < 8589934592000000000"
  using toSystemTime_bounds [of t1] toSystemTime_bounds [of t2] toSystemTime_bounds [of t3]
    toSystemTime_bounds [of t4]
  by linarith+

lemma calculateRoundTripDelay_bound: "\<bar>calculateRoundTripDelay t1 t2 t3 t4\<bar> \<le> 8589934592000000"
  using difference_bounds(1) [of t4 t1 t3 t2]
    sdiv_error [of 1000 "(toSystemTime t4 - toSystemTime t1) - (toSystemTime t3 - toSystemTime t2)"]
  unfolding calculateRoundTripDelay_def Let_def by linarith

lemma calculateOffset_bound: "\<bar>calculateOffset t1 t2 t3 t4\<bar> \<le> 4294967296000000"
proof -
  let ?o = "(toSystemTime t2 - toSystemTime t1) + (toSystemTime t3 - toSystemTime t4)"
  have "\<bar>?o sdiv 2 sdiv 1000\<bar> \<le> 4294967296000000"
    using difference_bounds(2) [of t2 t1 t3 t4] sdiv_error [of 2 ?o] sdiv_error [of 1000 "?o sdiv 2"]
    by linarith
  then show ?thesis by (simp only: calculateOffset_def Let_def)
qed

text \<open>
  C32. Delay and offset never overflow the 64-bit tick counts, whatever the four timestamps
  (a packet's timestamps are chosen by its sender): every intermediate difference and sum
  of the code's expressions is in range.
\<close>

theorem delay_offset_no_overflow:
  "in_i64 (toSystemTime t4 - toSystemTime t1)
   \<and> in_i64 (toSystemTime t3 - toSystemTime t2)
   \<and> in_i64 ((toSystemTime t4 - toSystemTime t1) - (toSystemTime t3 - toSystemTime t2))
   \<and> in_i64 (toSystemTime t2 - toSystemTime t1)
   \<and> in_i64 (toSystemTime t3 - toSystemTime t4)
   \<and> in_i64 ((toSystemTime t2 - toSystemTime t1) + (toSystemTime t3 - toSystemTime t4))
   \<and> \<bar>calculateRoundTripDelay t1 t2 t3 t4\<bar> \<le> 8589934592000000
   \<and> \<bar>calculateOffset t1 t2 t3 t4\<bar> \<le> 4294967296000000"
proof -
  let ?d = "(toSystemTime t4 - toSystemTime t1) - (toSystemTime t3 - toSystemTime t2)"
  let ?o = "(toSystemTime t2 - toSystemTime t1) + (toSystemTime t3 - toSystemTime t4)"
  note b = toSystemTime_bounds [of t1] toSystemTime_bounds [of t2]
    toSystemTime_bounds [of t3] toSystemTime_bounds [of t4]
  have "in_i64 (toSystemTime t4 - toSystemTime t1)"
    and "in_i64 (toSystemTime t3 - toSystemTime t2)" and "in_i64 ?d"
    and "in_i64 (toSystemTime t2 - toSystemTime t1)"
    and "in_i64 (toSystemTime t3 - toSystemTime t4)" and "in_i64 ?o"
    by (rule in_i64I; use b in linarith)+
  then show ?thesis
    by (simp only: calculateRoundTripDelay_bound calculateOffset_bound simp_thms)
qed



end
