(* ===== verification/Packet.thy ===== *)
theory Packet
  imports Timestamp Platform
begin

text \<open>
  \<open>NtpPacket\<close> and \<open>NtpPacketHandler\<close> of \<open>core/packet.hpp\<close> and \<open>core/packet.cpp\<close>: the
  48-byte wire format (parsing and serialising), packet validation, the request and response
  constructors, and the descriptions used for logging. A \<open>std::vector<uint8_t>\<close> is a list of
  bytes; the signed \<open>precision\<close> byte is a \<^typ>\<open>u8\<close> read with \<^const>\<open>sint\<close>.
\<close>

section \<open>Big-endian fields\<close>

text \<open>A pointer into the buffer is the buffer and an offset; a write returns the buffer.\<close>

definition readU32Be :: "u8 list \<Rightarrow> nat \<Rightarrow> u32" where
  "readU32Be p i = push_bit 24 (ucast (p ! i)) OR push_bit 16 (ucast (p ! (i + 1)))
     OR push_bit 8 (ucast (p ! (i + 2))) OR ucast (p ! (i + 3))"

definition writeU32Be :: "u8 list \<Rightarrow> nat \<Rightarrow> u32 \<Rightarrow> u8 list" where
  "writeU32Be p i value =
     p[i := ucast (drop_bit 24 value AND 0xFF),
       i + 1 := ucast (drop_bit 16 value AND 0xFF),
       i + 2 := ucast (drop_bit 8 value AND 0xFF),
       i + 3 := ucast (value AND 0xFF)]"

definition readTimestamp :: "u8 list \<Rightarrow> nat \<Rightarrow> NtpTimestamp" where
  "readTimestamp p i = \<lparr>seconds = readU32Be p i, fraction = readU32Be p (i + 4)\<rparr>"

definition writeTimestamp :: "u8 list \<Rightarrow> nat \<Rightarrow> NtpTimestamp \<Rightarrow> u8 list" where
  "writeTimestamp p i ts = writeU32Be (writeU32Be p i (seconds ts)) (i + 4) (fraction ts)"

section \<open>The packet\<close>

record NtpPacket =
  leap_indicator :: u8
  version :: u8
  mode :: u8
  stratum :: u8
  poll :: u8
  precision :: u8
  root_delay :: u32
  root_dispersion :: u32
  reference_id :: u32
  reference_ts :: NtpTimestamp
  originate_ts :: NtpTimestamp
  receive_ts :: NtpTimestamp
  transmit_ts :: NtpTimestamp

definition NtpPacket_init :: NtpPacket where
  "NtpPacket_init = \<lparr>leap_indicator = 0, version = of_nat NTP_VERSION, mode = 0, stratum = 0,
     poll = 0, precision = 0, root_delay = 0, root_dispersion = 0, reference_id = 0,
     reference_ts = NtpTimestamp_zero, originate_ts = NtpTimestamp_zero,
     receive_ts = NtpTimestamp_zero, transmit_ts = NtpTimestamp_zero\<rparr>"

definition createClientRequest :: "time_point \<Rightarrow> NtpPacket" where
  "createClientRequest now = NtpPacket_init
     \<lparr>leap_indicator := 0, version := of_nat NTP_VERSION, mode := NtpMode_value CLIENT,
      stratum := 0, poll := 4, precision := word_of_int (-6),
      transmit_ts := fromSystemTime now\<rparr>"

definition char_u8 :: "char \<Rightarrow> u8" where
  "char_u8 c = of_nat (of_char c)"

text \<open>The loop that packs the first four characters of the reference identifier.\<close>

definition reference_id_word :: "string \<Rightarrow> u32" where
  "reference_id_word s = foldl (\<lambda>ref_id c. push_bit 8 ref_id OR ucast (char_u8 c)) 0 (take 4 s)"

text \<open>The three readings of the system clock are arguments, in the order the code takes them.\<close>

definition createServerResponse ::
    "NtpPacket \<Rightarrow> NtpStratum \<Rightarrow> string \<Rightarrow> time_point \<Rightarrow> time_point \<Rightarrow> time_point \<Rightarrow> NtpPacket" where
  "createServerResponse client_packet st ref_id now_rx now_tx now_ref = NtpPacket_init
     \<lparr>leap_indicator := 0, version := of_nat NTP_VERSION, mode := NtpMode_value SERVER,
      stratum := st, poll := 4, precision := word_of_int (-6),
      originate_ts := transmit_ts client_packet,
      receive_ts := fromSystemTime now_rx,
      transmit_ts := fromSystemTime now_tx,
      reference_ts := fromSystemTime now_ref,
      reference_id := reference_id_word ref_id\<rparr>"

section \<open>Parsing and serialising\<close>

text \<open>\<open>parseFromData\<close> overwrites the object it is called on, and leaves it alone when it fails.\<close>

definition parseFromData :: "u8 list \<Rightarrow> NtpPacket \<Rightarrow> bool \<times> NtpPacket" where
  "parseFromData data this =
     (if length data < NTP_PACKET_SIZE then (False, this)
      else let first_byte = data ! 0 in
        (True, this
          \<lparr>leap_indicator := drop_bit 6 first_byte AND 0x3,
           version := drop_bit 3 first_byte AND 0x7,
           mode := first_byte AND 0x7,
           stratum := data ! 1,
           poll := data ! 2,
           precision := data ! 3,
           root_delay := readU32Be data 4,
           root_dispersion := readU32Be data 8,
           reference_id := readU32Be data 12,
           reference_ts := readTimestamp data 16,
           originate_ts := readTimestamp data 24,
           receive_ts := readTimestamp data 32,
           transmit_ts := readTimestamp data 40\<rparr>))"

definition first_byte_of :: "NtpPacket \<Rightarrow> u8" where
  "first_byte_of p = push_bit 6 (leap_indicator p AND 0x3) OR push_bit 3 (version p AND 0x7)
     OR (mode p AND 0x7)"

definition serializeToData :: "NtpPacket \<Rightarrow> u8 list" where
  "serializeToData p =
     (let data = replicate NTP_PACKET_SIZE 0;
          data = data[0 := first_byte_of p];
          data = data[1 := stratum p];
          data = data[2 := poll p];
          data = data[3 := precision p];
          data = writeU32Be data 4 (root_delay p);
          data = writeU32Be data 8 (root_dispersion p);
          data = writeU32Be data 12 (reference_id p);
          data = writeTimestamp data 16 (reference_ts p);
          data = writeTimestamp data 24 (originate_ts p);
          data = writeTimestamp data 32 (receive_ts p);
          data = writeTimestamp data 40 (transmit_ts p)
      in data)"

section \<open>Validation\<close>

definition validateVersion :: "NtpPacket \<Rightarrow> bool" where
  "validateVersion p \<longleftrightarrow> version p = 3 \<or> unat (version p) = NTP_VERSION"

definition validateMode :: "NtpPacket \<Rightarrow> bool" where
  "validateMode p = (case NtpMode_of (mode p) of Some _ \<Rightarrow> True | None \<Rightarrow> False)"

definition verifyChecksum :: "NtpPacket \<Rightarrow> bool" where
  "verifyChecksum p = True"

definition validateSize :: "NtpPacket \<Rightarrow> bool" where
  "validateSize p = True"

text \<open>A failed check pushes a message and clears the flag that is returned.\<close>

definition packet_check :: "bool \<Rightarrow> string \<Rightarrow> string list \<times> bool \<Rightarrow> string list \<times> bool" where
  "packet_check bad msg s = (push_error bad msg (fst s), (if bad then False else snd s))"

definition validateDetailed :: "NtpPacket \<Rightarrow> bool \<times> string list" where
  "validateDetailed p =
     (let s = ([], True);
          s = packet_check (\<not> validateVersion p)
                (''Invalid NTP version: '' @ to_string (uint (version p)) @
                 '' (expected: '' @ to_string (int NTP_VERSION) @ '')'') s;
          s = packet_check (\<not> validateMode p)
                (''Invalid NTP mode: '' @ to_string (uint (mode p))) s;
          s = packet_check (stratum p > 15)
                (''Invalid stratum: '' @ to_string (uint (stratum p)) @ '' (must be 0-15)'') s;
          s = packet_check (poll p < 4 \<or> poll p > 17)
                (''Invalid poll interval: '' @ to_string (uint (poll p)) @ '' (must be 4-17)'') s;
          s = packet_check (sint (precision p) > 0)
                (''Invalid precision: '' @ to_string (sint (precision p)) @
                 '' (should be negative)'') s;
          s = packet_check (leap_indicator p > 3)
                (''Invalid leap indicator: '' @ to_string (uint (leap_indicator p)) @
                 '' (must be 0-3)'') s
      in (snd s, fst s))"

definition isValid :: "NtpPacket \<Rightarrow> bool" where
  "isValid p = fst (validateDetailed p)"

section \<open>Descriptions for logging\<close>

definition newline :: string where
  "newline = [CHR 0x0A]"

definition getTypeDescription :: "NtpPacket \<Rightarrow> string" where
  "getTypeDescription p = ''NTP v'' @ to_string (uint (version p)) @ '' '' @
     (case NtpMode_of (mode p) of
        Some CLIENT \<Rightarrow> ''Client''
      | Some SERVER \<Rightarrow> ''Server''
      | Some BROADCAST \<Rightarrow> ''Broadcast''
      | _ \<Rightarrow> ''Unknown'') @
     '' (Stratum '' @ to_string (uint (stratum p)) @ '')''"

definition getSummary :: "NtpPacket \<Rightarrow> string" where
  "getSummary p = ''NTP Packet: '' @ getTypeDescription p @ newline @
     ''  Leap: '' @ to_string (uint (leap_indicator p)) @ newline @
     ''  Poll: '' @ to_string (uint (poll p)) @ newline @
     ''  Precision: '' @ to_string (sint (precision p)) @ newline @
     ''  Root Delay: '' @ to_string (uint (root_delay p)) @ newline @
     ''  Root Dispersion: '' @ to_string (uint (root_dispersion p)) @ newline @
     ''  Reference ID: '' @ to_hex (unat (reference_id p))"

section \<open>The packet handler\<close>

definition parsePacket :: "u8 list \<Rightarrow> NtpPacket \<Rightarrow> bool \<times> NtpPacket" where
  "parsePacket data packet = parseFromData data packet"

definition createResponsePacket ::
    "NtpPacket \<Rightarrow> time_point \<Rightarrow> time_point \<Rightarrow> time_point \<Rightarrow> NtpPacket" where
  "createResponsePacket request_packet now_rx now_tx now_ref =
     createServerResponse request_packet SECONDARY_REFERENCE ''LOCL'' now_rx now_tx now_ref"

definition validatePacket :: "NtpPacket \<Rightarrow> bool" where
  "validatePacket packet = isValid packet"

definition isClientRequest :: "NtpPacket \<Rightarrow> bool" where
  "isClientRequest packet \<longleftrightarrow> mode packet = NtpMode_value CLIENT"

definition isServerResponse :: "NtpPacket \<Rightarrow> bool" where
  "isServerResponse packet \<longleftrightarrow> mode packet = NtpMode_value SERVER"

section \<open>Fields of a buffer\<close>

text \<open>
  The contract of a fixed-width field: what a write leaves in the buffer and what a read
  takes from it, in terms of the field's encoding.
\<close>

locale wire_field =
  fixes width :: nat
    and enc :: "'a \<Rightarrow> u8 list"
    and rd :: "u8 list \<Rightarrow> nat \<Rightarrow> 'a"
    and wr :: "u8 list \<Rightarrow> nat \<Rightarrow> 'a \<Rightarrow> u8 list"
  assumes length_enc: "length (enc v) = width"
    and wr_append: "length xs = i \<Longrightarrow> length ys = width \<Longrightarrow> wr (xs @ ys @ zs) i v = xs @ enc v @ zs"
    and rd_append: "length xs = i \<Longrightarrow> rd (xs @ enc v @ zs) i = v"
    and enc_rd: "i + width \<le> length d \<Longrightarrow> enc (rd d i) = take width (drop i d)"
begin

lemma split_at:
  assumes "i + width \<le> length d"
  shows "d = take i d @ take width (drop i d) @ drop (i + width) d"
    and "length (take i d) = i" and "length (take width (drop i d)) = width"
proof -
  have "drop (i + width) d = drop width (drop i d)" by (simp add: add.commute)
  then show "d = take i d @ take width (drop i d) @ drop (i + width) d"
    by (simp only: append_take_drop_id)
qed (use assms in simp_all)

lemma wr_eq:
  assumes "i + width \<le> length d"
  shows "wr d i v = take i d @ enc v @ drop (i + width) d"
  using wr_append [OF split_at(2,3) [OF assms], where zs = "drop (i + width) d"]
  by (metis split_at(1) [OF assms])

lemma length_wr: "i + width \<le> length d \<Longrightarrow> length (wr d i v) = length d"
  by (simp add: wr_eq length_enc)

lemma rd_wr: "i + width \<le> length d \<Longrightarrow> rd (wr d i v) i = v"
  by (simp add: wr_eq rd_append)

lemma wr_rd: "i + width \<le> length d \<Longrightarrow> wr d i (rd d i) = d"
  by (metis wr_eq enc_rd split_at(1))

lemma wr_nth_other:
  assumes "i + width \<le> length d" "n < i \<or> i + width \<le> n" "n < length d"
  shows "wr d i v ! n = d ! n"
  using assms by (auto simp: wr_eq nth_append length_enc)

lemma rd_cong:
  assumes "i + width \<le> length d" "i + width \<le> length d'"
    and "take width (drop i d) = take width (drop i d')"
  shows "rd d i = rd d' i"
proof -
  have "rd d i = rd (take i d @ enc (rd d' i) @ drop (i + width) d) i"
    using split_at(1) [OF assms(1)] enc_rd [OF assms(2)] assms(3) by simp
  also have "\<dots> = rd d' i" using assms(1) by (simp add: rd_append)
  finally show ?thesis .
qed

lemma rd_append_right: "i + width \<le> length d \<Longrightarrow> rd (d @ r) i = rd d i"
  by (rule rd_cong) simp_all

end

text \<open>Two fields that do not overlap: a write to one leaves the other.\<close>

locale wire_field_pair = f: wire_field wf ef rf wrf + g: wire_field wg eg rg wrg
  for wf :: nat and ef :: "'a \<Rightarrow> u8 list" and rf and wrf
    and wg :: nat and eg :: "'b \<Rightarrow> u8 list" and rg and wrg
begin

lemma rd_other:
  assumes "i + wf \<le> length d" "j + wg \<le> length d" and "i + wf \<le> j \<or> j + wg \<le> i"
  shows "rf (wrg d j v) i = rf d i"
proof (rule f.rd_cong)
  show "i + wf \<le> length (wrg d j v)" using assms by (simp add: g.length_wr)
  show "i + wf \<le> length d" by (rule assms(1))
  have "(take wf (drop i (wrg d j v))) ! n = (take wf (drop i d)) ! n" if "n < wf" for n
    using that assms by (auto simp: g.wr_eq nth_append g.length_enc)
  then show "take wf (drop i (wrg d j v)) = take wf (drop i d)"
    using assms by (intro nth_equalityI) (simp_all add: g.length_wr)
qed

end

section \<open>The fields of an NTP packet\<close>

lemma bit_u8_False: "8 \<le> n \<Longrightarrow> \<not> bit (w::u8) n"
  using bit_imp_le_length [of w n] by auto

lemma and_low_bits [bits_simps]:
  "(x::u8) AND 3 = take_bit 2 x" "(x::u8) AND 7 = take_bit 3 x" "(y::u32) AND 255 = take_bit 8 y"
  by (simp_all add: take_bit_eq_mask mask_eq_exp_minus_1)

definition be32 :: "u32 \<Rightarrow> u8 list" where
  "be32 v = [ucast (drop_bit 24 v AND 255), ucast (drop_bit 16 v AND 255),
             ucast (drop_bit 8 v AND 255), ucast (v AND 255)]"

definition from_be32 :: "u8 \<Rightarrow> u8 \<Rightarrow> u8 \<Rightarrow> u8 \<Rightarrow> u32" where
  "from_be32 a b c d = push_bit 24 (ucast a) OR push_bit 16 (ucast b)
     OR push_bit 8 (ucast c) OR ucast d"

lemma be32_from_be32: "be32 (from_be32 a b c d) = [a, b, c, d]"
  unfolding be32_def from_be32_def list.inject
  by (intro conjI refl; rule bit_word_eqI)
    (auto simp: bit_simps bits_simps bit_u8_False)

lemma from_be32_be32:
  "from_be32 (ucast (drop_bit 24 v AND 255)) (ucast (drop_bit 16 v AND 255))
     (ucast (drop_bit 8 v AND 255)) (ucast (v AND 255)) = v"
proof (rule bit_word_eqI)
  fix n assume "n < LENGTH(32)"
  then consider "n < 8" | "8 \<le> n" "n < 16" | "16 \<le> n" "n < 24" | "24 \<le> n" "n < 32"
    by fastforce
  then show "bit (from_be32 (ucast (drop_bit 24 v AND 255)) (ucast (drop_bit 16 v AND 255))
     (ucast (drop_bit 8 v AND 255)) (ucast (v AND 255))) n = bit v n"
    unfolding from_be32_def by cases (auto simp: bit_simps bits_simps)
qed

interpretation u32_field: wire_field 4 be32 readU32Be writeU32Be
proof
  fix v :: u32 and d xs ys zs :: "u8 list" and i :: nat
  show "length (be32 v) = 4" by (simp add: be32_def)
  show "length xs = i \<Longrightarrow> length ys = 4 \<Longrightarrow> writeU32Be (xs @ ys @ zs) i v = xs @ be32 v @ zs"
    by (auto simp: writeU32Be_def be32_def list_update_append length_Suc_conv numeral_eq_Suc)
  show "length xs = i \<Longrightarrow> readU32Be (xs @ be32 v @ zs) i = v"
    using from_be32_be32 [of v]
    by (auto simp: readU32Be_def be32_def from_be32_def nth_append)
  show "i + 4 \<le> length d \<Longrightarrow> be32 (readU32Be d i) = take 4 (drop i d)"
    using be32_from_be32 [of "d ! i" "d ! (i + 1)" "d ! (i + 2)" "d ! (i + 3)"]
    by (auto simp: readU32Be_def from_be32_def take_Suc_conv_app_nth numeral_eq_Suc)
qed

definition be_timestamp :: "NtpTimestamp \<Rightarrow> u8 list" where
  "be_timestamp ts = be32 (seconds ts) @ be32 (fraction ts)"

interpretation timestamp_field: wire_field 8 be_timestamp readTimestamp writeTimestamp
proof
  fix v :: NtpTimestamp and d xs ys zs :: "u8 list" and i :: nat
  show "length (be_timestamp v) = 8" by (simp add: be_timestamp_def u32_field.length_enc)
  show "writeTimestamp (xs @ ys @ zs) i v = xs @ be_timestamp v @ zs"
    if "length xs = i" "length ys = 8"
  proof -
    have "writeU32Be (xs @ take 4 ys @ (drop 4 ys @ zs)) i (seconds v)
        = xs @ be32 (seconds v) @ (drop 4 ys @ zs)"
      using that by (intro u32_field.wr_append) simp_all
    moreover have "writeU32Be ((xs @ be32 (seconds v)) @ drop 4 ys @ zs) (i + 4) (fraction v)
        = (xs @ be32 (seconds v)) @ be32 (fraction v) @ zs"
      using that by (intro u32_field.wr_append) (simp_all add: u32_field.length_enc)
    ultimately show ?thesis
      by (simp add: writeTimestamp_def be_timestamp_def flip: append_assoc)
  qed
  show "readTimestamp (xs @ be_timestamp v @ zs) i = v" if "length xs = i"
  proof -
    have "readU32Be (xs @ be32 (seconds v) @ be32 (fraction v) @ zs) i = seconds v"
      using that by (rule u32_field.rd_append)
    moreover have "readU32Be ((xs @ be32 (seconds v)) @ be32 (fraction v) @ zs) (i + 4) = fraction v"
      using that by (intro u32_field.rd_append) (simp add: u32_field.length_enc)
    ultimately show ?thesis by (simp add: readTimestamp_def be_timestamp_def)
  qed
  show "i + 8 \<le> length d \<Longrightarrow> be_timestamp (readTimestamp d i) = take 8 (drop i d)"
    by (simp add: be_timestamp_def readTimestamp_def u32_field.enc_rd)
      (metis add.commute drop_drop numeral_Bit0 take_add)
qed

interpretation uu: wire_field_pair 4 be32 readU32Be writeU32Be 4 be32 readU32Be writeU32Be ..
interpretation ut: wire_field_pair 4 be32 readU32Be writeU32Be
  8 be_timestamp readTimestamp writeTimestamp ..
interpretation tu: wire_field_pair 8 be_timestamp readTimestamp writeTimestamp
  4 be32 readU32Be writeU32Be ..
interpretation tt: wire_field_pair 8 be_timestamp readTimestamp writeTimestamp
  8 be_timestamp readTimestamp writeTimestamp ..

lemmas field_simps_wire =
  u32_field.length_wr u32_field.rd_wr u32_field.wr_nth_other
  timestamp_field.length_wr timestamp_field.rd_wr timestamp_field.wr_nth_other
  uu.rd_other ut.rd_other tu.rd_other tt.rd_other
  u32_field.rd_append_right timestamp_field.rd_append_right

section \<open>Round trips\<close>

lemma first_byte_fields:
  "drop_bit 6 (first_byte_of p) AND 3 = leap_indicator p AND 3"
  "drop_bit 3 (first_byte_of p) AND 7 = version p AND 7"
  "first_byte_of p AND 7 = mode p AND 7"
  unfolding first_byte_of_def
  by (rule bit_word_eqI; auto simp: bit_simps bits_simps bit_u8_False)+

lemma first_byte_join:
  fixes b :: u8
  shows "push_bit 6 ((drop_bit 6 b AND 3) AND 3) OR push_bit 3 ((drop_bit 3 b AND 7) AND 7)
    OR ((b AND 7) AND 7) = b"
proof (rule bit_word_eqI)
  fix n assume "n < LENGTH(8)"
  then consider "n < 3" | "3 \<le> n" "n < 6" | "6 \<le> n" "n < 8" by fastforce
  then show "bit (push_bit 6 ((drop_bit 6 b AND 3) AND 3) OR push_bit 3 ((drop_bit 3 b AND 7) AND 7)
    OR ((b AND 7) AND 7)) n = bit b n"
    by cases (auto simp: bit_simps bits_simps)
qed

lemma length_serializeToData [simp]: "length (serializeToData p) = 48"
  by (simp add: serializeToData_def NTP_PACKET_SIZE_def Let_def field_simps_wire)

lemma and_mask_id:
  fixes x :: u8
  shows "x \<le> 3 \<Longrightarrow> x AND 3 = x" "x \<le> 7 \<Longrightarrow> x AND 7 = x"
proof -
  assume "x \<le> 3"
  then have "unat x \<in> {0, 1, 2, 3}" by (auto simp: word_le_nat_alt)
  then have "(of_nat (unat x) :: u8) \<in> {0, 1, 2, 3}" by fastforce
  then show "x AND 3 = x" by auto
next
  assume "x \<le> 7"
  then have "unat x \<in> {0, 1, 2, 3, 4, 5, 6, 7}" by (auto simp: word_le_nat_alt)
  then have "(of_nat (unat x) :: u8) \<in> {0, 1, 2, 3, 4, 5, 6, 7}" by fastforce
  then show "x AND 7 = x" by auto
qed

text \<open>The three fields that share the first byte, cut to their width.\<close>

definition wire_masked :: "NtpPacket \<Rightarrow> NtpPacket" where
  "wire_masked p = p\<lparr>leap_indicator := leap_indicator p AND 3, version := version p AND 7,
     mode := mode p AND 7\<rparr>"

definition in_wire_range :: "NtpPacket \<Rightarrow> bool" where
  "in_wire_range p \<longleftrightarrow> leap_indicator p \<le> 3 \<and> version p \<le> 7 \<and> mode p \<le> 7"

lemma wire_masked_id: "in_wire_range p \<Longrightarrow> wire_masked p = p"
  by (simp add: wire_masked_def in_wire_range_def and_mask_id)

lemma serialize_read:
  "serializeToData p ! 0 = first_byte_of p"
  "serializeToData p ! Suc 0 = stratum p"
  "serializeToData p ! 2 = poll p"
  "serializeToData p ! 3 = precision p"
  "readU32Be (serializeToData p) 4 = root_delay p"
  "readU32Be (serializeToData p) 8 = root_dispersion p"
  "readU32Be (serializeToData p) 12 = reference_id p"
  "readTimestamp (serializeToData p) 16 = reference_ts p"
  "readTimestamp (serializeToData p) 24 = originate_ts p"
  "readTimestamp (serializeToData p) 32 = receive_ts p"
  "readTimestamp (serializeToData p) 40 = transmit_ts p"
  by (simp_all add: serializeToData_def NTP_PACKET_SIZE_def Let_def field_simps_wire)

lemma parse_wire_masked: "parseFromData (serializeToData p @ rest) q = (True, wire_masked p)"
  by (simp add: parseFromData_def NTP_PACKET_SIZE_def Let_def nth_append field_simps_wire
      serialize_read first_byte_fields wire_masked_def)

lemma parse_wire_range:
  "in_wire_range p \<Longrightarrow> parseFromData (serializeToData p @ rest) q = (True, p)"
  by (simp add: parse_wire_masked wire_masked_id)

text \<open>
  C1. Parsing what was serialised gives the packet back, whatever the object parsed into
  held and whatever bytes follow the 48 (an authenticator, for example); the leap
  indicator, version and mode are cut to the 2, 3 and 3 bits the header has for them, and
  a packet whose values fit is recovered exactly.
\<close>

theorem parse_serialize:
  "parseFromData (serializeToData p @ rest) q = (True, wire_masked p)
    \<and> (in_wire_range p \<longrightarrow> parseFromData (serializeToData p @ rest) q = (True, p))"
  by (simp add: parse_wire_masked wire_masked_id)

theorem parse_serialize_witness:
  "parseFromData (serializeToData (createClientRequest 0) @ [1, 2, 3]) NtpPacket_init
    = (True, createClientRequest 0)"
proof -
  have "in_wire_range (createClientRequest 0)"
    by (simp add: in_wire_range_def createClientRequest_def NtpPacket_init_def NTP_VERSION_def)
  then show ?thesis
    using parse_serialize [of "createClientRequest 0" "[1, 2, 3]" NtpPacket_init] by blast
qed

lemma serialize_layout:
  "serializeToData p = [first_byte_of p, stratum p, poll p, precision p] @ be32 (root_delay p)
    @ be32 (root_dispersion p) @ be32 (reference_id p) @ be_timestamp (reference_ts p)
    @ be_timestamp (originate_ts p) @ be_timestamp (receive_ts p) @ be_timestamp (transmit_ts p)"
  (is "_ = ?hd @ ?d @ ?s @ ?i @ ?t1 @ ?t2 @ ?t3 @ ?t4")
proof -
  have z: "(replicate 48 (0::u8))[0 := a, Suc 0 := b, 2 := c, 3 := e]
      = [a, b, c, e] @ replicate 44 0" for a b c e
    by (simp add: numeral_eq_Suc)
  have u: "writeU32Be (xs @ replicate (4 + n) 0) i v = (xs @ be32 v) @ replicate n 0"
    if "length xs = i" for xs n i v
    using u32_field.wr_append [OF that, of "replicate 4 0" "replicate n 0"]
    by (simp add: replicate_add)
  have t: "writeTimestamp (xs @ replicate (8 + n) 0) i v = (xs @ be_timestamp v) @ replicate n 0"
    if "length xs = i" for xs n i v
    using timestamp_field.wr_append [OF that, of "replicate 8 0" "replicate n 0"]
    by (simp add: replicate_add)
  note len = u32_field.length_enc timestamp_field.length_enc
  have "serializeToData p = (((((((?hd @ ?d) @ ?s) @ ?i) @ ?t1) @ ?t2) @ ?t3) @ ?t4) @ replicate 0 0"
    unfolding serializeToData_def NTP_PACKET_SIZE_def Let_def
    using u [of ?hd 4 40 "root_delay p"] u [of "?hd @ ?d" 8 36 "root_dispersion p"]
      u [of "(?hd @ ?d) @ ?s" 12 32 "reference_id p"]
      t [of "((?hd @ ?d) @ ?s) @ ?i" 16 24 "reference_ts p"]
      t [of "(((?hd @ ?d) @ ?s) @ ?i) @ ?t1" 24 16 "originate_ts p"]
      t [of "((((?hd @ ?d) @ ?s) @ ?i) @ ?t1) @ ?t2" 32 8 "receive_ts p"]
      t [of "(((((?hd @ ?d) @ ?s) @ ?i) @ ?t1) @ ?t2) @ ?t3" 40 0 "transmit_ts p"]
    by (simp add: z len)
  then show ?thesis by simp
qed

lemma serialize_parse_take:
  assumes "48 \<le> length data"
  shows "serializeToData (snd (parseFromData data q)) = take 48 data"
proof -
  have b: "[data ! 0, data ! 1, data ! 2, data ! 3] = take 4 (drop 0 data)"
  proof -
    have "data \<noteq> []" using assms by auto
    with assms show ?thesis by (simp add: take_Suc_conv_app_nth numeral_eq_Suc)
  qed
  have cat: "take n (drop i data) @ take m (drop (i + n) data) = take (n + m) (drop i data)"
    for n m i by (simp only: take_add drop_drop add.commute [of i])
  have fb: "first_byte_of (snd (parseFromData data q)) = data ! 0"
  proof -
    let ?p = "snd (parseFromData data q)"
    have "leap_indicator ?p = drop_bit 6 (data ! 0) AND 3"
      and "version ?p = drop_bit 3 (data ! 0) AND 7" and "mode ?p = data ! 0 AND 7"
      using assms by (simp_all add: parseFromData_def NTP_PACKET_SIZE_def Let_def)
    then show ?thesis by (simp only: first_byte_of_def first_byte_join)
  qed
  have u: "be32 (readU32Be data i) = take 4 (drop i data)" if "i + 4 \<le> 48" for i
    using u32_field.enc_rd [of i data] that assms by simp
  have t: "be_timestamp (readTimestamp data i) = take 8 (drop i data)" if "i + 8 \<le> 48" for i
    using timestamp_field.enc_rd [of i data] that assms by simp
  have "serializeToData (snd (parseFromData data q)) =
      take 4 (drop 0 data) @ take 4 (drop 4 data) @ take 4 (drop 8 data) @ take 4 (drop 12 data)
      @ take 8 (drop 16 data) @ take 8 (drop 24 data) @ take 8 (drop 32 data) @ take 8 (drop 40 data)"
    unfolding serialize_layout fb b [symmetric] using assms
    by (simp add: parseFromData_def NTP_PACKET_SIZE_def Let_def u t)
  also have "\<dots> = take 48 (drop 0 data)"
    using cat [of 8 32 8] cat [of 8 24 16] cat [of 8 16 24] cat [of 4 12 32] cat [of 4 8 36]
      cat [of 4 4 40] cat [of 4 0 44]
    by simp
  finally show ?thesis by simp
qed

text \<open>
  C9. The other direction: a buffer shorter than the header is refused and the packet
  object keeps its value; otherwise parsing succeeds, and serialising the parsed packet
  reproduces the first 48 bytes bit for bit, so parsing loses nothing of the header.
\<close>

theorem serialize_parse:
  "(length data < 48 \<longrightarrow> parseFromData data q = (False, q))
   \<and> (48 \<le> length data \<longrightarrow> fst (parseFromData data q)
        \<and> serializeToData (snd (parseFromData data q)) = take 48 data)"
  using serialize_parse_take [of data q] by (simp add: parseFromData_def NTP_PACKET_SIZE_def Let_def)

theorem serialize_parse_witness:
  "serializeToData (snd (parseFromData (replicate 60 255) NtpPacket_init)) = replicate 48 255"
  using serialize_parse [of "replicate 60 255" NtpPacket_init] by simp

section \<open>Validation and construction\<close>

lemma packet_check_simps [simp]:
  "snd (packet_check bad msg s) \<longleftrightarrow> \<not> bad \<and> snd s"
  "fst (packet_check bad msg s) = [] \<longleftrightarrow> \<not> bad \<and> fst s = []"
  by (simp_all add: packet_check_def)

lemma validateVersion_iff: "validateVersion p \<longleftrightarrow> version p = 3 \<or> version p = 4"
  by (simp add: validateVersion_def NTP_VERSION_def word_unat_eq_iff)

lemma validateMode_iff: "validateMode p \<longleftrightarrow> mode p \<le> 7"
  using NtpMode_of_defined [of "mode p"] by (auto simp: validateMode_def split: option.splits)

lemma isValid_iff:
  "isValid p \<longleftrightarrow> (version p = 3 \<or> version p = 4) \<and> mode p \<le> 7 \<and> stratum p \<le> 15
     \<and> 4 \<le> poll p \<and> poll p \<le> 17 \<and> sint (precision p) \<le> 0 \<and> leap_indicator p \<le> 3"
  by (auto simp: isValid_def validateDetailed_def Let_def validateVersion_iff validateMode_iff)

lemma errors_nil_iff: "snd (validateDetailed p) = [] \<longleftrightarrow> isValid p"
  by (simp add: isValid_def validateDetailed_def Let_def)

lemma and3_le: "(x::u8) AND 3 \<le> 3" and and7_le: "(x::u8) AND 7 \<le> 7"
  by (rule word_and_le1)+



lemma reference_id_word_4: "reference_id_word [a, b, c, d]
    = from_be32 (char_u8 a) (char_u8 b) (char_u8 c) (char_u8 d)"
proof -
  have "reference_id_word [a, b, c, d] = push_bit 8 (push_bit 8 (push_bit 8 (ucast (char_u8 a))
      OR ucast (char_u8 b)) OR ucast (char_u8 c)) OR ucast (char_u8 d)"
    unfolding reference_id_word_def by (simp only: take_Cons_numeral pred_numeral_simps
        take_Cons' foldl.simps push_bit_of_0 or.left_neutral) simp
  then show ?thesis
    by (simp only: from_be32_def push_bit_or push_bit_push_bit or.assoc) simp
qed

lemma be32_reference_id_word:
  assumes "length s = 4"
  shows "be32 (reference_id_word s) = map char_u8 s"
proof -
  from assms obtain a b c d where "s = [a, b, c, d]"
    by (auto simp: length_Suc_conv numeral_eq_Suc)
  then show ?thesis by (simp add: reference_id_word_4 be32_from_be32)
qed

lemma wire_reference_id: "take 4 (drop 12 (serializeToData p)) = be32 (reference_id p)"
  by (simp add: serialize_layout u32_field.length_enc)

lemma createServerResponse_fields:
  "mode (createServerResponse c st rid n1 n2 n3) = 4"
  "version (createServerResponse c st rid n1 n2 n3) = 4"
  "leap_indicator (createServerResponse c st rid n1 n2 n3) = 0"
  "stratum (createServerResponse c st rid n1 n2 n3) = st"
  "poll (createServerResponse c st rid n1 n2 n3) = 4"
  "precision (createServerResponse c st rid n1 n2 n3) = 250"
  "originate_ts (createServerResponse c st rid n1 n2 n3) = transmit_ts c"
  "receive_ts (createServerResponse c st rid n1 n2 n3) = fromSystemTime n1"
  "transmit_ts (createServerResponse c st rid n1 n2 n3) = fromSystemTime n2"
  "reference_ts (createServerResponse c st rid n1 n2 n3) = fromSystemTime n3"
  "reference_id (createServerResponse c st rid n1 n2 n3) = reference_id_word rid"
  by (simp_all add: createServerResponse_def NTP_VERSION_def)

text \<open>A server response is valid, echoes the request and carries its reference identifier.\<close>

lemma server_response_wellformed:
  assumes "st \<le> 15" and r_def: "r = createServerResponse c st rid n1 n2 n3"
  shows "isValid r \<and> isServerResponse r \<and> originate_ts r = transmit_ts c \<and> stratum r = st
    \<and> parseFromData (serializeToData r) q = (True, r)
    \<and> (length rid = 4 \<longrightarrow> take 4 (drop 12 (serializeToData r)) = map char_u8 rid)"
proof -
  have "isValid r" and "in_wire_range r"
    using assms by (simp_all add: isValid_iff in_wire_range_def createServerResponse_fields)
  moreover from \<open>in_wire_range r\<close> have "parseFromData (serializeToData r @ []) q = (True, r)"
    using parse_wire_range by blast
  ultimately show ?thesis
    by (simp add: r_def isServerResponse_def createServerResponse_fields wire_reference_id
        be32_reference_id_word)
qed

end
