(* ===== verification/Net.thy ===== *)
theory Net
  imports CppStd
begin

text \<open>
  \<open>utils/net.cpp\<close>: matching an IPv4 address against a CIDR block, the primitive of the
  access control list. \<open>inet_pton\<close> belongs to the C library: the model takes it as the
  parameter \<open>pton\<close>, which reads an address text as a number in host byte order, or fails.
  The locale \<open>inet_text\<close> states what POSIX documents of it and of \<open>inet_ntop\<close>, and is
  interpreted on dotted-decimal reading and printing.
\<close>

section \<open>Matching\<close>

definition isIpInCidr :: "(string \<Rightarrow> u32 option) \<Rightarrow> string \<Rightarrow> string \<Rightarrow> cpp_exn + bool" where
  "isIpInCidr pton ip cidr =
     (case find_char (CHR ''/'') cidr of
        None \<Rightarrow> Inr (ip = cidr)
      | Some slash \<Rightarrow>
          (let base_ip = substr cidr 0 slash
           in bind_result (stoi (substr_from cidr (slash + 1))) (\<lambda>prefix.
              if prefix < 0 \<or> prefix > 32 then Inr False
              else (case pton ip of
                  None \<Rightarrow> Inr False
                | Some ip_u \<Rightarrow> (case pton base_ip of
                      None \<Rightarrow> Inr False
                    | Some base_u \<Rightarrow>
                        (let mask = (if prefix = 0 then 0
                                     else push_bit (nat (32 - prefix)) 0xFFFFFFFF)
                         in Inr (ip_u AND mask = base_u AND mask)))))))"

text \<open>The mathematical meaning: the leading \<open>n\<close> bits of the two addresses agree.\<close>

definition same_prefix :: "nat \<Rightarrow> u32 \<Rightarrow> u32 \<Rightarrow> bool" where
  "same_prefix n a b \<longleftrightarrow> unat a div 2 ^ (32 - n) = unat b div 2 ^ (32 - n)"

lemma all_ones: "(0xFFFFFFFF :: u32) = mask 32"
  by (simp add: mask_eq_exp_minus_1)

lemma same_prefix_bits:
  "same_prefix n a b \<longleftrightarrow> (\<forall>i. 32 - n \<le> i \<longrightarrow> bit a i = bit b i)"
proof -
  have "same_prefix n a b \<longleftrightarrow> drop_bit (32 - n) (unat a) = drop_bit (32 - n) (unat b)"
    by (simp add: same_prefix_def drop_bit_eq_div)
  also have "\<dots> \<longleftrightarrow> (\<forall>j. bit a (32 - n + j) = bit b (32 - n + j))"
    by (simp add: bit_eq_iff bit_simps)
  also have "\<dots> \<longleftrightarrow> (\<forall>i. 32 - n \<le> i \<longrightarrow> bit a i = bit b i)"
    by (metis le_add1 le_add_diff_inverse)
  finally show ?thesis .
qed

lemma mask_eq_same_prefix:
  fixes a b :: u32
  assumes "0 < n" "n \<le> 32"
  shows "a AND push_bit (32 - n) 0xFFFFFFFF = b AND push_bit (32 - n) 0xFFFFFFFF
    \<longleftrightarrow> same_prefix n a b"
proof -
  have "bit (x AND push_bit (32 - n) 0xFFFFFFFF) i \<longleftrightarrow> bit x i \<and> 32 - n \<le> i \<and> i < 32"
    for x :: u32 and i
    unfolding all_ones using assms bit_imp_le_length [of x i] by (auto simp: bit_simps)
  then have "a AND push_bit (32 - n) 0xFFFFFFFF = b AND push_bit (32 - n) 0xFFFFFFFF
      \<longleftrightarrow> (\<forall>i < 32. 32 - n \<le> i \<longrightarrow> bit a i = bit b i)"
    by (auto simp: bit_eq_iff)
  moreover have "i < 32" if "bit a i \<noteq> bit b i" for i
    using that bit_imp_le_length [of a i] bit_imp_le_length [of b i] by auto
  ultimately show ?thesis unfolding same_prefix_bits by blast
qed

lemma same_prefix_0 [simp]: "same_prefix 0 a b"
  using unsigned_less [of a, where ?'a = nat] unsigned_less [of b, where ?'a = nat]
  by (simp add: same_prefix_def)

lemma same_prefix_32 [simp]: "same_prefix 32 a b \<longleftrightarrow> a = b"
  by (simp add: same_prefix_def word_unat_eq_iff)

lemma same_prefix_mono: "same_prefix n a b \<Longrightarrow> m \<le> n \<Longrightarrow> same_prefix m a b"
  by (auto simp: same_prefix_bits)

lemma isIpInCidr_block:
  assumes "CHR ''/'' \<notin> set base" "pton ip = Some a" "pton base = Some b" "n \<le> 32"
  shows "isIpInCidr pton ip (base @ CHR ''/'' # to_string (int n)) = Inr (same_prefix n a b)"
proof -
  have "stoi (to_string (int n)) = Inr (int n)"
    using assms(4) by (intro stoi_to_string) (simp add: in_i32_def)
  moreover have "nat (32 - int n) = 32 - n" using assms(4) by simp
  ultimately show ?thesis
    using assms mask_eq_same_prefix [of n a b]
    by (cases "n = 0")
      (simp_all add: isIpInCidr_def find_char_sep substr_def substr_from_def Let_def)
qed

lemma isIpInCidr_host:
  "CHR ''/'' \<notin> set cidr \<Longrightarrow> isIpInCidr pton ip cidr = Inr (ip = cidr)"
  by (simp add: isIpInCidr_def)

lemma isIpInCidr_throws:
  "isIpInCidr pton ip cidr = Inl e \<longleftrightarrow>
     (\<exists>base rest. CHR ''/'' \<notin> set base \<and> cidr = base @ CHR ''/'' # rest \<and> stoi rest = Inl e)"
proof
  assume l: "isIpInCidr pton ip cidr = Inl e"
  then obtain i where i: "find_char (CHR ''/'') cidr = Some i"
    by (auto simp: isIpInCidr_def split: option.splits)
  with l have "stoi (drop (Suc i) cidr) = Inl e"
    by (auto simp: isIpInCidr_def Let_def substr_from_def result_simps
        split: if_splits option.splits)
  with find_char_Some_split [OF i]
  show "\<exists>base rest. CHR ''/'' \<notin> set base \<and> cidr = base @ CHR ''/'' # rest \<and> stoi rest = Inl e"
    by blast
next
  assume "\<exists>base rest. CHR ''/'' \<notin> set base \<and> cidr = base @ CHR ''/'' # rest \<and> stoi rest = Inl e"
  then show "isIpInCidr pton ip cidr = Inl e"
    by (auto simp: isIpInCidr_def find_char_sep substr_from_def Let_def)
qed

section \<open>Address texts\<close>

locale inet_text =
  fixes pton :: "string \<Rightarrow> u32 option" and ntop :: "u32 \<Rightarrow> string"
  assumes pton_ntop: "pton (ntop a) = Some a"
    and ntop_no_slash: "CHR ''/'' \<notin> set (ntop a)"
begin

lemma ntop_inj: "ntop a = ntop b \<longleftrightarrow> a = b"
  by (metis pton_ntop option.inject)

lemma cidr_numeric:
  "n \<le> 32 \<Longrightarrow> isIpInCidr pton (ntop a) (ntop b @ CHR ''/'' # to_string (int n))
     = Inr (same_prefix n a b)"
  by (intro isIpInCidr_block) (simp_all add: pton_ntop ntop_no_slash)

lemma host_numeric: "isIpInCidr pton (ntop a) (ntop b) = Inr (a = b)"
  by (simp add: isIpInCidr_host ntop_no_slash ntop_inj)

end

text \<open>Dotted-decimal text, as POSIX specifies it (no leading zeros in a field).\<close>

definition octet :: "string \<Rightarrow> nat option" where
  "octet f = (if f \<noteq> [] \<and> (\<forall>c \<in> set f. is_digit c) \<and> length f \<le> 3
                 \<and> to_string_nat (digits_val f) = f \<and> digits_val f < 256
              then Some (digits_val f) else None)"

definition inet_pton4 :: "string \<Rightarrow> u32 option" where
  "inet_pton4 s = (case map octet (getlines (CHR ''.'') s) of
      [Some a, Some b, Some c, Some d] \<Rightarrow>
        if join_with (CHR ''.'') (getlines (CHR ''.'') s) = s
        then Some (of_nat (((a * 256 + b) * 256 + c) * 256 + d)) else None
    | _ \<Rightarrow> None)"

definition inet_ntop4 :: "u32 \<Rightarrow> string" where
  "inet_ntop4 a = (let n = unat a in join_with (CHR ''.'')
     (map to_string_nat [n div 16777216, n div 65536 mod 256, n div 256 mod 256, n mod 256]))"

lemma digit_not: "is_digit c \<Longrightarrow> c \<noteq> CHR ''.'' \<and> c \<noteq> CHR ''/''"
  by (auto simp: is_digit_def)

lemma length_base_digits: "n < 1000 \<Longrightarrow> length (to_string_nat n) \<le> 3"
  unfolding to_string_nat_def
  by (subst base_digits.simps, simp, subst base_digits.simps, simp, subst base_digits.simps, simp)

lemma octet_to_string: "n < 256 \<Longrightarrow> octet (to_string_nat n) = Some n"
  using to_string_nat_digits [of n] length_base_digits [of n] by (simp add: octet_def)

lemma set_join_with: "set (join_with d xs) \<subseteq> insert d (\<Union>x \<in> set xs. set x)"
  by (induction d xs rule: join_with.induct) auto

lemma octets_sum:
  fixes n :: nat
  shows "((n div 16777216 * 256 + n div 65536 mod 256) * 256 + n div 256 mod 256) * 256
      + n mod 256 = n"
proof -
  have "n div 16777216 = n div 65536 div 256" and "n div 65536 = n div 256 div 256"
    by (simp_all add: div_mult2_eq [symmetric])
  then have "n div 16777216 * 256 + n div 65536 mod 256 = n div 65536"
    and "n div 65536 * 256 + n div 256 mod 256 = n div 256"
    by (metis div_mult_mod_eq)+
  then show ?thesis by simp
qed

interpretation inet4: inet_text inet_pton4 inet_ntop4
proof
  fix a :: u32
  let ?n = "unat a"
  let ?f = "map to_string_nat [?n div 16777216, ?n div 65536 mod 256, ?n div 256 mod 256, ?n mod 256]"
  have "?n < 4294967296" using unsigned_less [of a, where ?'a = nat] by simp
  then have hi: "?n div 16777216 < 256" by simp
  have dig: "\<forall>x \<in> set ?f. x \<noteq> [] \<and> (\<forall>c \<in> set x. is_digit c)"
    using to_string_nat_digits by auto
  then have "\<forall>x \<in> set ?f. CHR ''.'' \<notin> set x \<and> x \<noteq> []" using digit_not by blast
  then have gl: "getlines (CHR ''.'') (join_with (CHR ''.'') ?f) = ?f"
    by (rule getlines_join_with)
  have "((?n div 16777216 * 256 + ?n div 65536 mod 256) * 256 + ?n div 256 mod 256) * 256
      + ?n mod 256 = ?n"
    by (rule octets_sum)
  then show "inet_pton4 (inet_ntop4 a) = Some a"
    unfolding inet_pton4_def inet_ntop4_def Let_def gl
    using hi by (simp add: octet_to_string)
  show "CHR ''/'' \<notin> set (inet_ntop4 a)"
    using set_join_with [of "CHR ''.''" ?f] dig digit_not
    unfolding inet_ntop4_def Let_def by blast
qed

section \<open>Properties\<close>

text \<open>
  C13. A client address matches the block \<open>base/n\<close> (\<open>n\<close> from 0 to 32) exactly when both
  addresses have the same leading \<open>n\<close> bits, that is when they fall into the same aligned
  range of \<open>2^(32-n)\<close> addresses: everything matches a prefix of 0, only the address itself
  a prefix of 32, and whatever matches a block matches every shorter prefix of it.
\<close>

theorem cidr_membership:
  assumes "CHR ''/'' \<notin> set base" "pton ip = Some a" "pton base = Some b" "n \<le> 32"
  shows "isIpInCidr pton ip (base @ CHR ''/'' # to_string (int n))
      = Inr (unat a div 2 ^ (32 - n) = unat b div 2 ^ (32 - n))
    \<and> (n = 0 \<longrightarrow> isIpInCidr pton ip (base @ CHR ''/'' # to_string (int n)) = Inr True)
    \<and> (n = 32 \<longrightarrow> isIpInCidr pton ip (base @ CHR ''/'' # to_string (int n)) = Inr (a = b))
    \<and> (m \<le> n \<longrightarrow> isIpInCidr pton ip (base @ CHR ''/'' # to_string (int n)) = Inr True \<longrightarrow>
         isIpInCidr pton ip (base @ CHR ''/'' # to_string (int m)) = Inr True)"
  using assms same_prefix_mono [of n a b m]
    isIpInCidr_block [of base pton ip a b 0] isIpInCidr_block [of base pton ip a b 32]
  by (auto simp: isIpInCidr_block simp flip: same_prefix_def)

theorem cidr_membership_witness:
  "isIpInCidr inet_pton4 ''192.168.1.50'' (''192.168.1.0'' @ CHR ''/'' # to_string (int 24)) = Inr True
   \<and> isIpInCidr inet_pton4 ''192.168.2.1'' (''192.168.1.0'' @ CHR ''/'' # to_string (int 24)) = Inr False"
proof -
  have p: "inet_pton4 ''192.168.1.50'' = Some 3232235826"
      "inet_pton4 ''192.168.2.1'' = Some 3232236033"
      "inet_pton4 ''192.168.1.0'' = Some 3232235776"
    using inet4.pton_ntop [of 3232235826] inet4.pton_ntop [of 3232236033]
      inet4.pton_ntop [of 3232235776]
    by (simp_all add: inet_ntop4_def to_string_nat_def base_digits.simps)
  show ?thesis
    using cidr_membership [of "''192.168.1.0''" inet_pton4 "''192.168.1.50''", OF _ p(1) p(3), of 24]
      cidr_membership [of "''192.168.1.0''" inet_pton4 "''192.168.2.1''", OF _ p(2) p(3), of 24]
    by simp
qed

text \<open>Every other form of an entry; only a prefix length that is not a number throws.\<close>

lemma cidr_entry_forms:
  "(CHR ''/'' \<notin> set cidr \<longrightarrow> isIpInCidr pton ip cidr = Inr (ip = cidr))
   \<and> (CHR ''/'' \<notin> set base \<and> in_i32 k \<and> (k < 0 \<or> 32 < k) \<longrightarrow>
        isIpInCidr pton ip (base @ CHR ''/'' # to_string k) = Inr False)
   \<and> (isIpInCidr pton ip cidr = Inl e \<longleftrightarrow>
        (\<exists>base rest. CHR ''/'' \<notin> set base \<and> cidr = base @ CHR ''/'' # rest \<and> stoi rest = Inl e))"
  by (auto simp: isIpInCidr_host isIpInCidr_throws)
    (auto simp: isIpInCidr_def find_char_sep substr_from_def Let_def stoi_to_string)

end
