(* ===== verification/RateLimit.thy ===== *)
theory RateLimit
  imports Prelude
begin

text \<open>
  The contract of the daemon's fixed-window counters, and what follows from it. The server
  keeps one counter per client address for each of two windows (\<open>isRateLimitExceeded\<close>: a
  minute, \<open>isDdosAnomaly\<close>: a second), and every connection keeps one per minute for its
  requests; each is an interpretation of the locale in the theory of the component.

  A hit of a client in a window increments that client's counter for the window (a 32-bit
  counter that wraps) and is over the limit when the new count exceeds it. A counter that also
  forgets or keeps the counts of other windows decides as an abstract limiter that remembers the
  whole history (\<open>sliding_window\<close>).
\<close>

locale fixed_window =
  fixes hit :: "u32 \<Rightarrow> 'k \<Rightarrow> 'w \<Rightarrow> 's \<Rightarrow> bool \<times> 's"
    and cnt :: "'k \<Rightarrow> 'w \<Rightarrow> 's \<Rightarrow> u32"
  assumes cnt_hit: "cnt k w (snd (hit l k w s)) = cnt k w s + 1"
    and cnt_other: "k' \<noteq> k \<Longrightarrow> cnt k' w' (snd (hit l k w s)) = cnt k' w' s"
    and over_limit: "fst (hit l k w s) \<longleftrightarrow> cnt k w (snd (hit l k w s)) > l"
begin

text \<open>
  A sequence of hits within one window, by any clients in any order; the result lists, in
  order, the clients whose hit was within the limit.
\<close>

fun admitted :: "u32 \<Rightarrow> 'w \<Rightarrow> 'k list \<Rightarrow> 's \<Rightarrow> 'k list" where
  "admitted l w [] s = []"
| "admitted l w (k # ks) s =
     (let (over, s') = hit l k w s
      in if over then admitted l w ks s' else k # admitted l w ks s')"

lemma admitted_count:
  assumes "unat (cnt k w s) + count_list ks k < 2 ^ 32"
  shows "count_list (admitted l w ks s) k
    = min (count_list ks k) (unat l - unat (cnt k w s))"
  using assms
proof (induction ks arbitrary: s)
  case Nil
  then show ?case by simp
next
  case (Cons x ks)
  obtain over s' where h: "hit l x w s = (over, s')" by fastforce
  show ?case
  proof (cases "x = k")
    case True
    have inc: "unat (cnt k w s') = unat (cnt k w s) + 1"
      using cnt_hit [of k w l s] h True Cons.prems by (simp add: unat_inc)
    have "unat (cnt k w s') + count_list ks k < 2 ^ 32"
      using Cons.prems True inc by simp
    from Cons.IH [OF this] have ih: "count_list (admitted l w ks s') k
        = min (count_list ks k) (unat l - unat (cnt k w s'))" .
    have "over \<longleftrightarrow> unat l < unat (cnt k w s) + 1"
      using over_limit [of l k w s] h True inc by (simp add: word_less_nat_alt)
    then show ?thesis using h True ih inc by auto
  next
    case False
    then have same: "cnt k w s' = cnt k w s" using cnt_other [of k x w l w s] h by simp
    then have "unat (cnt k w s') + count_list ks k < 2 ^ 32" using Cons.prems False by simp
    from Cons.IH [OF this] show ?thesis using h False same by auto
  qed
qed

text \<open>From an untouched counter, a client gets exactly its first \<open>l\<close> hits of a window.\<close>

lemma admitted_fresh:
  assumes "cnt k w s = 0" "count_list ks k < 2 ^ 32"
  shows "count_list (admitted l w ks s) k = min (count_list ks k) (unat l)"
  using admitted_count [of k w s ks l] assms by simp

lemma admitted_at_most: 
  assumes "unat (cnt k w s) + count_list ks k < 2 ^ 32"
  shows "count_list (admitted l w ks s) k \<le> unat l"
  using admitted_count [OF assms] by simp

text \<open>The clients do not influence each other: dropping the hits of others changes nothing.\<close>

lemma admitted_isolated:
  assumes "unat (cnt k w s) + count_list ks k < 2 ^ 32"
  shows "count_list (admitted l w ks s) k
    = count_list (admitted l w (filter (\<lambda>x. x = k) ks) s) k"
proof -
  have "count_list (filter (\<lambda>x. x = k) ks) k = count_list ks k"
    by (induction ks) auto
  then show ?thesis using assms by (simp add: admitted_count)
qed

end

section \<open>Windows of a clock that does not run backwards\<close>

text \<open>
  The abstract limiter remembers every hit: a hit is over the limit when the history, that hit
  included, holds more than \<open>l\<close> hits of the same client in the same window.
\<close>

fun history_decisions :: "u32 \<Rightarrow> ('w \<times> 'k) list \<Rightarrow> ('w \<times> 'k) list \<Rightarrow> bool list" where
  "history_decisions l h [] = []"
| "history_decisions l h (e # es) =
     (unat l < Suc (count_list h e)) # history_decisions l (h @ [e]) es"

text \<open>The decisions of a limiter with a state, over hits in the order of the clock.\<close>

fun decisions :: "('k \<Rightarrow> 'w \<Rightarrow> 's \<Rightarrow> bool \<times> 's) \<Rightarrow> ('w \<times> 'k) list \<Rightarrow> 's \<Rightarrow> bool list" where
  "decisions check [] s = []"
| "decisions check ((w, k) # es) s =
     (let (over, s') = check k w s in over # decisions check es s')"

lemma count_list_unseen: "x \<notin> set xs \<Longrightarrow> count_list xs x = 0"
  by (induction xs) auto

text \<open>
  A counter that keeps or forgets the counts of other windows implements the abstract limiter,
  as long as it starts empty and no client comes back to an earlier window.
\<close>

locale sliding_window = fixed_window hit cnt
  for hit :: "u32 \<Rightarrow> 'k \<Rightarrow> 'w :: linorder \<Rightarrow> 's \<Rightarrow> bool \<times> 's" and cnt :: "'k \<Rightarrow> 'w \<Rightarrow> 's \<Rightarrow> u32" +
  assumes cnt_later: "w' \<noteq> w \<Longrightarrow> cnt k w' (snd (hit l k w s)) \<in> {0, cnt k w' s}"
begin

definition represents :: "('w \<times> 'k) list \<Rightarrow> 's \<Rightarrow> bool" where
  "represents h s \<longleftrightarrow> (\<forall>k w. (\<forall>w'. (w', k) \<in> set h \<longrightarrow> w' \<le> w) \<longrightarrow>
     cnt k w s = of_nat (count_list h (w, k)))"

lemma representsD:
  "represents h s \<Longrightarrow> (\<And>w'. (w', k) \<in> set h \<Longrightarrow> w' \<le> w) \<Longrightarrow> cnt k w s = of_nat (count_list h (w, k))"
  by (simp add: represents_def)

lemma represents_hit:
  assumes "represents h s" and late: "\<And>w'. (w', k) \<in> set h \<Longrightarrow> w' \<le> w"
  shows "represents (h @ [(w, k)]) (snd (hit l k w s))"
  unfolding represents_def
proof (intro allI impI)
  fix k' w'
  assume new: "\<forall>v. (v, k') \<in> set (h @ [(w, k)]) \<longrightarrow> v \<le> w'"
  then have old: "cnt k' w' s = of_nat (count_list h (w', k'))"
    by (intro representsD [OF assms(1)]) simp
  show "cnt k' w' (snd (hit l k w s)) = of_nat (count_list (h @ [(w, k)]) (w', k'))"
  proof (cases "k' = k \<and> w' \<noteq> w")
    case True
    with new have "w < w'" by auto
    then have "(w', k) \<notin> set h" using late [of w'] by auto
    then show ?thesis using True old cnt_later [of w' w k l s] by (auto simp: count_list_unseen)
  next
    case False
    then consider "k' = k" "w' = w" | "k' \<noteq> k" by blast
    then show ?thesis using old by cases (simp_all add: cnt_hit cnt_other)
  qed
qed

lemma hit_decides:
  assumes "represents h s" and "\<And>w'. (w', k) \<in> set h \<Longrightarrow> w' \<le> w" and "Suc (length h) < 2 ^ 32"
  shows "fst (hit l k w s) \<longleftrightarrow> unat l < Suc (count_list h (w, k))"
proof -
  have "count_list h (w, k) \<le> length h" by (rule count_le_length)
  then have "unat (of_nat (Suc (count_list h (w, k))) :: u32) = Suc (count_list h (w, k))"
    using assms(3) by (simp add: unat_of_nat take_bit_nat_eq_self del: of_nat_Suc)
  then show ?thesis
    using over_limit [of l k w s] cnt_hit [of k w l s] representsD [OF assms(1,2)]
    by (simp add: word_less_nat_alt add.commute)
qed

lemma refines:
  assumes "represents h s" and "sorted (map fst (h @ es))" and "length (h @ es) < 2 ^ 32"
  shows "decisions (hit l) es s = history_decisions l h es"
  using assms
proof (induction es arbitrary: h s)
  case (Cons e es)
  obtain w k where e: "e = (w, k)" by fastforce
  have late: "w' \<le> w" if "(w', k) \<in> set h" for w'
    using that Cons.prems(2) e by (force simp: sorted_append)
  show ?case
    using Cons.IH [OF represents_hit [OF Cons.prems(1) late]] Cons.prems
      hit_decides [OF Cons.prems(1) late, where l = l] e
    by (simp add: case_prod_beta)
qed simp

end

section \<open>Counters that forget nothing\<close>

text \<open>
  A counter that keeps the counts of all windows decides as the abstract limiter even when the clock
  runs backwards.
\<close>

locale keeping_window = fixed_window hit cnt
  for hit :: "u32 \<Rightarrow> 'k \<Rightarrow> 'w \<Rightarrow> 's \<Rightarrow> bool \<times> 's" and cnt :: "'k \<Rightarrow> 'w \<Rightarrow> 's \<Rightarrow> u32" +
  assumes cnt_kept: "w' \<noteq> w \<Longrightarrow> cnt k w' (snd (hit l k w s)) = cnt k w' s"
begin

definition keeps :: "('w \<times> 'k) list \<Rightarrow> 's \<Rightarrow> bool" where
  "keeps h s \<longleftrightarrow> (\<forall>k w. cnt k w s = of_nat (count_list h (w, k)))"

lemma keeps_hit: "keeps h s \<Longrightarrow> keeps (h @ [(w, k)]) (snd (hit l k w s))"
  unfolding keeps_def
proof (intro allI)
  fix k' w'
  assume old: "\<forall>k w. cnt k w s = of_nat (count_list h (w, k))"
  consider "k' = k" "w' = w" | "k' = k" "w' \<noteq> w" | "k' \<noteq> k" by blast
  then show "cnt k' w' (snd (hit l k w s)) = of_nat (count_list (h @ [(w, k)]) (w', k'))"
    using old by cases (simp_all add: cnt_hit cnt_kept cnt_other)
qed

lemma keeps_decides:
  assumes "keeps h s" and "Suc (length h) < 2 ^ 32"
  shows "fst (hit l k w s) \<longleftrightarrow> unat l < Suc (count_list h (w, k))"
proof -
  have "count_list h (w, k) \<le> length h" by (rule count_le_length)
  then have "unat (of_nat (Suc (count_list h (w, k))) :: u32) = Suc (count_list h (w, k))"
    using assms(2) by (simp add: unat_of_nat take_bit_nat_eq_self del: of_nat_Suc)
  then show ?thesis
    using over_limit [of l k w s] cnt_hit [of k w l s] assms(1)
    by (simp add: keeps_def word_less_nat_alt add.commute)
qed

lemma keeps_refines:
  assumes "keeps h s" and "length (h @ es) < 2 ^ 32"
  shows "decisions (hit l) es s = history_decisions l h es"
  using assms
proof (induction es arbitrary: h s)
  case (Cons e es)
  obtain w k where e: "e = (w, k)" by fastforce
  show ?case
    using Cons.IH [OF keeps_hit [OF Cons.prems(1)]] Cons.prems
      keeps_decides [OF Cons.prems(1), where l = l] e
    by (simp add: case_prod_beta)
qed simp

end

section \<open>The counter entry of the server's tables\<close>

text \<open>
  The server's tables map an address to the pair of the window last seen and its count, and
  start a new count when the window has changed. \<open>operator[]\<close> of the table creates the pair
  of zeros.
\<close>

type_synonym bucket_table = "string \<rightharpoonup> u64 \<times> u32"

definition table_entry :: "bucket_table \<Rightarrow> string \<Rightarrow> u64 \<times> u32" where
  "table_entry t k = (case t k of Some e \<Rightarrow> e | None \<Rightarrow> (0, 0))"

definition bump_entry :: "u64 \<Rightarrow> u64 \<times> u32 \<Rightarrow> u64 \<times> u32" where
  "bump_entry bucket entry =
     (let entry = (if fst entry \<noteq> bucket then (bucket, 0) else entry)
      in (fst entry, snd entry + 1))"

definition table_hit :: "u32 \<Rightarrow> string \<Rightarrow> u64 \<Rightarrow> bucket_table \<Rightarrow> bool \<times> bucket_table" where
  "table_hit limit client_ip bucket t =
     (let entry = bump_entry bucket (table_entry t client_ip)
      in (snd entry > limit, t(client_ip \<mapsto> entry)))"

definition table_count :: "string \<Rightarrow> u64 \<Rightarrow> bucket_table \<Rightarrow> u32" where
  "table_count k w t = (let e = table_entry t k in if fst e = w then snd e else 0)"

interpretation table_window: sliding_window table_hit table_count
  by unfold_locales
    (auto simp: table_hit_def table_count_def table_entry_def bump_entry_def Let_def)

lemma empty_table: "table_window.represents [] Map.empty"
  by (simp add: table_window.represents_def table_count_def table_entry_def)

end
