(* ===== verification/Config.thy ===== *)
theory Config
  imports CppStd Platform "HOL-Library.AList"
begin

text \<open>
  \<open>NtpConfig\<close> of \<open>config/config.hpp\<close> and \<open>config/config.cpp\<close>: the configuration record with
  the defaults of \<open>setDefaults\<close>, its validation, and its summary for the log.

  \<^item> The enums without a fixed width are kept as their integer value, because the environment
    overrides cast any number into them; the enumerators are the abbreviations below.
  \<^item> \<open>std::chrono\<close> durations are their tick counts (seconds, or milliseconds for \<open>timeout\<close>).
  \<^item> The unordered map of authentication keys is an association list with one entry per key;
    the list order stands for the iteration order, which the standard leaves open.
  \<^item> \<open>stratum\<close> and \<open>reference_id\<close> are prefixed, as packets have fields of those names.
\<close>

section \<open>Enumerations\<close>

type_synonym LogLevel = int

abbreviation (input) LOG_LEVEL_DEBUG :: LogLevel where "LOG_LEVEL_DEBUG \<equiv> 0"
abbreviation (input) LOG_LEVEL_INFO :: LogLevel where "LOG_LEVEL_INFO \<equiv> 1"
abbreviation (input) LOG_LEVEL_WARNING :: LogLevel where "LOG_LEVEL_WARNING \<equiv> 2"
abbreviation (input) LOG_LEVEL_ERROR :: LogLevel where "LOG_LEVEL_ERROR \<equiv> 3"
abbreviation (input) LOG_LEVEL_FATAL :: LogLevel where "LOG_LEVEL_FATAL \<equiv> 4"

type_synonym AuthAlgorithm = int

abbreviation (input) AUTH_NONE :: AuthAlgorithm where "AUTH_NONE \<equiv> 0"
abbreviation (input) AUTH_MD5 :: AuthAlgorithm where "AUTH_MD5 \<equiv> 1"
abbreviation (input) AUTH_SHA1 :: AuthAlgorithm where "AUTH_SHA1 \<equiv> 2"
abbreviation (input) AUTH_SHA256 :: AuthAlgorithm where "AUTH_SHA256 \<equiv> 3"

type_synonym UpstreamSelectionAlgorithm = int

abbreviation (input) UPSTREAM_ROUND_ROBIN :: UpstreamSelectionAlgorithm where
  "UPSTREAM_ROUND_ROBIN \<equiv> 0"
abbreviation (input) UPSTREAM_RANDOM :: UpstreamSelectionAlgorithm where
  "UPSTREAM_RANDOM \<equiv> 1"
abbreviation (input) UPSTREAM_LEAST_ERRORS :: UpstreamSelectionAlgorithm where
  "UPSTREAM_LEAST_ERRORS \<equiv> 2"

type_synonym DegradationMode = int

abbreviation (input) DEGRADATION_NORMAL :: DegradationMode where
  "DEGRADATION_NORMAL \<equiv> 0"
abbreviation (input) DEGRADATION_REDUCED_FUNCTIONALITY :: DegradationMode where
  "DEGRADATION_REDUCED_FUNCTIONALITY \<equiv> 1"
abbreviation (input) DEGRADATION_PRIORITIZE_TRUSTED :: DegradationMode where
  "DEGRADATION_PRIORITIZE_TRUSTED \<equiv> 2"

section \<open>The configuration\<close>

record NtpConfig =
  listen_address :: string
  listen_port :: u16
  enable_ipv6 :: bool
  max_connections :: int
  cfg_stratum :: NtpStratum
  cfg_reference_id :: string
  reference_clock :: string
  upstream_servers :: "string list"
  sync_interval :: int
  timeout :: int
  log_file :: string
  log_level :: LogLevel
  enable_console_logging :: bool
  enable_syslog :: bool
  log_json :: bool
  log_max_size_bytes :: u64
  log_max_files :: u32
  enable_authentication :: bool
  authentication_key :: string
  authentication_algorithm :: AuthAlgorithm
  authentication_keys :: "(u32 \<times> string) list"
  restrict_queries :: bool
  allowed_clients :: "string list"
  denied_clients :: "string list"
  enable_acl :: bool
  enable_rate_limiting :: bool
  connection_rate_limit_per_minute :: u32
  request_rate_limit_per_minute :: u32
  enable_ddos_protection :: bool
  ddos_anomaly_threshold_per_second :: u32
  enable_encrypted_channels :: bool
  enable_certificate_validation :: bool
  enable_certificate_authentication :: bool
  enable_tls :: bool
  tls_cert_file :: string
  tls_key_file :: string
  tls_ca_file :: string
  worker_threads :: u64
  max_packet_size :: u64
  enable_statistics :: bool
  stats_interval :: int
  drift_file :: string
  enable_drift_compensation :: bool
  leap_second_file :: string
  enable_leap_second_handling :: bool
  enable_automatic_failover :: bool
  enable_self_healing :: bool
  enable_graceful_degradation :: bool
  degradation_mode :: DegradationMode
  enable_state_persistence :: bool
  state_file :: string
  backup_config_file :: string
  service_restart_limit :: u32
  upstream_selection_algorithm :: UpstreamSelectionAlgorithm
  enable_upstream_load_balancing :: bool
  enable_upstream_failover :: bool
  enable_dynamic_stratum_adjustment :: bool
  enable_reference_clock_support :: bool
  reference_clock_source :: string
  last_config_file :: string

definition setDefaults :: NtpConfig where
  "setDefaults = \<lparr>
     listen_address = ''0.0.0.0'',
     listen_port = 123,
     enable_ipv6 = True,
     max_connections = 1000,
     cfg_stratum = SECONDARY_REFERENCE,
     cfg_reference_id = ''LOCL'',
     reference_clock = ''LOCAL'',
     upstream_servers = [''pool.ntp.org'', ''time.nist.gov''],
     sync_interval = 64,
     timeout = 1000,
     log_file = ''/var/log/simple-ntpd/simple-ntpd.log'',
     log_level = LOG_LEVEL_INFO,
     enable_console_logging = True,
     enable_syslog = True,
     log_json = False,
     log_max_size_bytes = 0,
     log_max_files = 5,
     enable_authentication = False,
     authentication_key = [],
     authentication_algorithm = AUTH_NONE,
     authentication_keys = [],
     restrict_queries = False,
     allowed_clients = [''0.0.0.0/0''],
     denied_clients = [],
     enable_acl = False,
     enable_rate_limiting = False,
     connection_rate_limit_per_minute = 120,
     request_rate_limit_per_minute = 600,
     enable_ddos_protection = False,
     ddos_anomaly_threshold_per_second = 200,
     enable_encrypted_channels = False,
     enable_certificate_validation = False,
     enable_certificate_authentication = False,
     enable_tls = False,
     tls_cert_file = [],
     tls_key_file = [],
     tls_ca_file = [],
     worker_threads = 4,
     max_packet_size = 1024,
     enable_statistics = True,
     stats_interval = 60,
     drift_file = ''/var/lib/simple-ntpd/drift'',
     enable_drift_compensation = True,
     leap_second_file = ''/var/lib/simple-ntpd/leap-seconds.list'',
     enable_leap_second_handling = True,
     enable_automatic_failover = False,
     enable_self_healing = False,
     enable_graceful_degradation = False,
     degradation_mode = DEGRADATION_NORMAL,
     enable_state_persistence = False,
     state_file = ''/var/lib/simple-ntpd/state.json'',
     backup_config_file = ''/var/lib/simple-ntpd/config.backup'',
     service_restart_limit = 3,
     upstream_selection_algorithm = UPSTREAM_ROUND_ROBIN,
     enable_upstream_load_balancing = False,
     enable_upstream_failover = False,
     enable_dynamic_stratum_adjustment = False,
     enable_reference_clock_support = False,
     reference_clock_source = ''local'',
     last_config_file = []\<rparr>"


section \<open>Validation\<close>

definition config_validateDetailed :: "NtpConfig \<Rightarrow> bool \<times> string list" where
  "config_validateDetailed c =
     (let errors = [];
          errors = push_error (listen_port c < 1 \<or> uint (listen_port c) > 65535)
                ''listen_port must be in range 1-65535'' errors;
          errors = push_error (uint (cfg_stratum c) < 0 \<or> uint (cfg_stratum c) > 15)
                ''stratum must be in range 0-15'' errors;
          errors = push_error (worker_threads c < 1 \<or> worker_threads c > 64)
                ''worker_threads must be in range 1-64'' errors;
          errors = push_error (max_connections c < 1 \<or> max_connections c > 100000)
                ''max_connections must be in range 1-100000'' errors;
          errors = push_error (max_packet_size c < 48 \<or> max_packet_size c > 8192)
                ''max_packet_size must be in range 48-8192'' errors;
          errors = push_error (sync_interval c < 1 \<or> sync_interval c > 86400)
                ''sync_interval must be in range 1-86400 seconds'' errors;
          errors = push_error (timeout c < 10 \<or> timeout c > 60000)
                ''timeout must be in range 10-60000 milliseconds'' errors;
          errors = push_error (stats_interval c < 1 \<or> stats_interval c > 3600)
                ''stats_interval must be in range 1-3600 seconds'' errors;
          errors = push_error (length (cfg_reference_id c) \<noteq> 4)
                ''reference_id must be exactly 4 characters'' errors;
          errors = push_error (log_max_size_bytes c > 0 \<and> log_max_size_bytes c < 1024)
                ''log_max_size_bytes must be 0 or >= 1024'' errors;
          errors = push_error (log_max_files c < 1 \<or> log_max_files c > 1000)
                ''log_max_files must be in range 1-1000'' errors;
          errors = push_error (enable_authentication c \<and> authentication_key c = [])
                ''authentication_key is required when enable_authentication=true'' errors;
          errors = push_error (\<not> enable_authentication c \<and> authentication_key c \<noteq> [])
                ''authentication_key set while enable_authentication=false'' errors;
          errors = push_error (enable_leap_second_handling c \<and> leap_second_file c = [])
                ''leap_second_file is required when enable_leap_second_handling=true'' errors;
          errors = push_error (enable_statistics c \<and> stats_interval c \<le> 0)
                ''stats_interval must be > 0 when enable_statistics=true'' errors;
          errors = push_error (restrict_queries c \<and> allowed_clients c = [])
                ''allowed_clients must be set when restrict_queries=true'' errors;
          errors = push_error (enable_rate_limiting c \<and> connection_rate_limit_per_minute c = 0)
                ''connection_rate_limit_per_minute must be > 0 when rate limiting is enabled'' errors;
          errors = push_error (enable_rate_limiting c \<and> request_rate_limit_per_minute c = 0)
                ''request_rate_limit_per_minute must be > 0 when rate limiting is enabled'' errors;
          errors = push_error (enable_ddos_protection c \<and> ddos_anomaly_threshold_per_second c = 0)
                ''ddos_anomaly_threshold_per_second must be > 0 when DDoS protection is enabled'' errors;
          errors = push_error ((enable_tls c \<or> enable_certificate_authentication c) \<and> (tls_cert_file c = [] \<or> tls_key_file c = []))
                ''tls_cert_file and tls_key_file are required when TLS/certificate authentication is enabled'' errors;
          errors = push_error (enable_certificate_validation c \<and> tls_ca_file c = [])
                ''tls_ca_file is required when certificate validation is enabled'' errors;
          errors = push_error (enable_state_persistence c \<and> state_file c = [])
                ''state_file is required when state persistence is enabled'' errors;
          errors = push_error (enable_automatic_failover c \<and> upstream_servers c = [])
                ''upstream_servers must not be empty when automatic failover is enabled'' errors
      in (errors = [], errors))"

definition config_validate :: "NtpConfig \<Rightarrow> bool" where
  "config_validate c = fst (config_validateDetailed c)"

section \<open>Summary\<close>

definition yes_no :: "bool \<Rightarrow> string" where
  "yes_no b = (if b then ''Yes'' else ''No'')"

definition config_newline :: string where
  "config_newline = [CHR 0x0A]"

definition config_toString :: "NtpConfig \<Rightarrow> string" where
  "config_toString c = ''NTP Configuration:'' @ config_newline @
     ''  Listen Address: '' @ listen_address c @ '':'' @ to_string (uint (listen_port c)) @ config_newline @
     ''  IPv6 Enabled: '' @ yes_no (enable_ipv6 c) @ config_newline @
     ''  Max Connections: '' @ to_string (max_connections c) @ config_newline @
     ''  Stratum: '' @ to_string (uint (cfg_stratum c)) @ config_newline @
     ''  Reference Clock: '' @ reference_clock c @ config_newline @
     ''  Reference ID: '' @ cfg_reference_id c @ config_newline @
     ''  Worker Threads: '' @ to_string (uint (worker_threads c)) @ config_newline @
     ''  Log Level: '' @ to_string (log_level c) @ config_newline @
     ''  Log File: '' @ log_file c @ config_newline @
     ''  Console Logging: '' @ yes_no (enable_console_logging c) @ config_newline @
     ''  Syslog: '' @ yes_no (enable_syslog c) @ config_newline @
     ''  Authentication: '' @ yes_no (enable_authentication c) @ config_newline @
     ''  Auth Algorithm: '' @ to_string (authentication_algorithm c) @ config_newline @
     ''  ACL Enabled: '' @ yes_no (enable_acl c) @ config_newline @
     ''  Rate Limiting: '' @ yes_no (enable_rate_limiting c) @ config_newline @
     ''  DDoS Protection: '' @ yes_no (enable_ddos_protection c) @ config_newline @
     ''  TLS Enabled: '' @ yes_no (enable_tls c) @ config_newline @
     ''  Cert Validation: '' @ yes_no (enable_certificate_validation c) @ config_newline @
     ''  Cert Auth: '' @ yes_no (enable_certificate_authentication c) @ config_newline @
     ''  Statistics: '' @ yes_no (enable_statistics c) @ config_newline @
     ''  Drift Compensation: '' @ yes_no (enable_drift_compensation c) @ config_newline @
     ''  Leap Second Handling: '' @ yes_no (enable_leap_second_handling c) @ config_newline @
     ''  Automatic Failover: '' @ yes_no (enable_automatic_failover c) @ config_newline @
     ''  Self Healing: '' @ yes_no (enable_self_healing c) @ config_newline @
     ''  Graceful Degradation: '' @ yes_no (enable_graceful_degradation c) @ config_newline @
     ''  Upstream Selection Algorithm: '' @ to_string (upstream_selection_algorithm c) @ config_newline @
     ''  Dynamic Stratum: '' @ yes_no (enable_dynamic_stratum_adjustment c) @ config_newline @
     ''  Reference Clock Support: '' @ yes_no (enable_reference_clock_support c) @ config_newline"

section \<open>What validation establishes\<close>

lemma config_validateDetailed_flag:
  "config_validate c \<longleftrightarrow> snd (config_validateDetailed c) = []"
  by (simp add: config_validate_def config_validateDetailed_def Let_def)

text \<open>
  What a valid configuration is: every number in its range, and every option that is switched
  on has the settings it needs.
\<close>

definition config_ranges_ok :: "NtpConfig \<Rightarrow> bool" where
  "config_ranges_ok c \<longleftrightarrow>
     listen_port c \<noteq> 0 \<and> cfg_stratum c \<le> 15
   \<and> worker_threads c \<in> {1..64} \<and> max_connections c \<in> {1..100000}
   \<and> max_packet_size c \<in> {48..8192} \<and> sync_interval c \<in> {1..86400}
   \<and> timeout c \<in> {10..60000} \<and> stats_interval c \<in> {1..3600}
   \<and> length (cfg_reference_id c) = 4
   \<and> (log_max_size_bytes c = 0 \<or> 1024 \<le> log_max_size_bytes c) \<and> log_max_files c \<in> {1..1000}"

definition config_requirements_ok :: "NtpConfig \<Rightarrow> bool" where
  "config_requirements_ok c \<longleftrightarrow>
     (enable_authentication c \<longleftrightarrow> authentication_key c \<noteq> [])
   \<and> (enable_leap_second_handling c \<longrightarrow> leap_second_file c \<noteq> [])
   \<and> (restrict_queries c \<longrightarrow> allowed_clients c \<noteq> [])
   \<and> (enable_rate_limiting c \<longrightarrow>
        connection_rate_limit_per_minute c \<noteq> 0 \<and> request_rate_limit_per_minute c \<noteq> 0)
   \<and> (enable_ddos_protection c \<longrightarrow> ddos_anomaly_threshold_per_second c \<noteq> 0)
   \<and> (enable_tls c \<or> enable_certificate_authentication c \<longrightarrow>
        tls_cert_file c \<noteq> [] \<and> tls_key_file c \<noteq> [])
   \<and> (enable_certificate_validation c \<longrightarrow> tls_ca_file c \<noteq> [])
   \<and> (enable_state_persistence c \<longrightarrow> state_file c \<noteq> [])
   \<and> (enable_automatic_failover c \<longrightarrow> upstream_servers c \<noteq> [])"

lemma port_range: "(p::u16) < 1 \<or> uint p > 65535 \<longleftrightarrow> p = 0"
proof -
  have "uint p \<le> 65535" using uint_lt2p [of p] by simp
  moreover have "p < 1 \<longleftrightarrow> p = 0" by (simp add: word_less_nat_alt unat_eq_zero)
  ultimately show ?thesis by auto
qed

lemma stratum_range: "uint (b::u8) < 0 \<or> uint b > 15 \<longleftrightarrow> \<not> b \<le> 15"
  by (auto simp: word_le_def not_le)

lemma outside_range: "x < a \<or> x > b \<longleftrightarrow> x \<notin> {a..b::'a::linorder}"
  by auto

lemma size_limit: "(w::u64) > 0 \<and> w < k \<longleftrightarrow> \<not> (w = 0 \<or> k \<le> w)"
  by (auto simp: word_neq_0_conv not_le)

lemma config_validate_iff:
  "config_validate c \<longleftrightarrow> config_ranges_ok c \<and> config_requirements_ok c"
proof -
  have stat: "enable_statistics c \<longrightarrow> \<not> stats_interval c \<le> 0" if "stats_interval c \<in> {1..3600}"
    using that by simp
  have split: "\<not> (a \<and> b) \<longleftrightarrow> (a \<longrightarrow> \<not> b)" "\<not> (a \<or> b) \<longleftrightarrow> \<not> a \<and> \<not> b"
    "(a \<longrightarrow> p \<and> q) \<longleftrightarrow> (a \<longrightarrow> p) \<and> (a \<longrightarrow> q)"
    "(a \<longleftrightarrow> \<not> b) \<longleftrightarrow> (a \<longrightarrow> \<not> b) \<and> (\<not> a \<longrightarrow> b)" for a b p q
    by blast+
  show ?thesis
    unfolding config_validate_def config_validateDetailed_def Let_def fst_conv push_error_eq_Nil
      config_ranges_ok_def config_requirements_ok_def
    unfolding port_range stratum_range size_limit not_not
    unfolding outside_range not_not split simp_thms
    by (rule iffI; elim conjE; intro conjI; (assumption | erule stat))
qed

lemma config_validate_ranges: "config_validate c \<Longrightarrow> config_ranges_ok c"
  by (simp add: config_validate_iff)

lemma setDefaults_valid: "config_validate setDefaults"
  by (simp add: config_validate_iff config_ranges_ok_def config_requirements_ok_def
      setDefaults_def)


end
