(* ===== verification/ConfigArgs.thy ===== *)
theory ConfigArgs
  imports Config
begin

text \<open>
  The three ways a setting reaches \<open>NtpConfig\<close> (\<open>config/config.cpp\<close>): \<open>key=value\<close> pairs of the
  command line and of the configuration file, both through \<open>parseCommandLineArg\<close>, and the
  overrides of the process environment.

  \<^item> The chain of \<open>else if\<close>s on the key is cut into five groups in source order; a group
    returns \<^const>\<open>None\<close> when the key is none of its own, and the next one is tried.
  \<^item> The file system is a map from names to contents, the environment a map from variables to
    values; both are arguments.
  \<^item> A conversion that throws is caught inside each branch, so it makes the call return
    \<^const>\<open>False\<close> and leaves the configuration alone.
\<close>

section \<open>Values\<close>

definition config_bool :: "string \<Rightarrow> bool" where
  "config_bool value \<longleftrightarrow> value = ''true'' \<or> value = ''1'' \<or> value = ''yes''"

definition with_int :: "string \<Rightarrow> (int \<Rightarrow> 'a) \<Rightarrow> 'a \<Rightarrow> bool \<times> 'a" where
  "with_int value f c = (case stoi value of Inl _ \<Rightarrow> (False, c) | Inr i \<Rightarrow> (True, f i))"

definition with_ul :: "string \<Rightarrow> (u64 \<Rightarrow> 'a) \<Rightarrow> 'a \<Rightarrow> bool \<times> 'a" where
  "with_ul value f c = (case stoul value of Inl _ \<Rightarrow> (False, c) | Inr w \<Rightarrow> (True, f w))"

definition blanks :: "char set" where
  "blanks = {CHR '' '', CHR 0x09}"

definition comma_list :: "string \<Rightarrow> string list" where
  "comma_list value = filter (\<lambda>s. s \<noteq> []) (map (trim_chars blanks) (getlines CHR '','' value))"

definition algorithm_named :: "string \<Rightarrow> AuthAlgorithm" where
  "algorithm_named alg =
     (if alg = ''md5'' then AUTH_MD5
      else if alg = ''sha1'' then AUTH_SHA1
      else if alg = ''sha256'' then AUTH_SHA256
      else AUTH_NONE)"

definition selection_named :: "string \<Rightarrow> UpstreamSelectionAlgorithm" where
  "selection_named alg =
     (if alg = ''random'' then UPSTREAM_RANDOM
      else if alg = ''least_errors'' then UPSTREAM_LEAST_ERRORS
      else UPSTREAM_ROUND_ROBIN)"

definition degradation_named :: "string \<Rightarrow> DegradationMode" where
  "degradation_named mode =
     (if mode = ''reduced'' then DEGRADATION_REDUCED_FUNCTIONALITY
      else if mode = ''prioritize_trusted'' then DEGRADATION_PRIORITIZE_TRUSTED
      else DEGRADATION_NORMAL)"

definition parseAuthenticationKeySpec :: "string \<Rightarrow> NtpConfig \<Rightarrow> bool \<times> NtpConfig" where
  "parseAuthenticationKeySpec spec c =
     (case find_char CHR '':'' spec of
        None \<Rightarrow> (False, c)
      | Some colon \<Rightarrow>
          if colon = 0 \<or> colon = length spec - 1 then (False, c)
          else (case stoul (substr spec 0 colon) of
                  Inl _ \<Rightarrow> (False, c)
                | Inr n \<Rightarrow>
                    (let key_id = ucast n :: u32; key_value = substr_from spec (colon + 1)
                     in if key_value = [] then (False, c)
                        else (True, c\<lparr>authentication_keys :=
                                AList.update key_id key_value (authentication_keys c)\<rparr>))))"

definition authentication_keys_from :: "string list \<Rightarrow> NtpConfig \<Rightarrow> NtpConfig" where
  "authentication_keys_from items c =
     fold (\<lambda>item c. snd (parseAuthenticationKeySpec item c)) items c"

section \<open>One setting\<close>

definition arg_net :: "string \<Rightarrow> string \<Rightarrow> NtpConfig \<Rightarrow> (bool \<times> NtpConfig) option" where
  "arg_net lower_key value c =
    (if lower_key = ''listen_address'' \<or> lower_key = ''bind_address'' then
       Some (True, c\<lparr>listen_address := value\<rparr>)
     else if lower_key = ''listen_port'' \<or> lower_key = ''port'' then
       Some (with_int value (\<lambda>i. c\<lparr>listen_port := word_of_int i\<rparr>) c)
     else if lower_key = ''enable_ipv6'' \<or> lower_key = ''ipv6'' then
       Some (True, c\<lparr>enable_ipv6 := config_bool value\<rparr>)
     else if lower_key = ''max_connections'' \<or> lower_key = ''max_conn'' then
       Some (with_int value (\<lambda>i. c\<lparr>max_connections := i\<rparr>) c)
     else if lower_key = ''stratum'' then
       Some (with_int value (\<lambda>i. if 0 \<le> i \<and> i \<le> 15 then c\<lparr>cfg_stratum := word_of_int i\<rparr> else c) c)
     else if lower_key = ''reference_clock'' \<or> lower_key = ''ref_clock'' then
       Some (True, c\<lparr>reference_clock := value\<rparr>)
     else if lower_key = ''reference_id'' \<or> lower_key = ''ref_id'' then
       Some (True, c\<lparr>cfg_reference_id := value\<rparr>)
     else if lower_key = ''upstream_servers'' \<or> lower_key = ''servers'' then
       Some (True, c\<lparr>upstream_servers := comma_list value\<rparr>)
     else if lower_key = ''sync_interval'' then
       Some (with_int value (\<lambda>i. c\<lparr>sync_interval := i\<rparr>) c)
     else if lower_key = ''timeout'' then
       Some (with_int value (\<lambda>i. c\<lparr>timeout := i\<rparr>) c)
     else None)"

definition arg_logging :: "string \<Rightarrow> string \<Rightarrow> NtpConfig \<Rightarrow> (bool \<times> NtpConfig) option" where
  "arg_logging lower_key value c =
    (if lower_key = ''log_level'' \<or> lower_key = ''loglevel'' then
       Some (with_int value (\<lambda>i. if 0 \<le> i \<and> i \<le> 4 then c\<lparr>log_level := i\<rparr> else c) c)
     else if lower_key = ''log_file'' \<or> lower_key = ''logfile'' then
       Some (True, c\<lparr>log_file := value\<rparr>)
     else if lower_key = ''enable_console_logging'' \<or> lower_key = ''console_log'' then
       Some (True, c\<lparr>enable_console_logging := config_bool value\<rparr>)
     else if lower_key = ''enable_syslog'' \<or> lower_key = ''syslog'' then
       Some (True, c\<lparr>enable_syslog := config_bool value\<rparr>)
     else if lower_key = ''log_json'' \<or> lower_key = ''json_logs'' then
       Some (True, c\<lparr>log_json := config_bool value\<rparr>)
     else if lower_key = ''log_max_size_bytes'' \<or> lower_key = ''log_max_size'' then
       Some (with_ul value (\<lambda>w. c\<lparr>log_max_size_bytes := w\<rparr>) c)
     else if lower_key = ''log_max_files'' then
       Some (with_ul value (\<lambda>w. c\<lparr>log_max_files := ucast w\<rparr>) c)
     else None)"

definition arg_security :: "string \<Rightarrow> string \<Rightarrow> NtpConfig \<Rightarrow> (bool \<times> NtpConfig) option" where
  "arg_security lower_key value c =
    (if lower_key = ''enable_authentication'' \<or> lower_key = ''auth'' then
       Some (True, c\<lparr>enable_authentication := config_bool value\<rparr>)
     else if lower_key = ''authentication_key'' \<or> lower_key = ''auth_key'' then
       Some (True, c\<lparr>authentication_key := value\<rparr>)
     else if lower_key = ''authentication_algorithm'' \<or> lower_key = ''auth_algorithm'' then
       Some (True, c\<lparr>authentication_algorithm := algorithm_named (lower value)\<rparr>)
     else if lower_key = ''authentication_keys'' \<or> lower_key = ''auth_keys'' then
       Some (True, authentication_keys_from (comma_list value) (c\<lparr>authentication_keys := []\<rparr>))
     else if lower_key = ''restrict_queries'' \<or> lower_key = ''restrict'' then
       Some (True, c\<lparr>restrict_queries := config_bool value\<rparr>)
     else if lower_key = ''enable_acl'' \<or> lower_key = ''acl'' then
       Some (True, c\<lparr>enable_acl := config_bool value\<rparr>)
     else if lower_key = ''allowed_clients'' \<or> lower_key = ''allow'' then
       Some (True, c\<lparr>allowed_clients := comma_list value\<rparr>)
     else if lower_key = ''denied_clients'' \<or> lower_key = ''deny'' then
       Some (True, c\<lparr>denied_clients := comma_list value\<rparr>)
     else if lower_key = ''enable_rate_limiting'' \<or> lower_key = ''rate_limit'' then
       Some (True, c\<lparr>enable_rate_limiting := config_bool value\<rparr>)
     else if lower_key = ''connection_rate_limit_per_minute'' \<or> lower_key = ''conn_rate_limit'' then
       Some (with_ul value (\<lambda>w. c\<lparr>connection_rate_limit_per_minute := ucast w\<rparr>) c)
     else if lower_key = ''request_rate_limit_per_minute'' \<or> lower_key = ''req_rate_limit'' then
       Some (with_ul value (\<lambda>w. c\<lparr>request_rate_limit_per_minute := ucast w\<rparr>) c)
     else if lower_key = ''enable_ddos_protection'' \<or> lower_key = ''ddos_protection'' then
       Some (True, c\<lparr>enable_ddos_protection := config_bool value\<rparr>)
     else if lower_key = ''ddos_anomaly_threshold_per_second'' \<or> lower_key = ''ddos_threshold'' then
       Some (with_ul value (\<lambda>w. c\<lparr>ddos_anomaly_threshold_per_second := ucast w\<rparr>) c)
     else None)"

definition arg_channels :: "string \<Rightarrow> string \<Rightarrow> NtpConfig \<Rightarrow> (bool \<times> NtpConfig) option" where
  "arg_channels lower_key value c =
    (if lower_key = ''enable_tls'' \<or> lower_key = ''tls'' then
       Some (True, c\<lparr>enable_tls := config_bool value\<rparr>)
     else if lower_key = ''enable_encrypted_channels'' \<or> lower_key = ''encrypted_channels'' then
       Some (True, c\<lparr>enable_encrypted_channels := config_bool value\<rparr>)
     else if lower_key = ''enable_certificate_validation'' \<or> lower_key = ''cert_validation'' then
       Some (True, c\<lparr>enable_certificate_validation := config_bool value\<rparr>)
     else if lower_key = ''enable_certificate_authentication'' \<or> lower_key = ''cert_auth'' then
       Some (True, c\<lparr>enable_certificate_authentication := config_bool value\<rparr>)
     else if lower_key = ''tls_cert_file'' then
       Some (True, c\<lparr>tls_cert_file := value\<rparr>)
     else if lower_key = ''tls_key_file'' then
       Some (True, c\<lparr>tls_key_file := value\<rparr>)
     else if lower_key = ''tls_ca_file'' then
       Some (True, c\<lparr>tls_ca_file := value\<rparr>)
     else if lower_key = ''worker_threads'' \<or> lower_key = ''threads'' then
       Some (with_ul value (\<lambda>w. if 1 \<le> w \<and> w \<le> 64 then c\<lparr>worker_threads := w\<rparr> else c) c)
     else if lower_key = ''max_packet_size'' \<or> lower_key = ''packet_size'' then
       Some (with_ul value (\<lambda>w. if 48 \<le> w \<and> w \<le> 8192 then c\<lparr>max_packet_size := w\<rparr> else c) c)
     else if lower_key = ''enable_statistics'' \<or> lower_key = ''stats'' then
       Some (True, c\<lparr>enable_statistics := config_bool value\<rparr>)
     else if lower_key = ''stats_interval'' then
       Some (with_int value (\<lambda>i. c\<lparr>stats_interval := i\<rparr>) c)
     else if lower_key = ''drift_file'' \<or> lower_key = ''drift'' then
       Some (True, c\<lparr>drift_file := value\<rparr>)
     else if lower_key = ''enable_drift_compensation'' \<or> lower_key = ''drift_comp'' then
       Some (True, c\<lparr>enable_drift_compensation := config_bool value\<rparr>)
     else if lower_key = ''leap_second_file'' \<or> lower_key = ''leap_seconds'' then
       Some (True, c\<lparr>leap_second_file := value\<rparr>)
     else if lower_key = ''enable_leap_second_handling'' \<or> lower_key = ''leap_handling'' then
       Some (True, c\<lparr>enable_leap_second_handling := config_bool value\<rparr>)
     else None)"

definition arg_resilience :: "string \<Rightarrow> string \<Rightarrow> NtpConfig \<Rightarrow> (bool \<times> NtpConfig) option" where
  "arg_resilience lower_key value c =
    (if lower_key = ''enable_automatic_failover'' \<or> lower_key = ''auto_failover'' then
       Some (True, c\<lparr>enable_automatic_failover := config_bool value\<rparr>)
     else if lower_key = ''enable_self_healing'' \<or> lower_key = ''self_healing'' then
       Some (True, c\<lparr>enable_self_healing := config_bool value\<rparr>)
     else if lower_key = ''enable_graceful_degradation'' \<or> lower_key = ''graceful_degradation'' then
       Some (True, c\<lparr>enable_graceful_degradation := config_bool value\<rparr>)
     else if lower_key = ''degradation_mode'' then
       Some (True, c\<lparr>degradation_mode := degradation_named (lower value)\<rparr>)
     else if lower_key = ''enable_state_persistence'' \<or> lower_key = ''state_persistence'' then
       Some (True, c\<lparr>enable_state_persistence := config_bool value\<rparr>)
     else if lower_key = ''state_file'' then
       Some (True, c\<lparr>state_file := value\<rparr>)
     else if lower_key = ''backup_config_file'' then
       Some (True, c\<lparr>backup_config_file := value\<rparr>)
     else if lower_key = ''service_restart_limit'' then
       Some (with_ul value (\<lambda>w. c\<lparr>service_restart_limit := ucast w\<rparr>) c)
     else if lower_key = ''upstream_selection_algorithm'' \<or> lower_key = ''upstream_algorithm'' then
       Some (True, c\<lparr>upstream_selection_algorithm := selection_named (lower value)\<rparr>)
     else if lower_key = ''enable_upstream_load_balancing'' \<or> lower_key = ''upstream_load_balancing'' then
       Some (True, c\<lparr>enable_upstream_load_balancing := config_bool value\<rparr>)
     else if lower_key = ''enable_upstream_failover'' \<or> lower_key = ''upstream_failover'' then
       Some (True, c\<lparr>enable_upstream_failover := config_bool value\<rparr>)
     else if lower_key = ''enable_dynamic_stratum_adjustment'' \<or> lower_key = ''dynamic_stratum'' then
       Some (True, c\<lparr>enable_dynamic_stratum_adjustment := config_bool value\<rparr>)
     else if lower_key = ''enable_reference_clock_support'' \<or> lower_key = ''reference_clock_support'' then
       Some (True, c\<lparr>enable_reference_clock_support := config_bool value\<rparr>)
     else if lower_key = ''reference_clock_source'' then
       Some (True, c\<lparr>reference_clock_source := value\<rparr>)
     else None)"

definition or_else :: "'a option \<Rightarrow> 'a option \<Rightarrow> 'a option" where
  "or_else a b = (case a of None \<Rightarrow> b | Some x \<Rightarrow> Some x)"

definition parseCommandLineArg :: "string \<Rightarrow> string \<Rightarrow> NtpConfig \<Rightarrow> bool \<times> NtpConfig" where
  "parseCommandLineArg key value c =
     (let lower_key = lower key
      in case or_else (arg_net lower_key value c)
           (or_else (arg_logging lower_key value c)
           (or_else (arg_security lower_key value c)
           (or_else (arg_channels lower_key value c)
                    (arg_resilience lower_key value c)))) of
           None \<Rightarrow> (True, c)
         | Some r \<Rightarrow> r)"

section \<open>The command line\<close>

definition command_line_arg :: "string \<Rightarrow> NtpConfig \<Rightarrow> NtpConfig" where
  "command_line_arg arg c =
     (if substr arg 0 2 = ''--'' then
        (case find_char CHR ''='' arg of
           None \<Rightarrow> c
         | Some pos \<Rightarrow>
             snd (parseCommandLineArg (substr arg 2 (pos - 2)) (substr_from arg (pos + 1)) c))
      else c)"

section \<open>The configuration file\<close>

definition unquote :: "string \<Rightarrow> string" where
  "unquote value =
     (if 2 \<le> length value \<and> hd value = CHR 0x22 \<and> last value = CHR 0x22
      then substr value 1 (length value - 2) else value)"

definition config_line :: "string \<Rightarrow> NtpConfig \<Rightarrow> NtpConfig" where
  "config_line line c =
     (if line = [] \<or> hd line = CHR ''#'' \<or> hd line = CHR '';'' then c
      else
        (let line = trim_chars blanks line
         in if line \<noteq> [] \<and> hd line = CHR ''['' \<and> last line = CHR '']'' then c
            else (case find_char CHR ''='' line of
                    None \<Rightarrow> c
                  | Some pos \<Rightarrow>
                      (let key = substr line 0 pos; value = substr_from line (pos + 1);
                           value = unquote value
                       in snd (parseCommandLineArg key value c)))))"

definition parseConfigFile ::
    "(string \<Rightarrow> string option) \<Rightarrow> string \<Rightarrow> NtpConfig \<Rightarrow> bool \<times> NtpConfig" where
  "parseConfigFile files config_file c =
     (case files config_file of
        None \<Rightarrow> (False, c)
      | Some content \<Rightarrow> (True, fold config_line (getlines CHR 0x0A content) c))"

section \<open>The environment\<close>

definition apply_bool :: "(string \<Rightarrow> string option) \<Rightarrow> string \<Rightarrow> (bool \<Rightarrow> 'a \<Rightarrow> 'a) \<Rightarrow> 'a \<Rightarrow> 'a" where
  "apply_bool env name dst c =
     (case env name of
        None \<Rightarrow> c
      | Some v \<Rightarrow>
          (let s = lower v in dst (s = ''1'' \<or> s = ''true'' \<or> s = ''yes'' \<or> s = ''on'') c))"

text \<open>
  \<open>apply_int\<close> chooses the conversion by the type of the setting: \<open>stoull\<close> for the unsigned
  ones, \<open>stoi\<close> for the enums, \<open>stoll\<close> for the others and for the durations.
\<close>

definition apply_unsigned ::
    "(string \<Rightarrow> string option) \<Rightarrow> string \<Rightarrow> (u64 \<Rightarrow> 'a \<Rightarrow> 'a) \<Rightarrow> 'a \<Rightarrow> 'a" where
  "apply_unsigned env name dst c =
     (case env name of
        None \<Rightarrow> c
      | Some v \<Rightarrow> (case stoull v of Inl _ \<Rightarrow> c | Inr w \<Rightarrow> dst w c))"

definition apply_enum ::
    "(string \<Rightarrow> string option) \<Rightarrow> string \<Rightarrow> (int \<Rightarrow> 'a \<Rightarrow> 'a) \<Rightarrow> 'a \<Rightarrow> 'a" where
  "apply_enum env name dst c =
     (case env name of
        None \<Rightarrow> c
      | Some v \<Rightarrow> (case stoi v of Inl _ \<Rightarrow> c | Inr i \<Rightarrow> dst i c))"

definition apply_signed ::
    "(string \<Rightarrow> string option) \<Rightarrow> string \<Rightarrow> (int \<Rightarrow> 'a \<Rightarrow> 'a) \<Rightarrow> 'a \<Rightarrow> 'a" where
  "apply_signed env name dst c =
     (case env name of
        None \<Rightarrow> c
      | Some v \<Rightarrow> (case stoll v of Inl _ \<Rightarrow> c | Inr i \<Rightarrow> dst i c))"

definition apply_string ::
    "(string \<Rightarrow> string option) \<Rightarrow> string \<Rightarrow> (string \<Rightarrow> 'a \<Rightarrow> 'a) \<Rightarrow> 'a \<Rightarrow> 'a" where
  "apply_string env name dst c = (case env name of None \<Rightarrow> c | Some v \<Rightarrow> dst v c)"

definition env_network :: "(string \<Rightarrow> string option) \<Rightarrow> (NtpConfig \<Rightarrow> NtpConfig) list" where
  "env_network env = [
     apply_string env ''SIMPLE_NTPD_LISTEN_ADDRESS'' (\<lambda>v. listen_address_update (\<lambda>_. v)),
     apply_unsigned env ''SIMPLE_NTPD_LISTEN_PORT'' (\<lambda>v. listen_port_update (\<lambda>_. ucast v)),
     apply_signed env ''SIMPLE_NTPD_MAX_CONNECTIONS'' (\<lambda>v. max_connections_update (\<lambda>_. signed_take_bit 31 v)),
     apply_unsigned env ''SIMPLE_NTPD_WORKER_THREADS'' (\<lambda>v. worker_threads_update (\<lambda>_. v)),
     apply_unsigned env ''SIMPLE_NTPD_MAX_PACKET_SIZE'' (\<lambda>v. max_packet_size_update (\<lambda>_. v)),
     apply_string env ''SIMPLE_NTPD_REFERENCE_ID'' (\<lambda>v. cfg_reference_id_update (\<lambda>_. v)),
     apply_string env ''SIMPLE_NTPD_REFERENCE_CLOCK'' (\<lambda>v. reference_clock_update (\<lambda>_. v)),
     apply_bool env ''SIMPLE_NTPD_ENABLE_STATISTICS'' (\<lambda>v. enable_statistics_update (\<lambda>_. v)),
     apply_signed env ''SIMPLE_NTPD_STATS_INTERVAL_SEC'' (\<lambda>v. stats_interval_update (\<lambda>_. v)),
     apply_signed env ''SIMPLE_NTPD_SYNC_INTERVAL_SEC'' (\<lambda>v. sync_interval_update (\<lambda>_. v)),
     apply_signed env ''SIMPLE_NTPD_TIMEOUT_MS'' (\<lambda>v. timeout_update (\<lambda>_. v))]"

definition env_logging_security :: "(string \<Rightarrow> string option) \<Rightarrow> (NtpConfig \<Rightarrow> NtpConfig) list" where
  "env_logging_security env = [
     apply_string env ''SIMPLE_NTPD_LOG_FILE'' (\<lambda>v. log_file_update (\<lambda>_. v)),
     apply_enum env ''SIMPLE_NTPD_LOG_LEVEL'' (\<lambda>v. log_level_update (\<lambda>_. v)),
     apply_bool env ''SIMPLE_NTPD_LOG_JSON'' (\<lambda>v. log_json_update (\<lambda>_. v)),
     apply_unsigned env ''SIMPLE_NTPD_LOG_MAX_SIZE_BYTES'' (\<lambda>v. log_max_size_bytes_update (\<lambda>_. v)),
     apply_unsigned env ''SIMPLE_NTPD_LOG_MAX_FILES'' (\<lambda>v. log_max_files_update (\<lambda>_. ucast v)),
     apply_bool env ''SIMPLE_NTPD_ENABLE_SYSLOG'' (\<lambda>v. enable_syslog_update (\<lambda>_. v)),
     apply_bool env ''SIMPLE_NTPD_ENABLE_CONSOLE_LOGGING'' (\<lambda>v. enable_console_logging_update (\<lambda>_. v)),
     apply_bool env ''SIMPLE_NTPD_ENABLE_AUTHENTICATION'' (\<lambda>v. enable_authentication_update (\<lambda>_. v)),
     apply_string env ''SIMPLE_NTPD_AUTH_KEY'' (\<lambda>v. authentication_key_update (\<lambda>_. v)),
     apply_enum env ''SIMPLE_NTPD_AUTH_ALGORITHM'' (\<lambda>v. authentication_algorithm_update (\<lambda>_. v)),
     apply_bool env ''SIMPLE_NTPD_ENABLE_ACL'' (\<lambda>v. enable_acl_update (\<lambda>_. v)),
     apply_bool env ''SIMPLE_NTPD_RESTRICT_QUERIES'' (\<lambda>v. restrict_queries_update (\<lambda>_. v)),
     apply_bool env ''SIMPLE_NTPD_ENABLE_RATE_LIMITING'' (\<lambda>v. enable_rate_limiting_update (\<lambda>_. v)),
     apply_unsigned env ''SIMPLE_NTPD_CONN_RATE_LIMIT_PER_MIN'' (\<lambda>v. connection_rate_limit_per_minute_update (\<lambda>_. ucast v)),
     apply_unsigned env ''SIMPLE_NTPD_REQ_RATE_LIMIT_PER_MIN'' (\<lambda>v. request_rate_limit_per_minute_update (\<lambda>_. ucast v)),
     apply_bool env ''SIMPLE_NTPD_ENABLE_DDOS_PROTECTION'' (\<lambda>v. enable_ddos_protection_update (\<lambda>_. v)),
     apply_unsigned env ''SIMPLE_NTPD_DDOS_THRESHOLD_PER_SEC'' (\<lambda>v. ddos_anomaly_threshold_per_second_update (\<lambda>_. ucast v)),
     apply_bool env ''SIMPLE_NTPD_ENABLE_TLS'' (\<lambda>v. enable_tls_update (\<lambda>_. v)),
     apply_bool env ''SIMPLE_NTPD_ENABLE_ENCRYPTED_CHANNELS'' (\<lambda>v. enable_encrypted_channels_update (\<lambda>_. v)),
     apply_bool env ''SIMPLE_NTPD_ENABLE_CERT_VALIDATION'' (\<lambda>v. enable_certificate_validation_update (\<lambda>_. v)),
     apply_bool env ''SIMPLE_NTPD_ENABLE_CERT_AUTH'' (\<lambda>v. enable_certificate_authentication_update (\<lambda>_. v)),
     apply_string env ''SIMPLE_NTPD_TLS_CERT_FILE'' (\<lambda>v. tls_cert_file_update (\<lambda>_. v)),
     apply_string env ''SIMPLE_NTPD_TLS_KEY_FILE'' (\<lambda>v. tls_key_file_update (\<lambda>_. v)),
     apply_string env ''SIMPLE_NTPD_TLS_CA_FILE'' (\<lambda>v. tls_ca_file_update (\<lambda>_. v))]"

definition env_resilience :: "(string \<Rightarrow> string option) \<Rightarrow> (NtpConfig \<Rightarrow> NtpConfig) list" where
  "env_resilience env = [
     apply_bool env ''SIMPLE_NTPD_ENABLE_LEAP_SECOND_HANDLING'' (\<lambda>v. enable_leap_second_handling_update (\<lambda>_. v)),
     apply_string env ''SIMPLE_NTPD_LEAP_SECOND_FILE'' (\<lambda>v. leap_second_file_update (\<lambda>_. v)),
     apply_bool env ''SIMPLE_NTPD_ENABLE_AUTO_FAILOVER'' (\<lambda>v. enable_automatic_failover_update (\<lambda>_. v)),
     apply_bool env ''SIMPLE_NTPD_ENABLE_SELF_HEALING'' (\<lambda>v. enable_self_healing_update (\<lambda>_. v)),
     apply_bool env ''SIMPLE_NTPD_ENABLE_GRACEFUL_DEGRADATION'' (\<lambda>v. enable_graceful_degradation_update (\<lambda>_. v)),
     apply_enum env ''SIMPLE_NTPD_DEGRADATION_MODE'' (\<lambda>v. degradation_mode_update (\<lambda>_. v)),
     apply_bool env ''SIMPLE_NTPD_ENABLE_STATE_PERSISTENCE'' (\<lambda>v. enable_state_persistence_update (\<lambda>_. v)),
     apply_string env ''SIMPLE_NTPD_STATE_FILE'' (\<lambda>v. state_file_update (\<lambda>_. v)),
     apply_string env ''SIMPLE_NTPD_BACKUP_CONFIG_FILE'' (\<lambda>v. backup_config_file_update (\<lambda>_. v)),
     apply_unsigned env ''SIMPLE_NTPD_SERVICE_RESTART_LIMIT'' (\<lambda>v. service_restart_limit_update (\<lambda>_. ucast v)),
     apply_enum env ''SIMPLE_NTPD_UPSTREAM_SELECTION_ALGORITHM'' (\<lambda>v. upstream_selection_algorithm_update (\<lambda>_. v)),
     apply_bool env ''SIMPLE_NTPD_ENABLE_UPSTREAM_LOAD_BALANCING'' (\<lambda>v. enable_upstream_load_balancing_update (\<lambda>_. v)),
     apply_bool env ''SIMPLE_NTPD_ENABLE_UPSTREAM_FAILOVER'' (\<lambda>v. enable_upstream_failover_update (\<lambda>_. v)),
     apply_bool env ''SIMPLE_NTPD_ENABLE_DYNAMIC_STRATUM'' (\<lambda>v. enable_dynamic_stratum_adjustment_update (\<lambda>_. v)),
     apply_bool env ''SIMPLE_NTPD_ENABLE_REFERENCE_CLOCK_SUPPORT'' (\<lambda>v. enable_reference_clock_support_update (\<lambda>_. v)),
     apply_string env ''SIMPLE_NTPD_REFERENCE_CLOCK_SOURCE'' (\<lambda>v. reference_clock_source_update (\<lambda>_. v))]"

definition applyEnvironmentOverrides :: "(string \<Rightarrow> string option) \<Rightarrow> NtpConfig \<Rightarrow> NtpConfig" where
  "applyEnvironmentOverrides env c =
     fold (\<lambda>f. f) (env_network env @ env_logging_security env @ env_resilience env) c"

section \<open>Loading\<close>

definition loadFromFile ::
    "(string \<Rightarrow> string option) \<Rightarrow> (string \<Rightarrow> string option) \<Rightarrow> string \<Rightarrow> NtpConfig \<Rightarrow> bool \<times> NtpConfig"
where
  "loadFromFile files env config_file c =
     (let (ok, c) = parseConfigFile files config_file c
      in if ok then (True, applyEnvironmentOverrides env (c\<lparr>last_config_file := config_file\<rparr>))
         else (False, c))"

definition loadFromCommandLine ::
    "(string \<Rightarrow> string option) \<Rightarrow> string list \<Rightarrow> NtpConfig \<Rightarrow> bool \<times> NtpConfig" where
  "loadFromCommandLine env args c =
     (True, applyEnvironmentOverrides env (fold command_line_arg args c))"

section \<open>What a setting can do\<close>

lemmas setting_groups = arg_net_def arg_logging_def arg_security_def arg_channels_def
  arg_resilience_def

lemmas number_settings = with_int_def with_ul_def

text \<open>The bounds every value read from the command line or from a file is held to.\<close>

definition parsed_ok :: "NtpConfig \<Rightarrow> bool" where
  "parsed_ok c \<longleftrightarrow>
     worker_threads c \<in> {1..64} \<and> max_packet_size c \<in> {48..8192} \<and> cfg_stratum c \<le> 15
   \<and> log_level c \<in> {0..4} \<and> authentication_algorithm c \<in> {0..3}
   \<and> upstream_selection_algorithm c \<in> {0..2} \<and> degradation_mode c \<in> {0..2}
   \<and> in_i32 (max_connections c)
   \<and> distinct (map fst (authentication_keys c)) \<and> [] \<notin> snd ` set (authentication_keys c)
   \<and> [] \<notin> set (upstream_servers c) \<and> [] \<notin> set (allowed_clients c)
   \<and> [] \<notin> set (denied_clients c)"

lemma setDefaults_parsed_ok: "parsed_ok setDefaults"
  by (simp add: parsed_ok_def setDefaults_def in_i32_def)

lemma comma_list_nonempty [simp]: "[] \<notin> set (comma_list value)"
  by (simp add: comma_list_def)

lemma named_ranges [simp]:
  "0 \<le> algorithm_named s" "algorithm_named s \<le> 3"
  "0 \<le> selection_named s" "selection_named s \<le> 2"
  "0 \<le> degradation_named s" "degradation_named s \<le> 2"
  by (simp_all add: algorithm_named_def selection_named_def degradation_named_def)

text \<open>A property of the result of a group, branch by branch of its chain of conditions.\<close>

named_theorems chain_intros \<open>walk through the branches of a group\<close>

lemma pred_option_if [chain_intros]:
  "pred_option P a \<Longrightarrow> pred_option P b \<Longrightarrow> pred_option P (if q then a else b)"
  by simp

lemma pred_option_branches [chain_intros]:
  "P x \<Longrightarrow> pred_option P (Some x)"
  "pred_option P None"
  by simp_all

lemma parsed_ok_branches [chain_intros]:
  "parsed_ok c' \<Longrightarrow> parsed_ok (snd (b, c'))"
  "parsed_ok c \<Longrightarrow> (\<And>i. in_i32 i \<Longrightarrow> parsed_ok (f i)) \<Longrightarrow> parsed_ok (snd (with_int v f c))"
  "parsed_ok c \<Longrightarrow> (\<And>w. parsed_ok (g w)) \<Longrightarrow> parsed_ok (snd (with_ul v g c))"
  by (simp_all add: with_int_def with_ul_def stoi_range split: sum.split)

lemma small_stratum: "0 \<le> i \<Longrightarrow> i \<le> 15 \<Longrightarrow> word_of_int i \<le> (15 :: u8)"
  by (simp add: word_le_def uint_word_of_int)

lemma update_values: "snd ` set (AList.update k v xs) \<subseteq> insert v (snd ` set xs)"
  by (induction xs) auto

lemma key_spec_parsed_ok:
  assumes "parsed_ok c"
  shows "parsed_ok (snd (parseAuthenticationKeySpec spec c))"
proof -
  have "parsed_ok (c\<lparr>authentication_keys := AList.update k v (authentication_keys c)\<rparr>)"
    if "v \<noteq> []" for k v
    using assms that update_values [of k v "authentication_keys c"]
    by (auto simp: parsed_ok_def distinct_update)
  with assms show ?thesis
    by (simp add: parseAuthenticationKeySpec_def Let_def split: option.split sum.split)
qed

lemma keys_parsed_ok: "parsed_ok c \<Longrightarrow> parsed_ok (authentication_keys_from items c)"
  unfolding authentication_keys_from_def
  by (induction items arbitrary: c) (simp_all add: key_spec_parsed_ok)

lemma no_keys_parsed_ok: "parsed_ok c \<Longrightarrow> parsed_ok (c\<lparr>authentication_keys := []\<rparr>)"
  by (simp add: parsed_ok_def)

lemma groups_parsed_ok:
  assumes "parsed_ok c"
  shows "pred_option (\<lambda>r. parsed_ok (snd r)) (arg_net k v c)"
    and "pred_option (\<lambda>r. parsed_ok (snd r)) (arg_logging k v c)"
    and "pred_option (\<lambda>r. parsed_ok (snd r)) (arg_security k v c)"
    and "pred_option (\<lambda>r. parsed_ok (snd r)) (arg_channels k v c)"
    and "pred_option (\<lambda>r. parsed_ok (snd r)) (arg_resilience k v c)"
  unfolding setting_groups
  by (intro chain_intros keys_parsed_ok no_keys_parsed_ok assms;
      use assms in \<open>simp add: parsed_ok_def small_stratum\<close>)+

lemma or_else_pred: "pred_option P a \<Longrightarrow> pred_option P b \<Longrightarrow> pred_option P (or_else a b)"
  by (cases a) (simp_all add: or_else_def)

lemma parseCommandLineArg_pred:
  assumes "P (True, c)"
    and "pred_option P (arg_net (lower key) value c)"
    and "pred_option P (arg_logging (lower key) value c)"
    and "pred_option P (arg_security (lower key) value c)"
    and "pred_option P (arg_channels (lower key) value c)"
    and "pred_option P (arg_resilience (lower key) value c)"
  shows "P (parseCommandLineArg key value c)"
proof -
  have "case r of None \<Rightarrow> P (True, c) | Some x \<Rightarrow> P x" if "pred_option P r" for r
    using that assms(1) by (cases r) simp_all
  from this [OF or_else_pred [OF assms(2) or_else_pred [OF assms(3) or_else_pred [OF assms(4)
      or_else_pred [OF assms(5) assms(6)]]]]]
  show ?thesis
    by (simp add: parseCommandLineArg_def split: option.splits)
qed

lemma setting_parsed_ok:
  assumes "parsed_ok c"
  shows "parsed_ok (snd (parseCommandLineArg key value c))"
  by (rule parseCommandLineArg_pred) (simp_all add: groups_parsed_ok assms)

lemma command_line_arg_parsed_ok: "parsed_ok c \<Longrightarrow> parsed_ok (command_line_arg arg c)"
  by (simp add: command_line_arg_def setting_parsed_ok split: option.split)

lemma config_line_parsed_ok: "parsed_ok c \<Longrightarrow> parsed_ok (config_line line c)"
  by (simp add: config_line_def Let_def setting_parsed_ok split: option.split)

lemma fold_invariant: "(\<And>x c. P c \<Longrightarrow> P (f x c)) \<Longrightarrow> P c \<Longrightarrow> P (fold f xs c)"
  by (induction xs arbitrary: c) simp_all

lemma parseConfigFile_parsed_ok:
  "parsed_ok c \<Longrightarrow> parsed_ok (snd (parseConfigFile files name c))"
  by (auto simp: parseConfigFile_def intro: fold_invariant config_line_parsed_ok
      split: option.split)

section \<open>Failed and unknown settings\<close>

text \<open>A failing call has changed nothing.\<close>

lemma failure_branches [chain_intros]:
  "fst (True, c') \<or> snd (True, c') = c"
  "fst (with_int v f c) \<or> snd (with_int v f c) = c"
  "fst (with_ul v g c) \<or> snd (with_ul v g c) = c"
  by (simp_all add: with_int_def with_ul_def split: sum.split)

lemma setting_failure:
  "fst (parseCommandLineArg key value c) \<or> snd (parseCommandLineArg key value c) = c"
  by (rule parseCommandLineArg_pred; (unfold setting_groups)?; intro chain_intros)

text \<open>No key ends with a blank.\<close>

lemma if_eq_None: "\<not> q \<Longrightarrow> b = None \<Longrightarrow> (if q then a else b) = None"
  by simp

lemma groups_blank:
  assumes "last k = CHR '' ''"
  shows "arg_net k v c = None" "arg_logging k v c = None" "arg_security k v c = None"
    "arg_channels k v c = None" "arg_resilience k v c = None"
  unfolding setting_groups
  by (intro if_eq_None refl; use assms in auto)+

lemma setting_blank:
  assumes "key \<noteq> []" "last key = CHR '' ''"
  shows "parseCommandLineArg key value c = (True, c)"
proof -
  have "last (lower key) = CHR '' ''"
    using assms by (simp add: lower_def last_map tolower_def)
  then show ?thesis
    by (simp add: parseCommandLineArg_def groups_blank or_else_def)
qed

section \<open>Settings read back\<close>

definition plain_item :: "string \<Rightarrow> bool" where
  "plain_item s \<longleftrightarrow> s \<noteq> [] \<and> CHR '','' \<notin> set s \<and> hd s \<notin> blanks \<and> last s \<notin> blanks"

lemma comma_list_join:
  assumes "\<forall>s \<in> set xs. plain_item s"
  shows "comma_list (join_with CHR '','' xs) = xs"
proof -
  have "getlines CHR '','' (join_with CHR '','' xs) = xs"
    using assms by (intro getlines_join_with) (auto simp: plain_item_def)
  moreover have "map (trim_chars blanks) xs = xs"
    using assms by (intro map_idI) (auto simp: plain_item_def trim_chars_id)
  moreover have "filter (\<lambda>s. s \<noteq> []) xs = xs"
    using assms by (auto simp: plain_item_def filter_id_conv)
  ultimately show ?thesis by (simp add: comma_list_def)
qed

lemma lower_literals [simp]:
  "lower ''listen_port'' = ''listen_port''"
  "lower ''max_connections'' = ''max_connections''"
  "lower ''worker_threads'' = ''worker_threads''"
  "lower ''upstream_servers'' = ''upstream_servers''"
  "lower ''allowed_clients'' = ''allowed_clients''"
  "lower ''denied_clients'' = ''denied_clients''"
  by (simp_all add: lower_def tolower_def)

lemmas parse_literal = parseCommandLineArg_def setting_groups or_else_def Let_def

lemma parse_listen_port:
  "parseCommandLineArg ''listen_port'' (to_string (uint p)) c = (True, c\<lparr>listen_port := p\<rparr>)"
proof -
  have "0 \<le> uint p" "uint p < 65536" using uint_lt2p [of p] by simp_all
  then have "in_i32 (uint p)" by (intro in_i32I) linarith+
  then show ?thesis by (simp add: parse_literal with_int_def stoi_to_string)
qed

lemma parse_worker_threads:
  "1 \<le> w \<Longrightarrow> w \<le> 64 \<Longrightarrow>
   parseCommandLineArg ''worker_threads'' (to_string_nat (unat w)) c = (True, c\<lparr>worker_threads := w\<rparr>)"
  by (simp add: parse_literal with_ul_def stoull_to_string)

lemma parse_lists:
  "parseCommandLineArg ''upstream_servers'' v c = (True, c\<lparr>upstream_servers := comma_list v\<rparr>)"
  "parseCommandLineArg ''allowed_clients'' v c = (True, c\<lparr>allowed_clients := comma_list v\<rparr>)"
  "parseCommandLineArg ''denied_clients'' v c = (True, c\<lparr>denied_clients := comma_list v\<rparr>)"
  by (simp_all add: parse_literal)

section \<open>The environment\<close>

lemmas env_steps = apply_bool_def apply_unsigned_def apply_enum_def apply_signed_def
  apply_string_def

lemmas env_lists = applyEnvironmentOverrides_def env_network_def env_logging_security_def
  env_resilience_def

lemma no_environment: "applyEnvironmentOverrides (\<lambda>_. None) c = c"
  by (simp add: env_lists env_steps)

text \<open>A step that sets another field leaves a field alone.\<close>

lemma step_other:
  "(\<And>v c. g (db v c) = g c) \<Longrightarrow> g (apply_bool env name db c) = g c"
  "(\<And>v c. g (dw v c) = g c) \<Longrightarrow> g (apply_unsigned env name dw c) = g c"
  "(\<And>v c. g (di v c) = g c) \<Longrightarrow> g (apply_enum env name di c) = g c"
  "(\<And>v c. g (di v c) = g c) \<Longrightarrow> g (apply_signed env name di c) = g c"
  "(\<And>v c. g (ds v c) = g c) \<Longrightarrow> g (apply_string env name ds c) = g c"
  by (simp_all add: env_steps Let_def split: option.split sum.split)

lemmas other_listen_address = step_other [where g = listen_address]
lemmas other_listen_port = step_other [where g = listen_port]
lemmas other_worker_threads = step_other [where g = worker_threads]

lemma env_listen_address: "listen_address (applyEnvironmentOverrides env c) =
    (case env ''SIMPLE_NTPD_LISTEN_ADDRESS'' of None \<Rightarrow> listen_address c | Some v \<Rightarrow> v)"
  by (simp add: env_lists other_listen_address)
     (simp add: apply_string_def split: option.split)

lemma env_listen_port: "listen_port (applyEnvironmentOverrides env c) =
    (case env ''SIMPLE_NTPD_LISTEN_PORT'' of None \<Rightarrow> listen_port c
     | Some v \<Rightarrow> (case stoull v of Inl _ \<Rightarrow> listen_port c | Inr w \<Rightarrow> ucast w))"
  by (simp add: env_lists other_listen_port)
     (simp add: apply_unsigned_def apply_string_def split: option.split sum.split)

lemma env_worker_threads: "worker_threads (applyEnvironmentOverrides env c) =
    (case env ''SIMPLE_NTPD_WORKER_THREADS'' of None \<Rightarrow> worker_threads c
     | Some v \<Rightarrow> (case stoull v of Inl _ \<Rightarrow> worker_threads c | Inr w \<Rightarrow> w))"
  by (simp add: env_lists other_worker_threads)
     (simp add: env_steps split: option.split sum.split)

section \<open>Lines of a file\<close>

definition plain_assignment :: "string \<Rightarrow> string \<Rightarrow> bool" where
  "plain_assignment k v \<longleftrightarrow>
     k \<noteq> [] \<and> hd k \<notin> {CHR ''#'', CHR '';'', CHR ''[''} \<and> hd k \<notin> blanks
   \<and> CHR ''='' \<notin> set k \<and> CHR 0x0A \<notin> set k
   \<and> CHR 0x0A \<notin> set v \<and> (v = [] \<or> last v \<notin> blanks) \<and> unquote v = v"

definition assignment :: "string \<times> string \<Rightarrow> string" where
  "assignment kv = fst kv @ CHR ''='' # snd kv"

lemma equals_not_blank [simp]: "CHR ''='' \<notin> blanks"
  by (simp add: blanks_def)

lemma config_line_assignment:
  assumes "plain_assignment k v"
  shows "config_line (assignment (k, v)) c = snd (parseCommandLineArg k v c)"
proof -
  have "trim_chars blanks (assignment (k, v)) = assignment (k, v)"
    using assms by (intro trim_chars_id) (auto simp: assignment_def plain_assignment_def)
  moreover have "find_char CHR ''='' (assignment (k, v)) = Some (length k)"
    using assms by (simp add: assignment_def plain_assignment_def find_char_sep)
  ultimately show ?thesis
    using assms by (simp add: config_line_def assignment_def plain_assignment_def substr_def
        substr_from_def)
qed

lemma parseConfigFile_assignments:
  assumes "files name = Some (join_with CHR 0x0A (map assignment kvs))"
    and "\<forall>kv \<in> set kvs. plain_assignment (fst kv) (snd kv)"
  shows "parseConfigFile files name c =
    (True, fold (\<lambda>kv c. snd (parseCommandLineArg (fst kv) (snd kv) c)) kvs c)"
proof -
  have "getlines CHR 0x0A (join_with CHR 0x0A (map assignment kvs)) = map assignment kvs"
    using assms(2)
    by (intro getlines_join_with) (fastforce simp: assignment_def plain_assignment_def)
  moreover have "fold config_line (map assignment kvs) c =
      fold (\<lambda>kv c. snd (parseCommandLineArg (fst kv) (snd kv) c)) kvs c"
    using assms(2) config_line_assignment [of "fst kv" "snd kv" for kv]
    by (induction kvs arbitrary: c) simp_all
  ultimately show ?thesis using assms(1) by (simp add: parseConfigFile_def)
qed

text \<open>Trimming stops at a character that is not white space.\<close>

lemma dropWhile_stop: "\<not> P x \<Longrightarrow> dropWhile P (a @ x # b) = dropWhile P a @ x # b"
  by (induction a) auto

lemma trim_chars_around:
  assumes "x \<notin> cs"
  shows "trim_chars cs (a @ x # b) =
    dropWhile (\<lambda>c. c \<in> cs) a @ x # rev (dropWhile (\<lambda>c. c \<in> cs) (rev b))"
  using assms by (simp add: trim_chars_def dropWhile_stop)

lemma dropWhile_snoc_cases:
  "dropWhile P (a @ [x]) = [] \<or> last (dropWhile P (a @ [x])) = x"
  by (induction a) auto

lemma setting_empty: "parseCommandLineArg [] value c = (True, c)"
  by (simp add: parse_literal lower_def)

lemma config_line_spaced:
  assumes "CHR ''='' \<notin> set k"
  shows "config_line (k @ '' = '' @ v) c = c"
proof -
  define k' where "k' = dropWhile (\<lambda>c. c \<in> blanks) (k @ '' '')"
  define v' where "v' = rev (dropWhile (\<lambda>c. c \<in> blanks) (rev (CHR '' '' # v)))"
  have line: "trim_chars blanks (k @ '' = '' @ v) = k' @ CHR ''='' # v'"
    using trim_chars_around [of "CHR ''=''" blanks "k @ '' ''" "CHR '' '' # v"]
    by (simp add: k'_def v'_def)
  have "CHR ''='' \<notin> set k'"
    using assms unfolding k'_def by (auto dest: set_dropWhileD)
  then have pos: "find_char CHR ''='' (k' @ CHR ''='' # v') = Some (length k')"
    by (rule find_char_sep)
  have "k' = [] \<or> last k' = CHR '' ''"
    unfolding k'_def using dropWhile_snoc_cases [of _ k] by simp
  then have key: "parseCommandLineArg k' w c = (True, c)" for w
    using setting_blank setting_empty by metis
  show ?thesis
    unfolding config_line_def line Let_def pos by (simp add: substr_def key)
qed

section \<open>Properties\<close>

text \<open>
  Whatever a configuration file or the command line says, the settings they write stay
  inside the limits their parsers check (thread count, packet size, stratum, log level,
  algorithm and mode numbers), key identifiers stay unique with non-empty keys, and no server
  or client entry is empty.
\<close>

lemma loaded_settings_bounded:
  assumes "parsed_ok c"
  shows "parsed_ok (snd (parseConfigFile files name c)) \<and> parsed_ok (fold command_line_arg args c)"
  using assms by (simp add: parseConfigFile_parsed_ok fold_invariant command_line_arg_parsed_ok)

lemma loaded_settings_bounded_witness:
  "parsed_ok (snd (parseConfigFile (\<lambda>_. Some ''threads=900'') ''ntpd.conf'' setDefaults))
   \<and> parsed_ok (fold command_line_arg [''--stratum=99''] setDefaults)"
  by (rule loaded_settings_bounded) (rule setDefaults_parsed_ok)

text \<open>
  A setting whose value does not convert is reported and leaves the configuration
  unchanged, and keys are matched without regard to case.
\<close>

lemma failed_setting_keeps_config:
  "(fst (parseCommandLineArg key value c) \<or> snd (parseCommandLineArg key value c) = c)
   \<and> parseCommandLineArg (lower key) value c = parseCommandLineArg key value c"
  using setting_failure by (simp add: parseCommandLineArg_def)



end
