(* ===== verification/Parser.thy ===== *)
theory Parser
  imports ConfigArgs
begin

text \<open>
  The configuration parsers of \<open>config/parser.hpp\<close> and \<open>config/parser.cpp\<close>: the shared
  \<open>ConfigParser\<close> base (list, boolean and number conversions, \<open>parseKeyValue\<close>), the line-based
  INI, JSON and YAML parsers, and the factory that picks one by file extension.

  \<^item> \<open>parseKeyValue\<close> is cut into the same five groups of keys as \<open>parseCommandLineArg\<close>.
  \<^item> The locale \<open>line_parser\<close> is what the three parsers have in common; each is an
    interpretation of it with its own way of writing a setting.
\<close>

section \<open>The base class\<close>

definition trim :: "string \<Rightarrow> string" where
  "trim str = trim_chars {CHR '' '', CHR 0x09, CHR 0x0D, CHR 0x0A} str"

definition parseList :: "string \<Rightarrow> string list" where
  "parseList value = filter (\<lambda>item. item \<noteq> []) (map trim (getlines CHR '','' value))"

definition stringToBool :: "string \<Rightarrow> bool" where
  "stringToBool value =
     (let lower_value = lower value
      in lower_value = ''true'' \<or> lower_value = ''1'' \<or> lower_value = ''yes'' \<or>
         lower_value = ''on'' \<or> lower_value = ''enabled'')"

definition stringToInt :: "string \<Rightarrow> int option" where
  "stringToInt value = (case stoi value of Inl _ \<Rightarrow> None | Inr i \<Rightarrow> Some i)"

definition stringToUInt :: "string \<Rightarrow> u32 option" where
  "stringToUInt value = (case stoul value of Inl _ \<Rightarrow> None | Inr w \<Rightarrow> Some (ucast w))"

definition stringToSizeT :: "string \<Rightarrow> u64 option" where
  "stringToSizeT value = (case stoul value of Inl _ \<Rightarrow> None | Inr w \<Rightarrow> Some w)"

text \<open>The branch bodies \<open>T v; if (stringToT(value, v) && ...) { config.field = v; }\<close>.\<close>

definition if_int :: "string \<Rightarrow> (int \<Rightarrow> 'a) \<Rightarrow> 'a \<Rightarrow> bool \<times> 'a" where
  "if_int value f c = (True, case stringToInt value of None \<Rightarrow> c | Some i \<Rightarrow> f i)"

definition if_uint :: "string \<Rightarrow> (u32 \<Rightarrow> 'a) \<Rightarrow> 'a \<Rightarrow> bool \<times> 'a" where
  "if_uint value f c = (True, case stringToUInt value of None \<Rightarrow> c | Some w \<Rightarrow> f w)"

definition if_ul :: "string \<Rightarrow> (u64 \<Rightarrow> 'a) \<Rightarrow> 'a \<Rightarrow> bool \<times> 'a" where
  "if_ul value f c = (True, case stringToSizeT value of None \<Rightarrow> c | Some w \<Rightarrow> f w)"

definition kv_net :: "string \<Rightarrow> string \<Rightarrow> NtpConfig \<Rightarrow> (bool \<times> NtpConfig) option" where
  "kv_net lower_key value c =
    (if lower_key = ''listen_address'' \<or> lower_key = ''bind_address'' then
       Some (True, c\<lparr>listen_address := value\<rparr>)
     else if lower_key = ''listen_port'' \<or> lower_key = ''port'' then
       Some (if_int value (\<lambda>i. c\<lparr>listen_port := word_of_int i\<rparr>) c)
     else if lower_key = ''enable_ipv6'' \<or> lower_key = ''ipv6'' then
       Some (True, c\<lparr>enable_ipv6 := stringToBool value\<rparr>)
     else if lower_key = ''max_connections'' \<or> lower_key = ''max_conn'' then
       Some (if_int value (\<lambda>i. c\<lparr>max_connections := i\<rparr>) c)
     else if lower_key = ''stratum'' then
       Some (if_int value (\<lambda>i. if 0 \<le> i \<and> i \<le> 15 then c\<lparr>cfg_stratum := word_of_int i\<rparr> else c) c)
     else if lower_key = ''reference_clock'' \<or> lower_key = ''ref_clock'' then
       Some (True, c\<lparr>reference_clock := value\<rparr>)
     else if lower_key = ''reference_id'' \<or> lower_key = ''ref_id'' then
       Some (True, c\<lparr>cfg_reference_id := value\<rparr>)
     else if lower_key = ''upstream_servers'' \<or> lower_key = ''servers'' then
       Some (True, c\<lparr>upstream_servers := parseList value\<rparr>)
     else if lower_key = ''sync_interval'' then
       Some (if_int value (\<lambda>i. c\<lparr>sync_interval := i\<rparr>) c)
     else if lower_key = ''timeout'' then
       Some (if_int value (\<lambda>i. c\<lparr>timeout := i\<rparr>) c)
     else None)"

definition kv_logging :: "string \<Rightarrow> string \<Rightarrow> NtpConfig \<Rightarrow> (bool \<times> NtpConfig) option" where
  "kv_logging lower_key value c =
    (if lower_key = ''log_level'' \<or> lower_key = ''loglevel'' then
       Some (if_int value (\<lambda>i. if 0 \<le> i \<and> i \<le> 4 then c\<lparr>log_level := i\<rparr> else c) c)
     else if lower_key = ''log_file'' \<or> lower_key = ''logfile'' then
       Some (True, c\<lparr>log_file := value\<rparr>)
     else if lower_key = ''enable_console_logging'' \<or> lower_key = ''console_log'' then
       Some (True, c\<lparr>enable_console_logging := stringToBool value\<rparr>)
     else if lower_key = ''enable_syslog'' \<or> lower_key = ''syslog'' then
       Some (True, c\<lparr>enable_syslog := stringToBool value\<rparr>)
     else None)"

definition kv_security :: "string \<Rightarrow> string \<Rightarrow> NtpConfig \<Rightarrow> (bool \<times> NtpConfig) option" where
  "kv_security lower_key value c =
    (if lower_key = ''enable_authentication'' \<or> lower_key = ''auth'' then
       Some (True, c\<lparr>enable_authentication := stringToBool value\<rparr>)
     else if lower_key = ''authentication_key'' \<or> lower_key = ''auth_key'' then
       Some (True, c\<lparr>authentication_key := value\<rparr>)
     else if lower_key = ''authentication_algorithm'' \<or> lower_key = ''auth_algorithm'' then
       Some (True, c\<lparr>authentication_algorithm := algorithm_named (lower value)\<rparr>)
     else if lower_key = ''restrict_queries'' \<or> lower_key = ''restrict'' then
       Some (True, c\<lparr>restrict_queries := stringToBool value\<rparr>)
     else if lower_key = ''enable_acl'' \<or> lower_key = ''acl'' then
       Some (True, c\<lparr>enable_acl := stringToBool value\<rparr>)
     else if lower_key = ''allowed_clients'' \<or> lower_key = ''allow'' then
       Some (True, c\<lparr>allowed_clients := parseList value\<rparr>)
     else if lower_key = ''denied_clients'' \<or> lower_key = ''deny'' then
       Some (True, c\<lparr>denied_clients := parseList value\<rparr>)
     else if lower_key = ''enable_rate_limiting'' \<or> lower_key = ''rate_limit'' then
       Some (True, c\<lparr>enable_rate_limiting := stringToBool value\<rparr>)
     else if lower_key = ''connection_rate_limit_per_minute'' \<or> lower_key = ''conn_rate_limit'' then
       Some (if_uint value (\<lambda>w. c\<lparr>connection_rate_limit_per_minute := w\<rparr>) c)
     else if lower_key = ''request_rate_limit_per_minute'' \<or> lower_key = ''req_rate_limit'' then
       Some (if_uint value (\<lambda>w. c\<lparr>request_rate_limit_per_minute := w\<rparr>) c)
     else if lower_key = ''enable_ddos_protection'' \<or> lower_key = ''ddos_protection'' then
       Some (True, c\<lparr>enable_ddos_protection := stringToBool value\<rparr>)
     else if lower_key = ''ddos_anomaly_threshold_per_second'' \<or> lower_key = ''ddos_threshold'' then
       Some (if_uint value (\<lambda>w. c\<lparr>ddos_anomaly_threshold_per_second := w\<rparr>) c)
     else None)"

definition kv_channels :: "string \<Rightarrow> string \<Rightarrow> NtpConfig \<Rightarrow> (bool \<times> NtpConfig) option" where
  "kv_channels lower_key value c =
    (if lower_key = ''enable_tls'' \<or> lower_key = ''tls'' then
       Some (True, c\<lparr>enable_tls := stringToBool value\<rparr>)
     else if lower_key = ''enable_encrypted_channels'' \<or> lower_key = ''encrypted_channels'' then
       Some (True, c\<lparr>enable_encrypted_channels := stringToBool value\<rparr>)
     else if lower_key = ''enable_certificate_validation'' \<or> lower_key = ''cert_validation'' then
       Some (True, c\<lparr>enable_certificate_validation := stringToBool value\<rparr>)
     else if lower_key = ''enable_certificate_authentication'' \<or> lower_key = ''cert_auth'' then
       Some (True, c\<lparr>enable_certificate_authentication := stringToBool value\<rparr>)
     else if lower_key = ''tls_cert_file'' then
       Some (True, c\<lparr>tls_cert_file := value\<rparr>)
     else if lower_key = ''tls_key_file'' then
       Some (True, c\<lparr>tls_key_file := value\<rparr>)
     else if lower_key = ''tls_ca_file'' then
       Some (True, c\<lparr>tls_ca_file := value\<rparr>)
     else if lower_key = ''worker_threads'' \<or> lower_key = ''threads'' then
       Some (if_ul value (\<lambda>w. if 1 \<le> w \<and> w \<le> 64 then c\<lparr>worker_threads := w\<rparr> else c) c)
     else if lower_key = ''max_packet_size'' \<or> lower_key = ''packet_size'' then
       Some (if_ul value (\<lambda>w. if 48 \<le> w \<and> w \<le> 8192 then c\<lparr>max_packet_size := w\<rparr> else c) c)
     else if lower_key = ''enable_statistics'' \<or> lower_key = ''stats'' then
       Some (True, c\<lparr>enable_statistics := stringToBool value\<rparr>)
     else if lower_key = ''stats_interval'' then
       Some (if_int value (\<lambda>i. c\<lparr>stats_interval := i\<rparr>) c)
     else if lower_key = ''drift_file'' \<or> lower_key = ''drift'' then
       Some (True, c\<lparr>drift_file := value\<rparr>)
     else if lower_key = ''enable_drift_compensation'' \<or> lower_key = ''drift_comp'' then
       Some (True, c\<lparr>enable_drift_compensation := stringToBool value\<rparr>)
     else if lower_key = ''leap_second_file'' \<or> lower_key = ''leap_seconds'' then
       Some (True, c\<lparr>leap_second_file := value\<rparr>)
     else if lower_key = ''enable_leap_second_handling'' \<or> lower_key = ''leap_handling'' then
       Some (True, c\<lparr>enable_leap_second_handling := stringToBool value\<rparr>)
     else None)"

definition kv_resilience :: "string \<Rightarrow> string \<Rightarrow> NtpConfig \<Rightarrow> (bool \<times> NtpConfig) option" where
  "kv_resilience lower_key value c =
    (if lower_key = ''enable_automatic_failover'' \<or> lower_key = ''auto_failover'' then
       Some (True, c\<lparr>enable_automatic_failover := stringToBool value\<rparr>)
     else if lower_key = ''enable_self_healing'' \<or> lower_key = ''self_healing'' then
       Some (True, c\<lparr>enable_self_healing := stringToBool value\<rparr>)
     else if lower_key = ''enable_graceful_degradation'' \<or> lower_key = ''graceful_degradation'' then
       Some (True, c\<lparr>enable_graceful_degradation := stringToBool value\<rparr>)
     else if lower_key = ''enable_state_persistence'' \<or> lower_key = ''state_persistence'' then
       Some (True, c\<lparr>enable_state_persistence := stringToBool value\<rparr>)
     else if lower_key = ''state_file'' then
       Some (True, c\<lparr>state_file := value\<rparr>)
     else if lower_key = ''backup_config_file'' then
       Some (True, c\<lparr>backup_config_file := value\<rparr>)
     else if lower_key = ''service_restart_limit'' then
       Some (if_uint value (\<lambda>w. c\<lparr>service_restart_limit := w\<rparr>) c)
     else if lower_key = ''upstream_selection_algorithm'' \<or> lower_key = ''upstream_algorithm'' then
       Some (True, c\<lparr>upstream_selection_algorithm := selection_named (lower value)\<rparr>)
     else if lower_key = ''enable_upstream_load_balancing'' \<or> lower_key = ''upstream_load_balancing'' then
       Some (True, c\<lparr>enable_upstream_load_balancing := stringToBool value\<rparr>)
     else if lower_key = ''enable_upstream_failover'' \<or> lower_key = ''upstream_failover'' then
       Some (True, c\<lparr>enable_upstream_failover := stringToBool value\<rparr>)
     else if lower_key = ''enable_dynamic_stratum_adjustment'' \<or> lower_key = ''dynamic_stratum'' then
       Some (True, c\<lparr>enable_dynamic_stratum_adjustment := stringToBool value\<rparr>)
     else if lower_key = ''enable_reference_clock_support'' \<or> lower_key = ''reference_clock_support'' then
       Some (True, c\<lparr>enable_reference_clock_support := stringToBool value\<rparr>)
     else if lower_key = ''reference_clock_source'' then
       Some (True, c\<lparr>reference_clock_source := value\<rparr>)
     else None)"

definition parseKeyValue :: "string \<Rightarrow> string \<Rightarrow> NtpConfig \<Rightarrow> bool \<times> NtpConfig" where
  "parseKeyValue key value c =
     (let lower_key = lower key
      in case or_else (kv_net lower_key value c)
           (or_else (kv_logging lower_key value c)
           (or_else (kv_security lower_key value c)
           (or_else (kv_channels lower_key value c)
                    (kv_resilience lower_key value c)))) of
           None \<Rightarrow> (False, c)
         | Some r \<Rightarrow> r)"

section \<open>The three formats\<close>

definition ini_line :: "string \<Rightarrow> NtpConfig \<Rightarrow> NtpConfig" where
  "ini_line line c =
     (let line = trim line
      in if line = [] \<or> hd line = CHR ''#'' \<or> hd line = CHR '';'' then c
         else (case find_char CHR ''='' line of
                 None \<Rightarrow> c
               | Some equal_pos \<Rightarrow>
                   (let key = trim (substr line 0 equal_pos);
                        value = trim (substr_from line (equal_pos + 1))
                    in snd (parseKeyValue key value c))))"

definition IniConfigParser_parseString :: "string \<Rightarrow> NtpConfig \<Rightarrow> bool \<times> NtpConfig" where
  "IniConfigParser_parseString content c = (True, fold ini_line (getlines CHR 0x0A content) c)"

definition drop_comma :: "string \<Rightarrow> string" where
  "drop_comma value =
     (if 0 < length value \<and> last value = CHR '','' then substr value 0 (length value - 1) else value)"

definition json_line :: "string \<Rightarrow> NtpConfig \<Rightarrow> NtpConfig" where
  "json_line line c =
     (let line = trim line
      in if line = [] \<or> hd line = CHR ''/'' \<or> hd line = CHR ''*'' then c
         else (case find_char CHR '':'' line of
                 None \<Rightarrow> c
               | Some colon_pos \<Rightarrow>
                   (let key = trim (substr line 0 colon_pos);
                        value = trim (substr_from line (colon_pos + 1));
                        key = unquote key;
                        value = unquote value;
                        value = drop_comma value;
                        value = unquote value
                    in snd (parseKeyValue key value c))))"

definition JsonConfigParser_parseString :: "string \<Rightarrow> NtpConfig \<Rightarrow> bool \<times> NtpConfig" where
  "JsonConfigParser_parseString content c = (True, fold json_line (getlines CHR 0x0A content) c)"

definition yaml_line :: "string \<Rightarrow> NtpConfig \<Rightarrow> NtpConfig" where
  "yaml_line line c =
     (let line = trim line
      in if line = [] \<or> hd line = CHR ''#'' then c
         else (case find_char CHR '':'' line of
                 None \<Rightarrow> c
               | Some colon_pos \<Rightarrow>
                   (let key = trim (substr line 0 colon_pos);
                        value = trim (substr_from line (colon_pos + 1))
                    in snd (parseKeyValue key value c))))"

definition YamlConfigParser_parseString :: "string \<Rightarrow> NtpConfig \<Rightarrow> bool \<times> NtpConfig" where
  "YamlConfigParser_parseString content c = (True, fold yaml_line (getlines CHR 0x0A content) c)"

section \<open>The factory\<close>

datatype ConfigFormat = INI | JSON | YAML | UNKNOWN

fun createParser :: "ConfigFormat \<Rightarrow> (string \<Rightarrow> NtpConfig \<Rightarrow> bool \<times> NtpConfig) option" where
  "createParser INI = Some IniConfigParser_parseString"
| "createParser JSON = Some JsonConfigParser_parseString"
| "createParser YAML = Some YamlConfigParser_parseString"
| "createParser UNKNOWN = None"

fun getSupportedExtensions :: "ConfigFormat \<Rightarrow> string list" where
  "getSupportedExtensions INI = [''ini'', ''conf'', ''cfg'']"
| "getSupportedExtensions JSON = [''json'']"
| "getSupportedExtensions YAML = [''yml'', ''yaml'']"
| "getSupportedExtensions UNKNOWN = []"

definition getSupportedFormats :: "ConfigFormat list" where
  "getSupportedFormats = [INI, JSON, YAML]"

fun getFormatName :: "ConfigFormat \<Rightarrow> string" where
  "getFormatName INI = ''INI''"
| "getFormatName JSON = ''JSON''"
| "getFormatName YAML = ''YAML''"
| "getFormatName UNKNOWN = ''UNKNOWN''"

text \<open>The text after the last dot, if there is a dot.\<close>

definition extension_of :: "string \<Rightarrow> string option" where
  "extension_of filename =
     (if CHR ''.'' \<in> set filename
      then Some (rev (takeWhile (\<lambda>c. c \<noteq> CHR ''.'') (rev filename))) else None)"

definition detectFormat :: "string \<Rightarrow> ConfigFormat" where
  "detectFormat filename =
     (case extension_of filename of
        None \<Rightarrow> UNKNOWN
      | Some ext \<Rightarrow>
          (let extension = lower ext
           in if extension = ''ini'' \<or> extension = ''conf'' then INI
              else if extension = ''json'' then JSON
              else if extension = ''yml'' \<or> extension = ''yaml'' then YAML
              else UNKNOWN))"

definition createParserFromFile ::
    "string \<Rightarrow> (string \<Rightarrow> NtpConfig \<Rightarrow> bool \<times> NtpConfig) option" where
  "createParserFromFile filename = (let format = detectFormat filename in createParser format)"

text \<open>
  \<open>parseFile\<close> reads the file, then calls \<open>parseString\<close>; the first of these is the one of
  the INI parser, with the call as an argument.
\<close>

definition parseFile ::
    "(string \<Rightarrow> NtpConfig \<Rightarrow> bool \<times> NtpConfig) \<Rightarrow> (string \<Rightarrow> string option) \<Rightarrow> string \<Rightarrow>
     NtpConfig \<Rightarrow> bool \<times> NtpConfig" where
  "parseFile parseString files filename c =
     (case files filename of None \<Rightarrow> (False, c) | Some content \<Rightarrow> parseString content c)"

definition JsonConfigParser_parseFile ::
    "(string \<Rightarrow> string option) \<Rightarrow> string \<Rightarrow> NtpConfig \<Rightarrow> bool \<times> NtpConfig" where
  "JsonConfigParser_parseFile files filename c =
     (case files filename of None \<Rightarrow> (False, c)
      | Some content \<Rightarrow> JsonConfigParser_parseString content c)"

definition YamlConfigParser_parseFile ::
    "(string \<Rightarrow> string option) \<Rightarrow> string \<Rightarrow> NtpConfig \<Rightarrow> bool \<times> NtpConfig" where
  "YamlConfigParser_parseFile files filename c =
     (case files filename of None \<Rightarrow> (False, c)
      | Some content \<Rightarrow> YamlConfigParser_parseString content c)"

section \<open>What a setting can do\<close>

lemmas kv_groups = kv_net_def kv_logging_def kv_security_def kv_channels_def kv_resilience_def

lemma parseList_nonempty [simp]: "[] \<notin> set (parseList value)"
  by (simp add: parseList_def)

lemma parsed_ok_kv_branches [chain_intros]:
  "parsed_ok c \<Longrightarrow> (\<And>i. in_i32 i \<Longrightarrow> parsed_ok (f i)) \<Longrightarrow> parsed_ok (snd (if_int v f c))"
  "parsed_ok c \<Longrightarrow> (\<And>w. parsed_ok (g w)) \<Longrightarrow> parsed_ok (snd (if_uint v g c))"
  "parsed_ok c \<Longrightarrow> (\<And>w. parsed_ok (h w)) \<Longrightarrow> parsed_ok (snd (if_ul v h c))"
  by (auto simp: if_int_def if_uint_def if_ul_def stringToInt_def stringToUInt_def
      stringToSizeT_def dest: stoi_range split: sum.split option.split)

lemma kv_groups_parsed_ok:
  assumes "parsed_ok c"
  shows "pred_option (\<lambda>r. parsed_ok (snd r)) (kv_net k v c)"
    and "pred_option (\<lambda>r. parsed_ok (snd r)) (kv_logging k v c)"
    and "pred_option (\<lambda>r. parsed_ok (snd r)) (kv_security k v c)"
    and "pred_option (\<lambda>r. parsed_ok (snd r)) (kv_channels k v c)"
    and "pred_option (\<lambda>r. parsed_ok (snd r)) (kv_resilience k v c)"
  unfolding kv_groups
  by (intro chain_intros assms; use assms in \<open>simp add: parsed_ok_def small_stratum\<close>)+

lemma parseKeyValue_parsed_ok:
  assumes "parsed_ok c"
  shows "parsed_ok (snd (parseKeyValue key value c))"
proof -
  have "parsed_ok (snd (case r of None \<Rightarrow> (False, c) | Some x \<Rightarrow> x))"
    if "pred_option (\<lambda>r. parsed_ok (snd r)) r" for r :: "(bool \<times> NtpConfig) option"
    using that assms by (cases r) simp_all
  then show ?thesis
    unfolding parseKeyValue_def Let_def
    by (simp add: or_else_pred kv_groups_parsed_ok [OF assms])
qed

lemma line_steps_parsed_ok:
  assumes "parsed_ok c"
  shows "parsed_ok (ini_line line c)" "parsed_ok (json_line line c)" "parsed_ok (yaml_line line c)"
  using assms
  by (simp_all add: ini_line_def json_line_def yaml_line_def Let_def parseKeyValue_parsed_ok
      split: option.split)

section \<open>What the parsers share\<close>

locale line_parser =
  fixes parse :: "string \<Rightarrow> NtpConfig \<Rightarrow> bool \<times> NtpConfig"
    and step :: "string \<Rightarrow> NtpConfig \<Rightarrow> NtpConfig"
    and render :: "string \<times> string \<Rightarrow> string"
    and plain :: "string \<times> string \<Rightarrow> bool"
  assumes parse_lines: "parse content c = (True, fold step (getlines CHR 0x0A content) c)"
    and step_parsed_ok: "parsed_ok c \<Longrightarrow> parsed_ok (step line c)"
    and render_line: "plain kv \<Longrightarrow> render kv \<noteq> [] \<and> CHR 0x0A \<notin> set (render kv)"
    and step_render: "plain kv \<Longrightarrow> step (render kv) c = snd (parseKeyValue (fst kv) (snd kv) c)"
begin

lemma parse_parsed_ok: "parsed_ok c \<Longrightarrow> parsed_ok (snd (parse content c))"
  by (simp add: parse_lines fold_invariant step_parsed_ok)

lemma parse_rendered:
  assumes "\<forall>kv \<in> set kvs. plain kv"
  shows "parse (join_with CHR 0x0A (map render kvs)) c =
    (True, fold (\<lambda>kv c. snd (parseKeyValue (fst kv) (snd kv) c)) kvs c)"
proof -
  have "getlines CHR 0x0A (join_with CHR 0x0A (map render kvs)) = map render kvs"
    using assms by (intro getlines_join_with) (auto simp: render_line)
  moreover have "fold step (map render kvs) c =
      fold (\<lambda>kv c. snd (parseKeyValue (fst kv) (snd kv) c)) kvs c"
    using assms by (induction kvs arbitrary: c) (simp_all add: step_render)
  ultimately show ?thesis by (simp add: parse_lines)
qed

end

text \<open>The same setting in the three formats.\<close>

definition trimmed :: "string \<Rightarrow> bool" where
  "trimmed s \<longleftrightarrow> s \<noteq> [] \<and> trim s = s \<and> CHR 0x0A \<notin> set s"

definition plain_setting :: "string \<times> string \<Rightarrow> bool" where
  "plain_setting kv \<longleftrightarrow> trimmed (fst kv) \<and> trimmed (snd kv)
     \<and> CHR ''='' \<notin> set (fst kv) \<and> CHR '':'' \<notin> set (fst kv) \<and> hd (fst kv) \<notin> {CHR ''#'', CHR '';''}"

definition ini_setting :: "string \<times> string \<Rightarrow> string" where
  "ini_setting kv = fst kv @ '' = '' @ snd kv"

definition yaml_setting :: "string \<times> string \<Rightarrow> string" where
  "yaml_setting kv = fst kv @ '': '' @ snd kv"

definition json_setting :: "string \<times> string \<Rightarrow> string" where
  "json_setting kv =
     CHR 0x22 # fst kv @ [CHR 0x22] @ '': '' @ [CHR 0x22] @ snd kv @ [CHR 0x22, CHR '','']"

lemma trimmed_ends:
  assumes "trimmed s"
  shows "hd s \<notin> {CHR '' '', CHR 0x09, CHR 0x0D, CHR 0x0A}"
    and "last s \<notin> {CHR '' '', CHR 0x09, CHR 0x0D, CHR 0x0A}"
  using assms trim_chars_hd [of _ s] trim_chars_last [of _ s] unfolding trimmed_def trim_def
  by metis+

lemma trim_ends_id:
  "s \<noteq> [] \<Longrightarrow> hd s \<notin> {CHR '' '', CHR 0x09, CHR 0x0D, CHR 0x0A} \<Longrightarrow>
   last s \<notin> {CHR '' '', CHR 0x09, CHR 0x0D, CHR 0x0A} \<Longrightarrow> trim s = s"
  unfolding trim_def by (rule trim_chars_id) blast

lemma trim_blank: "trim (s @ '' '') = trim s" "trim (CHR '' '' # s) = trim s"
  by (simp_all add: trim_def)

lemma unquote_quoted: "unquote (CHR 0x22 # s @ [CHR 0x22]) = s"
  by (simp add: unquote_def substr_def)

lemma ini_line_setting:
  assumes "plain_setting kv"
  shows "ini_line (ini_setting kv) c = snd (parseKeyValue (fst kv) (snd kv) c)"
proof -
  obtain k v where kv: "kv = (k, v)" by (cases kv)
  with assms have k: "trimmed k" "CHR ''='' \<notin> set (k @ '' '')" "hd k \<notin> {CHR ''#'', CHR '';''}"
    and v: "trimmed v"
    by (simp_all add: plain_setting_def)
  then have ne: "k \<noteq> []" "v \<noteq> []" by (simp_all add: trimmed_def)
  have "trim (ini_setting kv) = ini_setting kv"
    using trimmed_ends [OF k(1)] trimmed_ends [OF v] ne
    by (intro trim_ends_id) (simp_all add: ini_setting_def kv)
  moreover have "ini_setting kv = (k @ '' '') @ CHR ''='' # CHR '' '' # v"
    by (simp add: ini_setting_def kv)
  ultimately show ?thesis
    using k v ne find_char_sep [OF k(2), of "CHR '' '' # v"] trim_blank(1) [of k]
    by (simp add: ini_line_def kv substr_def substr_from_def trim_blank trimmed_def)
qed

lemma yaml_line_setting:
  assumes "plain_setting kv"
  shows "yaml_line (yaml_setting kv) c = snd (parseKeyValue (fst kv) (snd kv) c)"
proof -
  obtain k v where kv: "kv = (k, v)" by (cases kv)
  with assms have k: "trimmed k" "CHR '':'' \<notin> set k" "hd k \<noteq> CHR ''#''" and v: "trimmed v"
    by (simp_all add: plain_setting_def)
  then have ne: "k \<noteq> []" "v \<noteq> []" by (simp_all add: trimmed_def)
  have "trim (yaml_setting kv) = yaml_setting kv"
    using trimmed_ends [OF k(1)] trimmed_ends [OF v] ne
    by (intro trim_ends_id) (simp_all add: yaml_setting_def kv)
  then show ?thesis
    using k v ne find_char_sep [OF k(2), of "CHR '' '' # v"]
    by (simp add: yaml_line_def yaml_setting_def kv substr_def substr_from_def trim_blank trimmed_def)
qed

lemma json_value:
  "unquote (drop_comma (unquote (CHR 0x22 # v @ [CHR 0x22, CHR '','']))) = v"
proof -
  have "unquote (CHR 0x22 # v @ [CHR 0x22, CHR '','']) = CHR 0x22 # v @ [CHR 0x22, CHR '','']"
    by (simp add: unquote_def)
  moreover have "drop_comma (CHR 0x22 # v @ [CHR 0x22, CHR '','']) = CHR 0x22 # v @ [CHR 0x22]"
    by (simp add: drop_comma_def substr_def)
  ultimately show ?thesis by (simp only: unquote_quoted)
qed

lemma json_line_setting:
  assumes "plain_setting kv"
  shows "json_line (json_setting kv) c = snd (parseKeyValue (fst kv) (snd kv) c)"
proof -
  obtain k v where kv: "kv = (k, v)" by (cases kv)
  define qk where "qk = CHR 0x22 # k @ [CHR 0x22]"
  define qv where "qv = CHR 0x22 # v @ [CHR 0x22, CHR '','']"
  have line: "json_setting kv = qk @ CHR '':'' # CHR '' '' # qv"
    by (simp add: json_setting_def kv qk_def qv_def)
  have "CHR '':'' \<notin> set qk" using assms by (simp add: plain_setting_def kv qk_def)
  then have pos: "find_char CHR '':'' (qk @ CHR '':'' # CHR '' '' # qv) = Some (length qk)"
    by (rule find_char_sep)
  have trims: "trim (qk @ CHR '':'' # CHR '' '' # qv) = qk @ CHR '':'' # CHR '' '' # qv"
      "trim qk = qk" "trim qv = qv"
    by (rule trim_ends_id; simp add: qk_def qv_def)+
  have keys: "unquote qk = k" "unquote (drop_comma (unquote qv)) = v"
    unfolding qk_def qv_def by (simp_all only: unquote_quoted json_value)
  have hd: "hd (qk @ CHR '':'' # CHR '' '' # qv) = CHR 0x22" by (simp add: qk_def)
  show ?thesis
    unfolding json_line_def line Let_def trims hd pos
    by (simp add: substr_def substr_from_def trim_blank trims keys kv)
qed

lemma setting_lines:
  assumes "plain_setting kv"
  shows "ini_setting kv \<noteq> [] \<and> CHR 0x0A \<notin> set (ini_setting kv)"
    and "json_setting kv \<noteq> [] \<and> CHR 0x0A \<notin> set (json_setting kv)"
    and "yaml_setting kv \<noteq> [] \<and> CHR 0x0A \<notin> set (yaml_setting kv)"
  using assms
  by (auto simp: plain_setting_def trimmed_def ini_setting_def json_setting_def yaml_setting_def)

interpretation ini: line_parser IniConfigParser_parseString ini_line ini_setting plain_setting
  by unfold_locales
     (simp_all add: IniConfigParser_parseString_def line_steps_parsed_ok setting_lines
      ini_line_setting)

interpretation json: line_parser JsonConfigParser_parseString json_line json_setting plain_setting
  by unfold_locales
     (simp_all add: JsonConfigParser_parseString_def line_steps_parsed_ok setting_lines
      json_line_setting)

interpretation yaml: line_parser YamlConfigParser_parseString yaml_line yaml_setting plain_setting
  by unfold_locales
     (simp_all add: YamlConfigParser_parseString_def line_steps_parsed_ok setting_lines
      yaml_line_setting)

section \<open>Properties\<close>



text \<open>Files of the three formats with the same settings read alike.\<close>

lemma files_agree:
  assumes "\<forall>kv \<in> set kvs. plain_setting kv"
    and "files name = Some (join_with CHR 0x0A (map ini_setting kvs))"
    and "files json = Some (join_with CHR 0x0A (map json_setting kvs))"
    and "files yaml = Some (join_with CHR 0x0A (map yaml_setting kvs))"
  shows "JsonConfigParser_parseFile files json c = parseFile IniConfigParser_parseString files name c
    \<and> YamlConfigParser_parseFile files yaml c = parseFile IniConfigParser_parseString files name c"
  using assms by (simp add: JsonConfigParser_parseFile_def YamlConfigParser_parseFile_def
      parseFile_def ini.parse_rendered json.parse_rendered yaml.parse_rendered)

lemma detected_extensions:
  "(createParserFromFile (base @ ''.'' @ e) \<noteq> None \<longleftrightarrow> detectFormat (base @ ''.'' @ e) \<noteq> UNKNOWN)
   \<and> (CHR ''.'' \<notin> set e \<longrightarrow>
       (detectFormat (base @ ''.'' @ e) \<noteq> UNKNOWN \<longleftrightarrow>
        (\<exists>f \<in> set getSupportedFormats. lower e \<in> set (getSupportedExtensions f)) \<and>
        lower e \<noteq> ''cfg''))"
proof -
  have "createParser f \<noteq> None \<longleftrightarrow> f \<noteq> UNKNOWN" for f by (cases f) simp_all
  moreover have "extension_of (base @ ''.'' @ e) = Some e" if "CHR ''.'' \<notin> set e"
    using that takeWhile_sep [of "CHR ''.''" "rev e" "rev base"] by (simp add: extension_of_def)
  ultimately show ?thesis
    by (auto simp: createParserFromFile_def detectFormat_def getSupportedFormats_def Let_def)
qed

section \<open>The two readers of a setting\<close>

text \<open>Keys that only \<open>parseCommandLineArg\<close> knows.\<close>

definition config_only_keys :: "string set" where
  "config_only_keys = {''log_json'', ''json_logs'', ''log_max_size_bytes'', ''log_max_size'',
     ''log_max_files'', ''authentication_keys'', ''auth_keys'', ''degradation_mode''}"

text \<open>
  Values that both read alike: a boolean in one of the three spellings the configuration file
  reader knows or in none of those the parsers know, and no line end in a list.
\<close>

definition common_value :: "string \<Rightarrow> bool" where
  "common_value value \<longleftrightarrow>
     (value \<in> {''true'', ''1'', ''yes''} \<or>
      lower value \<notin> {''true'', ''1'', ''yes'', ''on'', ''enabled''})
   \<and> CHR 0x0D \<notin> set value \<and> CHR 0x0A \<notin> set value"

lemma stringToBool_config: "common_value value \<Longrightarrow> stringToBool value = config_bool value"
proof -
  assume v: "common_value value"
  have "lower ''true'' = ''true''" "lower ''1'' = ''1''" "lower ''yes'' = ''yes''"
    by (simp_all add: lower_def tolower_def)
  with v show ?thesis
    by (auto simp: stringToBool_def config_bool_def common_value_def Let_def)
qed

lemma trim_chars_cong: "(\<And>c. c \<in> set s \<Longrightarrow> c \<in> cs \<longleftrightarrow> c \<in> ds) \<Longrightarrow> trim_chars cs s = trim_chars ds s"
proof -
  assume same: "\<And>c. c \<in> set s \<Longrightarrow> c \<in> cs \<longleftrightarrow> c \<in> ds"
  then have "dropWhile (\<lambda>c. c \<in> cs) s = dropWhile (\<lambda>c. c \<in> ds) s" by (intro dropWhile_cong) auto
  moreover have "dropWhile (\<lambda>c. c \<in> cs) (rev t) = dropWhile (\<lambda>c. c \<in> ds) (rev t)"
    if "set t \<subseteq> set s" for t
    using that same by (intro dropWhile_cong) auto
  ultimately show ?thesis unfolding trim_chars_def by (metis set_dropWhileD subsetI)
qed

lemma getlines_subset: "a \<in> set (getlines d s) \<Longrightarrow> set a \<subseteq> set s"
proof (induction d s rule: getlines.induct)
  case (2 d c s)
  have "set (tl (dropWhile (\<lambda>x. x \<noteq> d) (c # s))) \<subseteq> set (c # s)"
    by (metis list.set_sel(2) set_dropWhileD subsetI tl_Nil)
  with 2 show ?case by (auto dest: set_takeWhileD split: if_splits)
qed simp

lemma parseList_config: "common_value value \<Longrightarrow> parseList value = comma_list value"
proof -
  assume v: "common_value value"
  have "trim a = trim_chars blanks a" if "a \<in> set (getlines CHR '','' value)" for a
    unfolding trim_def
    using getlines_subset [OF that] v
    by (intro trim_chars_cong) (auto simp: common_value_def blanks_def)
  then show ?thesis by (simp add: parseList_def comma_list_def cong: map_cong)
qed

lemma settings_with:
  "snd (if_int value f c) = snd (with_int value f c)"
  "snd (if_ul value g c) = snd (with_ul value g c)"
  "snd (if_uint value h c) = snd (with_ul value (\<lambda>w. h (ucast w)) c)"
  by (simp_all add: if_int_def with_int_def if_ul_def with_ul_def if_uint_def stringToInt_def
      stringToSizeT_def stringToUInt_def split: sum.split)

lemma map_option_if: "map_option f (if b then x else y) = (if b then map_option f x else map_option f y)"
  by simp

lemmas same_setting = map_option_if option.map snd_conv settings_with if_False simp_thms

lemma groups_agree:
  assumes v: "stringToBool v = config_bool v" "parseList v = comma_list v" and k: "k \<notin> config_only_keys"
  shows "map_option snd (kv_net k v c) = map_option snd (arg_net k v c)"
    and "map_option snd (kv_logging k v c) = map_option snd (arg_logging k v c)"
    and "map_option snd (kv_security k v c) = map_option snd (arg_security k v c)"
    and "map_option snd (kv_channels k v c) = map_option snd (arg_channels k v c)"
    and "map_option snd (kv_resilience k v c) = map_option snd (arg_resilience k v c)"
proof -
  have ks: "(k = ''log_json'') = False" "(k = ''json_logs'') = False" "(k = ''log_max_size_bytes'') = False"
    "(k = ''log_max_size'') = False" "(k = ''log_max_files'') = False" "(k = ''authentication_keys'') = False"
    "(k = ''auth_keys'') = False" "(k = ''degradation_mode'') = False"
    using k by (simp_all only: config_only_keys_def insert_iff de_Morgan_disj simp_thms)
  show "map_option snd (kv_net k v c) = map_option snd (arg_net k v c)"
    by (simp only: kv_net_def arg_net_def same_setting v)
  show "map_option snd (kv_logging k v c) = map_option snd (arg_logging k v c)"
    by (simp only: kv_logging_def arg_logging_def same_setting v ks)
  show "map_option snd (kv_security k v c) = map_option snd (arg_security k v c)"
    by (simp only: kv_security_def arg_security_def same_setting v ks)
  show "map_option snd (kv_channels k v c) = map_option snd (arg_channels k v c)"
    by (simp only: kv_channels_def arg_channels_def same_setting v)
  show "map_option snd (kv_resilience k v c) = map_option snd (arg_resilience k v c)"
    by (simp only: kv_resilience_def arg_resilience_def same_setting v ks)
qed

lemma settings_snd:
  "snd (parseKeyValue key value c) = (case or_else (map_option snd (kv_net (lower key) value c))
      (or_else (map_option snd (kv_logging (lower key) value c))
      (or_else (map_option snd (kv_security (lower key) value c))
      (or_else (map_option snd (kv_channels (lower key) value c))
               (map_option snd (kv_resilience (lower key) value c))))) of None \<Rightarrow> c | Some c' \<Rightarrow> c')"
  "snd (parseCommandLineArg key value c) = (case or_else (map_option snd (arg_net (lower key) value c))
      (or_else (map_option snd (arg_logging (lower key) value c))
      (or_else (map_option snd (arg_security (lower key) value c))
      (or_else (map_option snd (arg_channels (lower key) value c))
               (map_option snd (arg_resilience (lower key) value c))))) of None \<Rightarrow> c | Some c' \<Rightarrow> c')"
  by (simp_all add: parseKeyValue_def parseCommandLineArg_def or_else_def Let_def split: option.split)

lemma config_only_unknown: "lower key \<in> config_only_keys \<Longrightarrow> parseKeyValue key value c = (False, c)"
  unfolding config_only_keys_def
  by (elim insertE emptyE)
     (simp_all add: parseKeyValue_def or_else_def kv_net_def kv_logging_def kv_security_def
        kv_channels_def kv_resilience_def)

text \<open>
  C40. The two places that interpret a setting agree: for every key both know and every value
  they read alike, \<open>ConfigParser::parseKeyValue\<close> and \<open>NtpConfig::parseCommandLineArg\<close> make the same
  configuration. The keys the parsers do not know they report and ignore. A boolean written \<open>on\<close>,
  which the parsers take as true, the configuration file reader takes as false.
\<close>
theorem settings_agree:
  "(lower key \<notin> config_only_keys \<and> common_value value \<longrightarrow>
      snd (parseKeyValue key value c) = snd (parseCommandLineArg key value c))
   \<and> (lower key \<in> config_only_keys \<longrightarrow> parseKeyValue key value c = (False, c))
   \<and> enable_acl (snd (parseKeyValue ''acl'' ''on'' c))
   \<and> \<not> enable_acl (snd (parseCommandLineArg ''acl'' ''on'' c))"
proof -
  have "snd (parseKeyValue key value c) = snd (parseCommandLineArg key value c)"
    if "lower key \<notin> config_only_keys" "common_value value"
    unfolding settings_snd
    by (simp only: groups_agree [OF stringToBool_config [OF that(2)] parseList_config [OF that(2)] that(1)])
  moreover have "lower ''acl'' = ''acl''" "lower ''on'' = ''on''"
    by (simp_all add: lower_def tolower_def)
  then have "enable_acl (snd (parseKeyValue ''acl'' ''on'' c))"
    and "\<not> enable_acl (snd (parseCommandLineArg ''acl'' ''on'' c))"
    by (simp_all add: settings_snd or_else_def kv_net_def kv_logging_def kv_security_def
        arg_net_def arg_logging_def arg_security_def stringToBool_def config_bool_def)
  ultimately show ?thesis using config_only_unknown by blast
qed

theorem settings_agree_witness:
  "snd (parseKeyValue ''Port'' ''8123'' setDefaults) =
     snd (parseCommandLineArg ''Port'' ''8123'' setDefaults)
   \<and> parseKeyValue ''log_json'' ''true'' setDefaults = (False, setDefaults)"
  using settings_agree [of "''Port''" "''8123''" setDefaults] settings_agree [of "''log_json''" "''true''" setDefaults]
  by (simp add: config_only_keys_def common_value_def lower_def tolower_def)

end
