(* ===== verification/Access.thy ===== *)
theory Access
  imports Net Config RateLimit
begin

text \<open>
  What \<open>NtpServer\<close> checks before it looks into a datagram (\<open>core/server.cpp\<close>): the access
  lists, the per-minute limit of a client and the per-second anomaly threshold. The
  configuration is \<^const>\<open>None\<close> for a null pointer, the clock's minute or second is an
  argument, and a malformed access list entry throws (\<open>isIpInCidr\<close>).
\<close>

section \<open>Access lists\<close>

text \<open>\<open>for (const auto &entry : entries) if (isIpInCidr(client_ip, entry)) return ...;\<close>\<close>

fun any_in_cidr :: "(string \<Rightarrow> u32 option) \<Rightarrow> string \<Rightarrow> string list \<Rightarrow> cpp_exn + bool" where
  "any_in_cidr pton client_ip [] = Inr False"
| "any_in_cidr pton client_ip (e # es) =
     bind_result (isIpInCidr pton client_ip e)
       (\<lambda>b. if b then Inr True else any_in_cidr pton client_ip es)"

definition isClientAllowed ::
    "(string \<Rightarrow> u32 option) \<Rightarrow> NtpConfig option \<Rightarrow> string \<Rightarrow> cpp_exn + bool" where
  "isClientAllowed pton cfg client_ip =
     (case cfg of
        None \<Rightarrow> Inr True
      | Some c \<Rightarrow>
          if \<not> enable_acl c \<and> \<not> restrict_queries c then Inr True
          else
            bind_result (any_in_cidr pton client_ip (denied_clients c))
              (\<lambda>denied.
                 if denied then Inr False
                 else if allowed_clients c = [] then Inr (\<not> restrict_queries c)
                 else any_in_cidr pton client_ip (allowed_clients c)))"

section \<open>Rate limit and anomaly detection\<close>

definition isRateLimitExceeded ::
    "NtpConfig option \<Rightarrow> u64 \<Rightarrow> string \<Rightarrow> bucket_table \<Rightarrow> bool \<times> bucket_table" where
  "isRateLimitExceeded cfg minute_bucket client_ip t =
     (case cfg of
        None \<Rightarrow> (False, t)
      | Some c \<Rightarrow>
          if \<not> enable_rate_limiting c then (False, t)
          else table_hit (connection_rate_limit_per_minute c) client_ip minute_bucket t)"

definition isDdosAnomaly ::
    "NtpConfig option \<Rightarrow> u64 \<Rightarrow> string \<Rightarrow> bucket_table \<Rightarrow> bool \<times> bucket_table" where
  "isDdosAnomaly cfg second_bucket client_ip t =
     (case cfg of
        None \<Rightarrow> (False, t)
      | Some c \<Rightarrow>
          if \<not> enable_ddos_protection c then (False, t)
          else table_hit (ddos_anomaly_threshold_per_second c) client_ip second_bucket t)"

section \<open>The decision of the access lists\<close>

text \<open>An entry that can be evaluated for every client, and whether it matches one.\<close>

definition well_formed_entries :: "(string \<Rightarrow> u32 option) \<Rightarrow> string \<Rightarrow> string list \<Rightarrow> bool" where
  "well_formed_entries pton ip es \<longleftrightarrow> (\<forall>e \<in> set es. \<exists>b. isIpInCidr pton ip e = Inr b)"

definition matches_entry :: "(string \<Rightarrow> u32 option) \<Rightarrow> string \<Rightarrow> string list \<Rightarrow> bool" where
  "matches_entry pton ip es \<longleftrightarrow> (\<exists>e \<in> set es. isIpInCidr pton ip e = Inr True)"

lemma any_in_cidr_wf:
  "well_formed_entries pton ip es \<Longrightarrow> any_in_cidr pton ip es = Inr (matches_entry pton ip es)"
  by (induction es) (auto simp: well_formed_entries_def matches_entry_def)

lemma any_in_cidr_throws:
  "any_in_cidr pton ip es = Inl x \<Longrightarrow> \<not> well_formed_entries pton ip es"
  using any_in_cidr_wf by force

lemma any_in_cidr_Inr:
  "any_in_cidr pton ip es = Inr b \<Longrightarrow> b = matches_entry pton ip es \<or> b \<and> matches_entry pton ip es"
  by (induction es)
     (auto simp: matches_entry_def result_simps split: if_splits)

section \<open>Properties\<close>

text \<open>
  C14. With access control on and well-formed entries, a client is admitted exactly when no
  denied entry matches it and an allowed entry does (or, with no allowed entries, when
  queries are not restricted): denying wins over allowing. With access control and query
  restriction off, everyone is.
\<close>
theorem access_decision:
  assumes "well_formed_entries pton ip (denied_clients c)"
    and "well_formed_entries pton ip (allowed_clients c)"
  shows "isClientAllowed pton (Some c) ip = Inr (
    (\<not> enable_acl c \<and> \<not> restrict_queries c)
    \<or> \<not> matches_entry pton ip (denied_clients c)
      \<and> (if allowed_clients c = [] then \<not> restrict_queries c
         else matches_entry pton ip (allowed_clients c)))"
  using assms by (auto simp: isClientAllowed_def any_in_cidr_wf)

theorem access_decision_witness:
  "isClientAllowed inet_pton4 (Some (setDefaults\<lparr>enable_acl := True, allowed_clients := [''10.0.0.1''],
     denied_clients := [''10.0.0.2'']\<rparr>)) ''10.0.0.1'' = Inr True"
  using access_decision [of inet_pton4 "''10.0.0.1''" "setDefaults\<lparr>enable_acl := True,
      allowed_clients := [''10.0.0.1''], denied_clients := [''10.0.0.2'']\<rparr>"]
  by (auto simp: well_formed_entries_def matches_entry_def isIpInCidr_def find_char_def)

text \<open>
  C8. The per-minute limit and the per-second anomaly check, which keep one counter per client and
  start it anew in a new window, decide every packet of any interleaving of clients as the abstract
  limiter does that remembers all packets: over the limit when the client's packets of the same
  window, this one included, are more than configured. The clock must not run backwards.
\<close>
theorem client_limits_refine_history:
  assumes "sorted (map fst es)" and "length es < 2 ^ 32"
  shows "(enable_rate_limiting c \<longrightarrow>
      decisions (\<lambda>ip w. isRateLimitExceeded (Some c) w ip) es Map.empty =
        history_decisions (connection_rate_limit_per_minute c) [] es)
    \<and> (enable_ddos_protection c \<longrightarrow>
      decisions (\<lambda>ip w. isDdosAnomaly (Some c) w ip) es Map.empty =
        history_decisions (ddos_anomaly_threshold_per_second c) [] es)"
proof -
  have table: "decisions (table_hit l) es Map.empty = history_decisions l [] es" for l
    using table_window.refines [OF empty_table] assms by simp
  have "(\<lambda>ip w. isRateLimitExceeded (Some c) w ip) = table_hit (connection_rate_limit_per_minute c)"
    if "enable_rate_limiting c" using that by (simp add: isRateLimitExceeded_def fun_eq_iff)
  moreover have "(\<lambda>ip w. isDdosAnomaly (Some c) w ip) = table_hit (ddos_anomaly_threshold_per_second c)"
    if "enable_ddos_protection c" using that by (simp add: isDdosAnomaly_def fun_eq_iff)
  ultimately show ?thesis using table by simp
qed

theorem client_limits_refine_history_witness:
  "decisions (\<lambda>ip w. isRateLimitExceeded (Some (setDefaults\<lparr>enable_rate_limiting := True,
      connection_rate_limit_per_minute := 1\<rparr>)) w ip)
      [(7, ''a''), (7, ''b''), (7, ''a''), (8, ''a'')] Map.empty = [False, False, True, False]"
  using client_limits_refine_history [of "[(7, ''a''), (7, ''b''), (7, ''a''), (8, ''a'')]"
      "setDefaults\<lparr>enable_rate_limiting := True, connection_rate_limit_per_minute := 1\<rparr>"]
  by simp

end
