(* ===== verification/Connection.thy ===== *)
theory Connection
  imports Packet Config RateLimit
begin

text \<open>
  \<open>NtpConnection\<close> of \<open>core/connection.hpp\<close> and \<open>core/connection.cpp\<close>: the per-client object
  that decides whether a datagram is a request to answer (\<open>handlePacket\<close>), with its request
  counter per minute, its authentication check and its statistics.

  \<^item> The shared configuration is an argument, \<^const>\<open>None\<close> for a null pointer; the server
    theory says which configuration a connection points to.
  \<^item> The minute of the steady clock, the digests of OpenSSL (\<^const>\<open>None\<close> when a call
    fails), the first entry of the unordered key map and the results of \<open>recv\<close> and \<open>send\<close> are
    arguments.
  \<^item> Member names lose their trailing underscore. Log output is left out; the members no operation reads (\<open>last_packet_time_\<close>,
    \<open>authenticated_\<close>, the thread and callback members) are left out as well.
\<close>

section \<open>State\<close>

record NtpConnectionStats =
  packets_received :: u64
  packets_sent :: u64
  bytes_received :: u64
  bytes_sent :: u64
  error_count :: u64

definition NtpConnectionStats_init :: NtpConnectionStats where
  "NtpConnectionStats_init = \<lparr>packets_received = 0, packets_sent = 0, bytes_received = 0,
     bytes_sent = 0, error_count = 0\<rparr>"

type_synonym minute_counts = "u64 \<rightharpoonup> u32"

record NtpConnection =
  client_socket :: int
  client_addr :: string
  conn_active :: bool
  conn_stats :: NtpConnectionStats
  trusted_client :: bool
  request_buckets :: minute_counts

definition INVALID_SOCKET :: int where
  "INVALID_SOCKET = -1"

definition NtpConnection_init :: "int \<Rightarrow> string \<Rightarrow> NtpConnection" where
  "NtpConnection_init sock client_address = \<lparr>client_socket = sock,
     client_addr = client_address, conn_active = True, conn_stats = NtpConnectionStats_init,
     trusted_client = False, request_buckets = Map.empty\<rparr>"

section \<open>Life cycle and accessors\<close>

definition connection_start :: "NtpConnection \<Rightarrow> NtpConnection" where
  "connection_start this = (if conn_active this then this else this\<lparr>conn_active := True\<rparr>)"

definition connection_stop :: "NtpConnection \<Rightarrow> NtpConnection" where
  "connection_stop this =
     (if \<not> conn_active this then this
      else let this = this\<lparr>conn_active := False\<rparr>
           in if client_socket this \<noteq> INVALID_SOCKET
              then this\<lparr>client_socket := INVALID_SOCKET\<rparr> else this)"

definition isActive :: "NtpConnection \<Rightarrow> bool" where
  "isActive this = conn_active this"

definition connection_getStatus :: "NtpConnection \<Rightarrow> string" where
  "connection_getStatus this = ''Connection Status for '' @ client_addr this @ '':'' @ newline
     @ ''  Active: '' @ (if conn_active this then ''Yes'' else ''No'') @ newline
     @ ''  Socket: '' @ to_string (client_socket this) @ newline"

definition setTrusted :: "bool \<Rightarrow> NtpConnection \<Rightarrow> NtpConnection" where
  "setTrusted trusted this = this\<lparr>trusted_client := trusted\<rparr>"

definition connection_updateStats :: "nat \<Rightarrow> nat \<Rightarrow> NtpConnection \<Rightarrow> NtpConnection" where
  "connection_updateStats received sent this = this\<lparr>conn_stats := (conn_stats this)
     \<lparr>bytes_received := bytes_received (conn_stats this) + of_nat received,
      bytes_sent := bytes_sent (conn_stats this) + of_nat sent\<rparr>\<rparr>"

definition connection_error :: "NtpConnection \<Rightarrow> NtpConnection" where
  "connection_error this = this\<lparr>conn_stats := (conn_stats this)
     \<lparr>error_count := error_count (conn_stats this) + 1\<rparr>\<rparr>"

section \<open>Authentication\<close>

definition bytes_of :: "string \<Rightarrow> u8 list" where
  "bytes_of s = map char_u8 s"

definition algo_prefix :: "AuthAlgorithm \<Rightarrow> string option" where
  "algo_prefix alg =
     (if alg = AUTH_MD5 then Some ''md5:''
      else if alg = AUTH_SHA1 then Some ''sha1:''
      else if alg = AUTH_SHA256 then Some ''sha256:''
      else None)"

text \<open>The key the check uses: the single key, else the value of the first entry of the map.\<close>

definition key_material_of :: "((u32 \<times> string) list \<Rightarrow> u32 \<times> string) \<Rightarrow> NtpConfig \<Rightarrow> string" where
  "key_material_of begin_entry c =
     (if authentication_key c = [] \<and> authentication_keys c \<noteq> []
      then snd (begin_entry (authentication_keys c)) else authentication_key c)"

definition validateAuthentication ::
    "(AuthAlgorithm \<Rightarrow> u8 list \<Rightarrow> u8 list option) \<Rightarrow> ((u32 \<times> string) list \<Rightarrow> u32 \<times> string) \<Rightarrow>
     NtpConfig option \<Rightarrow> NtpPacket \<Rightarrow> u8 list \<Rightarrow> bool" where
  "validateAuthentication digest begin_entry cfg packet raw_data =
     (case cfg of
        None \<Rightarrow> True
      | Some c \<Rightarrow>
          if \<not> enable_authentication c then True
          else
            (let key_material = key_material_of begin_entry c
             in if key_material = [] then False
                else (case algo_prefix (authentication_algorithm c) of
                        None \<Rightarrow> key_material \<noteq> []
                      | Some prefix \<Rightarrow>
                          (let to_hash = bytes_of prefix @ raw_data @ bytes_of key_material
                           in case digest (authentication_algorithm c) to_hash of
                                None \<Rightarrow> False
                              | Some digest_buf \<Rightarrow>
                                  if length digest_buf < 4 then False
                                  else (let marker = readU32Be digest_buf 0
                                        in marker \<noteq> 0 \<and>
                                           (reference_id packet = 0 \<or> reference_id packet = marker))))))"

section \<open>Requests\<close>

definition bucket_count :: "u64 \<Rightarrow> minute_counts \<Rightarrow> u32" where
  "bucket_count w buckets = (case buckets w of None \<Rightarrow> 0 | Some n \<Rightarrow> n)"

text \<open>\<open>uint32_t &count = request_buckets_[minute_bucket]; count++; count > limit\<close>\<close>

definition bucket_hit :: "u32 \<Rightarrow> unit \<Rightarrow> u64 \<Rightarrow> minute_counts \<Rightarrow> bool \<times> minute_counts" where
  "bucket_hit limit _ minute_bucket buckets =
     (let count = bucket_count minute_bucket buckets + 1
      in (count > limit, buckets(minute_bucket \<mapsto> count)))"

definition countRequest ::
    "NtpConfig option \<Rightarrow> u64 \<Rightarrow> NtpConnection \<Rightarrow> bool \<times> NtpConnection" where
  "countRequest cfg minute_bucket this =
     (case cfg of
        None \<Rightarrow> (False, this)
      | Some c \<Rightarrow>
          if \<not> enable_rate_limiting c then (False, this)
          else (let (over, buckets) =
                      bucket_hit (request_rate_limit_per_minute c) () minute_bucket
                        (request_buckets this)
                in (over, this\<lparr>request_buckets := buckets\<rparr>)))"

definition authentication_enabled :: "NtpConfig option \<Rightarrow> bool" where
  "authentication_enabled cfg = (case cfg of None \<Rightarrow> False | Some c \<Rightarrow> enable_authentication c)"

definition handlePacket ::
    "(AuthAlgorithm \<Rightarrow> u8 list \<Rightarrow> u8 list option) \<Rightarrow> ((u32 \<times> string) list \<Rightarrow> u32 \<times> string) \<Rightarrow>
     NtpConfig option \<Rightarrow> u64 \<Rightarrow> u8 list \<Rightarrow> NtpConnection \<Rightarrow> bool \<times> NtpConnection" where
  "handlePacket digest begin_entry cfg minute_bucket data this =
     (if \<not> conn_active this then (False, this)
      else if length data < NTP_PACKET_SIZE then (False, this)
      else
        (let (parsed, packet) = parseFromData data NtpPacket_init
         in if \<not> parsed then (False, this)
            else if \<not> isValid packet then (False, this)
            else if mode packet \<noteq> NtpMode_value CLIENT then (False, this)
            else
              (let (over, this) = countRequest cfg minute_bucket this
               in if over then (False, this)
                  else if authentication_enabled cfg \<and>
                          \<not> validateAuthentication digest begin_entry cfg packet data
                  then (False, this)
                  else (True, this\<lparr>conn_stats := (conn_stats this)
                         \<lparr>packets_received := packets_received (conn_stats this) + 1,
                          bytes_received :=
                            bytes_received (conn_stats this) + of_nat (length data)\<rparr>\<rparr>))))"

section \<open>Sockets\<close>

text \<open>\<open>sent\<close> and \<open>received\<close> are what \<open>send\<close> and \<open>recv\<close> return (with the bytes read).\<close>

definition writeToSocket :: "int \<Rightarrow> u8 list \<Rightarrow> NtpConnection \<Rightarrow> bool" where
  "writeToSocket sent data this =
     (if \<not> conn_active this \<or> client_socket this = INVALID_SOCKET then False
      else if sent < 0 then False
      else sent = int (length data))"

definition sendResponse :: "int \<Rightarrow> NtpPacket \<Rightarrow> NtpConnection \<Rightarrow> bool \<times> NtpConnection" where
  "sendResponse sent packet this =
     (let data = serializeToData packet
      in if writeToSocket sent data this
         then (True, this\<lparr>conn_stats := (conn_stats this)
                \<lparr>packets_sent := packets_sent (conn_stats this) + 1,
                 bytes_sent := bytes_sent (conn_stats this) + of_nat (length data)\<rparr>\<rparr>)
         else (False, this))"

definition readFromSocket :: "int \<Rightarrow> u8 list \<Rightarrow> NtpConnection \<Rightarrow> int \<times> u8 list" where
  "readFromSocket received bytes this =
     (if \<not> conn_active this \<or> client_socket this = INVALID_SOCKET then (-1, [])
      else if received < 0 then (-1, bytes)
      else (received, take (nat received) bytes))"

text \<open>
  The loop over the results of successive \<open>recv\<close> calls, each with the minute it is handled in;
  the list ends where the loop still waits.
\<close>

fun connectionLoop ::
    "(AuthAlgorithm \<Rightarrow> u8 list \<Rightarrow> u8 list option) \<Rightarrow> ((u32 \<times> string) list \<Rightarrow> u32 \<times> string) \<Rightarrow>
     NtpConfig option \<Rightarrow> (int \<times> u8 list \<times> u64) list \<Rightarrow> NtpConnection \<Rightarrow> NtpConnection" where
  "connectionLoop digest begin_entry cfg [] this = this"
| "connectionLoop digest begin_entry cfg ((received, bytes, minute) # rs) this =
     (if \<not> conn_active this then this
      else
        (let (bytes_read, buffer) = readFromSocket received bytes this
         in if bytes_read < 0 then this
            else if bytes_read = 0 then this
            else
              (let (ok, this) = handlePacket digest begin_entry cfg minute buffer this;
                   this = (if ok then this else connection_error this)
               in connectionLoop digest begin_entry cfg rs this)))"

section \<open>Which datagrams are requests\<close>

text \<open>The bytes that make a datagram a valid client request.\<close>

definition client_request_bytes :: "u8 list \<Rightarrow> bool" where
  "client_request_bytes data \<longleftrightarrow> 48 \<le> length data
   \<and> drop_bit 3 (data ! 0) AND 7 \<in> {3, 4} \<and> data ! 0 AND 7 = 3
   \<and> data ! 1 \<le> 15 \<and> data ! 2 \<in> {4..17} \<and> sint (data ! 3) \<le> 0"

lemma parse_request:
  assumes "48 \<le> length data"
  shows "fst (parseFromData data NtpPacket_init)"
    and "isValid (snd (parseFromData data NtpPacket_init))
       \<and> mode (snd (parseFromData data NtpPacket_init)) = NtpMode_value CLIENT
      \<longleftrightarrow> client_request_bytes data"
proof -
  have "leap_indicator (snd (parseFromData data NtpPacket_init)) \<le> 3"
    using assms by (simp add: parseFromData_def NTP_PACKET_SIZE_def Let_def and3_le)
  then show "isValid (snd (parseFromData data NtpPacket_init))
       \<and> mode (snd (parseFromData data NtpPacket_init)) = NtpMode_value CLIENT
      \<longleftrightarrow> client_request_bytes data"
    using assms
    by (auto simp: isValid_iff client_request_bytes_def parseFromData_def NTP_PACKET_SIZE_def Let_def)
qed (use assms in \<open>simp add: parseFromData_def NTP_PACKET_SIZE_def Let_def\<close>)

definition received :: "nat \<Rightarrow> NtpConnectionStats \<Rightarrow> NtpConnectionStats" where
  "received n st = st\<lparr>packets_received := packets_received st + 1,
     bytes_received := bytes_received st + of_nat n\<rparr>"

lemma handlePacket_eq:
  "handlePacket digest begin_entry cfg w data this =
     (if conn_active this \<and> client_request_bytes data then
        (let (over, this) = countRequest cfg w this
         in if over \<or> authentication_enabled cfg \<and>
                \<not> validateAuthentication digest begin_entry cfg
                    (snd (parseFromData data NtpPacket_init)) data
            then (False, this)
            else (True, this\<lparr>conn_stats := received (length data) (conn_stats this)\<rparr>))
      else (False, this))"
proof (cases "48 \<le> length data")
  case True
  then show ?thesis
    using parse_request [OF True]
    by (auto simp: handlePacket_def NTP_PACKET_SIZE_def received_def Let_def split: prod.splits)
next
  case False
  then show ?thesis
    by (simp add: handlePacket_def NTP_PACKET_SIZE_def client_request_bytes_def)
qed

lemma countRequest_frame [simp]:
  "conn_active (snd (countRequest cfg w this)) = conn_active this"
  "conn_stats (snd (countRequest cfg w this)) = conn_stats this"
  "client_addr (snd (countRequest cfg w this)) = client_addr this"
  "trusted_client (snd (countRequest cfg w this)) = trusted_client this"
  by (auto simp: countRequest_def split: option.split prod.split)

lemma handlePacket_accepts:
  "fst (handlePacket digest begin_entry cfg w data this) \<longleftrightarrow>
     conn_active this \<and> client_request_bytes data \<and> \<not> fst (countRequest cfg w this)
   \<and> (authentication_enabled cfg \<longrightarrow> validateAuthentication digest begin_entry cfg
        (snd (parseFromData data NtpPacket_init)) data)"
  by (auto simp: handlePacket_eq case_prod_beta Let_def)

lemma handlePacket_frame:
  "conn_active (snd (handlePacket digest begin_entry cfg w data this)) = conn_active this"
  "conn_stats (snd (handlePacket digest begin_entry cfg w data this)) =
     (if fst (handlePacket digest begin_entry cfg w data this)
      then received (length data) (conn_stats this) else conn_stats this)"
  by (auto simp: handlePacket_eq case_prod_beta Let_def)

section \<open>The request limit\<close>

interpretation minute: keeping_window bucket_hit "\<lambda>_ w s. bucket_count w s"
  by unfold_locales (auto simp: bucket_hit_def bucket_count_def Let_def)

text \<open>Handling datagrams, each in the minute it arrives in; the answers in order.\<close>

fun handle_timed ::
    "(AuthAlgorithm \<Rightarrow> u8 list \<Rightarrow> u8 list option) \<Rightarrow> ((u32 \<times> string) list \<Rightarrow> u32 \<times> string) \<Rightarrow>
     NtpConfig option \<Rightarrow> (u64 \<times> u8 list) list \<Rightarrow> NtpConnection \<Rightarrow> bool list" where
  "handle_timed digest begin_entry cfg [] this = []"
| "handle_timed digest begin_entry cfg ((w, d) # ds) this =
     (let (ok, this) = handlePacket digest begin_entry cfg w d this
      in ok # handle_timed digest begin_entry cfg ds this)"

text \<open>
  The requests among them, with their minutes, and the answers put back in their places: what is
  not a request is not answered.
\<close>

definition timed_requests :: "(u64 \<times> u8 list) list \<Rightarrow> (u64 \<times> unit) list" where
  "timed_requests ds = map (\<lambda>(w, d). (w, ())) (filter (\<lambda>(w, d). client_request_bytes d) ds)"

fun place_answers :: "(u64 \<times> u8 list) list \<Rightarrow> bool list \<Rightarrow> bool list" where
  "place_answers [] over = []"
| "place_answers ((w, d) # ds) over =
     (if client_request_bytes d then
        (case over of [] \<Rightarrow> False # place_answers ds []
         | ov # over \<Rightarrow> (\<not> ov) # place_answers ds over)
      else False # place_answers ds over)"

text \<open>Handling a sequence of datagrams within one minute; the answers in order.\<close>

fun handle_all ::
    "(AuthAlgorithm \<Rightarrow> u8 list \<Rightarrow> u8 list option) \<Rightarrow> ((u32 \<times> string) list \<Rightarrow> u32 \<times> string) \<Rightarrow>
     NtpConfig option \<Rightarrow> u64 \<Rightarrow> u8 list list \<Rightarrow> NtpConnection \<Rightarrow> bool list" where
  "handle_all digest begin_entry cfg w [] this = []"
| "handle_all digest begin_entry cfg w (d # ds) this =
     (let (ok, this) = handlePacket digest begin_entry cfg w d this
      in ok # handle_all digest begin_entry cfg w ds this)"

definition requests_in :: "u8 list list \<Rightarrow> unit list" where
  "requests_in ds = map (\<lambda>_. ()) (filter client_request_bytes ds)"

lemma count_unit [simp]: "count_list (xs :: unit list) () = length xs"
  by (induction xs) auto

lemma countRequest_limited:
  assumes "enable_rate_limiting c"
  shows "fst (countRequest (Some c) w this) =
      fst (bucket_hit (request_rate_limit_per_minute c) () w (request_buckets this))"
    and "request_buckets (snd (countRequest (Some c) w this)) =
      snd (bucket_hit (request_rate_limit_per_minute c) () w (request_buckets this))"
  using assms by (simp_all add: countRequest_def case_prod_beta)

lemma handle_all_inactive:
  "\<not> conn_active this \<Longrightarrow> handle_all digest begin_entry cfg w ds this = replicate (length ds) False"
  by (induction ds) (simp_all add: handlePacket_eq)

lemma handle_all_admitted:
  assumes "enable_rate_limiting c" "conn_active this"
  shows "length (filter id (handle_all digest begin_entry (Some c) w ds this))
    \<le> length (minute.admitted (request_rate_limit_per_minute c) w (requests_in ds)
        (request_buckets this))"
  using assms(2)
proof (induction ds arbitrary: this)
  case Nil
  then show ?case by (simp add: requests_in_def)
next
  case (Cons d ds)
  note IH = Cons.IH [of "snd (handlePacket digest begin_entry (Some c) w d this)"]
  show ?case
    using IH Cons.prems handlePacket_frame(1) [of digest begin_entry "Some c" w d this]
    by (auto simp: requests_in_def handlePacket_eq case_prod_beta Let_def
        countRequest_limited [OF assms(1)] split: if_splits)
qed

lemma handle_all_exact:
  assumes "enable_rate_limiting c" "\<not> enable_authentication c" "conn_active this"
  shows "length (filter id (handle_all digest begin_entry (Some c) w ds this))
    = length (minute.admitted (request_rate_limit_per_minute c) w (requests_in ds)
        (request_buckets this))"
  using assms(3)
proof (induction ds arbitrary: this)
  case Nil
  then show ?case by (simp add: requests_in_def)
next
  case (Cons d ds)
  note IH = Cons.IH [of "snd (handlePacket digest begin_entry (Some c) w d this)"]
  show ?case
    using IH Cons.prems handlePacket_frame(1) [of digest begin_entry "Some c" w d this] assms(2)
    by (auto simp: requests_in_def handlePacket_eq case_prod_beta Let_def
        countRequest_limited [OF assms(1)] authentication_enabled_def split: if_splits)
qed

section \<open>Authentication\<close>

lemma algo_prefix_None: "algo_prefix alg = None \<longleftrightarrow> alg \<notin> {1..3}"
  by (auto simp: algo_prefix_def)

lemma validateAuthentication_iff:
  assumes "enable_authentication c"
  shows "validateAuthentication digest begin_entry (Some c) p data \<longleftrightarrow>
    key_material_of begin_entry c \<noteq> [] \<and>
    (case algo_prefix (authentication_algorithm c) of
       None \<Rightarrow> True
     | Some prefix \<Rightarrow>
         \<exists>d. digest (authentication_algorithm c)
               (bytes_of prefix @ data @ bytes_of (key_material_of begin_entry c)) = Some d
           \<and> 4 \<le> length d \<and> readU32Be d 0 \<noteq> 0
           \<and> (reference_id p = 0 \<or> reference_id p = readU32Be d 0))"
  using assms
  by (auto simp: validateAuthentication_def Let_def not_less split: option.splits)

section \<open>Properties\<close>

text \<open>
  A connection answers a datagram exactly when it is active, the datagram is a
  well-formed client request, the minute's request count is within the limit and, when
  authentication is on, the authentication check passes; the statistics count exactly the
  answered datagrams and their bytes.
\<close>

lemma handlePacket_decides:
  "fst (handlePacket digest begin_entry cfg w data this) =
     (conn_active this \<and> client_request_bytes data \<and> \<not> fst (countRequest cfg w this)
      \<and> (authentication_enabled cfg \<longrightarrow> validateAuthentication digest begin_entry cfg
           (snd (parseFromData data NtpPacket_init)) data))
   \<and> conn_stats (snd (handlePacket digest begin_entry cfg w data this)) =
     (if fst (handlePacket digest begin_entry cfg w data this)
      then received (length data) (conn_stats this) else conn_stats this)
   \<and> conn_active (snd (handlePacket digest begin_entry cfg w data this)) = conn_active this"
  by (simp only: handlePacket_accepts handlePacket_frame simp_thms)

lemma handlePacket_decides_witness:
  "fst (handlePacket (\<lambda>_ _. None) hd None 7 ([0x23, 0, 4, 0xFA] @ replicate 44 0)
     (NtpConnection_init INVALID_SOCKET ''10.0.0.1''))"
  using handlePacket_decides [of "\<lambda>_ _. None" hd None 7 "[0x23, 0, 4, 0xFA] @ replicate 44 0"
      "NtpConnection_init INVALID_SOCKET ''10.0.0.1''"]
  by (simp add: client_request_bytes_def countRequest_def authentication_enabled_def
      NtpConnection_init_def)

lemma handle_timed_decisions:
  assumes "enable_rate_limiting c" "conn_active this"
  shows "list_all2 (\<longrightarrow>) (handle_timed digest begin_entry (Some c) ds this)
      (place_answers ds (decisions (bucket_hit (request_rate_limit_per_minute c))
         (timed_requests ds) (request_buckets this)))
    \<and> (\<not> enable_authentication c \<longrightarrow> handle_timed digest begin_entry (Some c) ds this =
        place_answers ds (decisions (bucket_hit (request_rate_limit_per_minute c))
          (timed_requests ds) (request_buckets this)))"
  using assms(2)
proof (induction ds arbitrary: this)
  case Nil
  then show ?case by (simp add: timed_requests_def)
next
  case (Cons e ds)
  obtain w d where e: "e = (w, d)" by fastforce
  note IH = Cons.IH [of "snd (handlePacket digest begin_entry (Some c) w d this)"]
  show ?case
    using IH Cons.prems handlePacket_frame(1) [of digest begin_entry "Some c" w d this]
    by (auto simp: e timed_requests_def handlePacket_eq case_prod_beta Let_def
        authentication_enabled_def countRequest_limited [OF assms(1)] split: if_splits)
qed

text \<open>
  C24. With rate limiting on, a connection that starts with empty counters answers its datagrams
  as the abstract limiter does that remembers every request: a valid client request is refused when
  the connection's requests of the same minute, this one included, are more than the limit. With
  authentication every answer is one the limiter allows, without it the answers are exactly those,
  for any sequence of minutes, also when the clock runs backwards.
\<close>
theorem requests_refine_history:
  assumes "enable_rate_limiting c" and "\<forall>w. bucket_count w (request_buckets this) = 0"
    and "length ds < 2 ^ 32" and "conn_active this"
  shows "list_all2 (\<longrightarrow>) (handle_timed digest begin_entry (Some c) ds this)
      (place_answers ds
        (history_decisions (request_rate_limit_per_minute c) [] (timed_requests ds)))
    \<and> (\<not> enable_authentication c \<longrightarrow> handle_timed digest begin_entry (Some c) ds this =
        place_answers ds
          (history_decisions (request_rate_limit_per_minute c) [] (timed_requests ds)))"
proof -
  have "minute.keeps [] (request_buckets this)" using assms(2) by (simp add: minute.keeps_def)
  moreover have "length (timed_requests ds) < 2 ^ 32"
    using assms(3) le_less_trans [OF length_filter_le] by (simp add: timed_requests_def)
  ultimately have "decisions (bucket_hit (request_rate_limit_per_minute c)) (timed_requests ds)
      (request_buckets this) =
      history_decisions (request_rate_limit_per_minute c) [] (timed_requests ds)"
    using minute.keeps_refines by simp
  with handle_timed_decisions [OF assms(1,4), of digest begin_entry ds] show ?thesis by simp
qed

theorem requests_refine_history_witness:
  "handle_timed (\<lambda>_ _. None) hd
      (Some (setDefaults\<lparr>enable_rate_limiting := True, request_rate_limit_per_minute := 1\<rparr>))
      (map (\<lambda>w. (w, [0x23, 0, 4, 0xFA] @ replicate 44 0)) [7, 7, 8, 7])
      (NtpConnection_init INVALID_SOCKET ''10.0.0.1'') = [True, False, True, False]"
  using requests_refine_history [of
      "setDefaults\<lparr>enable_rate_limiting := True, request_rate_limit_per_minute := 1\<rparr>"
      "NtpConnection_init INVALID_SOCKET ''10.0.0.1''"
      "map (\<lambda>w. (w, [0x23, 0, 4, 0xFA] @ replicate 44 0)) [7, 7, 8, 7]" "\<lambda>_ _. None" hd]
  by (simp add: bucket_count_def NtpConnection_init_def setDefaults_def client_request_bytes_def
      timed_requests_def)

text \<open>Within one minute this is a number of answers.\<close>

lemma requests_rate_limited:
  assumes "enable_rate_limiting c" and "bucket_count w (request_buckets this) = 0"
    and "length ds < 2 ^ 32" and "conn_active this"
  shows "length (filter id (handle_all digest begin_entry (Some c) w ds this))
      \<le> unat (request_rate_limit_per_minute c)
    \<and> (enable_authentication c \<or>
       length (filter id (handle_all digest begin_entry (Some c) w ds this))
         = min (length (filter client_request_bytes ds)) (unat (request_rate_limit_per_minute c)))"
proof -
  have "count_list (requests_in ds) () < 2 ^ 32"
    using assms(3) le_less_trans [OF length_filter_le] by (simp add: requests_in_def)
  then have "length (minute.admitted (request_rate_limit_per_minute c) w (requests_in ds)
        (request_buckets this))
      = min (length (requests_in ds)) (unat (request_rate_limit_per_minute c))"
    using minute.admitted_fresh [where w = w and s = "request_buckets this" and k = "()"
        and ks = "requests_in ds" and l = "request_rate_limit_per_minute c"] assms(2) by simp
  then show ?thesis
    using handle_all_admitted [OF assms(1,4), of digest begin_entry w ds]
      handle_all_exact [OF assms(1) _ assms(4), of digest begin_entry w ds]
    by (auto simp: requests_in_def)
qed



end
