(* ===== verification/Upstream.thy ===== *)
theory Upstream
  imports Packet Config
begin

text \<open>
  \<open>core/upstream_sync.hpp\<close> and \<open>core/upstream_sync.cpp\<close>: one query of an upstream NTP server,
  and \<open>UpstreamSyncManager\<close>, which queries all configured servers, keeps the answer with the
  lowest delay and derives the clock offset and the stratum the daemon announces.

  What the operating system answers during a query is a \<open>query_env\<close>: the addresses the
  resolver found (\<^const>\<open>None\<close> when it failed), each with its family and the result of
  sending to it, whether a socket could be made, the datagram received (\<^const>\<open>None\<close> on a
  timeout or an error), and the readings of the clock. The \<open>i\<close>-th query of a round sees the
  \<open>i\<close>-th environment. Log output and the mutex are left out: every critical section is one
  operation of the model.
\<close>

section \<open>One query\<close>

record UpstreamSyncResult =
  success :: bool
  server :: string
  offset_us :: int
  delay_us :: int
  result_stratum :: u8

definition UpstreamSyncResult_init :: UpstreamSyncResult where
  "UpstreamSyncResult_init =
     \<lparr>success = False, server = [], offset_us = 0, delay_us = 0, result_stratum = 0\<rparr>"

record query_env =
  resolved :: "(bool \<times> int) list option"
  socket_ok :: bool
  request_time :: time_point
  reply :: "u8 list option"
  reply_time :: time_point

text \<open>\<open>struct timeval\<close> of the socket timeouts: whole seconds and microseconds.\<close>

definition createUdpSocket_timeval :: "int \<Rightarrow> int \<times> int" where
  "createUdpSocket_timeval t =
     (let ms = signed_take_bit 31 t in (ms sdiv 1000, (ms smod 1000) * 1000))"

text \<open>
  The socket of a query: what \<open>socket\<close> returned, and the options set on it, the receive and the
  send timeout.
\<close>

datatype socket_option = SO_RCVTIMEO "int \<times> int" | SO_SNDTIMEO "int \<times> int"

definition createUdpSocket :: "int \<Rightarrow> int \<Rightarrow> int \<times> socket_option list" where
  "createUdpSocket sock t =
     (if sock = -1 then (-1, [])
      else (let tv = createUdpSocket_timeval t in (sock, [SO_RCVTIMEO tv, SO_SNDTIMEO tv])))"

text \<open>
  A validated timeout is a proper \<open>struct timeval\<close>, so a query ends; zero, and a multiple of
  \<open>2 ^ 32\<close> milliseconds, is the time value that means no timeout at all.
\<close>

lemma query_timeout:
  "0 < t \<Longrightarrow> t < 2 ^ 31 \<Longrightarrow> createUdpSocket_timeval t = (t div 1000, t mod 1000 * 1000)
     \<and> createUdpSocket_timeval t \<noteq> (0, 0)"
  "createUdpSocket_timeval (2 ^ 32 * k) = (0, 0)"
proof -
  assume t: "0 < t" "t < 2 ^ 31"
  then have "signed_take_bit 31 t = t" by (intro signed_take_bit_int_eq_self) auto
  with t have "createUdpSocket_timeval t = (t div 1000, t mod 1000 * 1000)"
    by (simp add: createUdpSocket_timeval_def signed_divide_int_def signed_modulo_int_def Let_def)
  moreover have "t = 1000 * (t div 1000) + t mod 1000" by simp
  ultimately show "createUdpSocket_timeval t = (t div 1000, t mod 1000 * 1000)
     \<and> createUdpSocket_timeval t \<noteq> (0, 0)"
    using t by auto
next
  have "signed_take_bit 31 (2 ^ 32 * k :: int) = signed_take_bit 31 (0 :: int)"
    unfolding signed_take_bit_eq_iff_take_bit_eq by (simp add: take_bit_eq_mod)
  then show "createUdpSocket_timeval (2 ^ 32 * k) = (0, 0)"
    by (simp add: createUdpSocket_timeval_def signed_divide_int_def signed_modulo_int_def Let_def)
qed

text \<open>The loop over the address list: send until one address takes the whole request.\<close>

fun send_to_any :: "nat \<Rightarrow> (bool \<times> int) list \<Rightarrow> bool" where
  "send_to_any n [] = False"
| "send_to_any n ((is_inet, sent) # ais) =
     (if \<not> is_inet then send_to_any n ais
      else if sent = int n then True
      else send_to_any n ais)"

definition queryUpstreamServer :: "query_env \<Rightarrow> string \<Rightarrow> UpstreamSyncResult" where
  "queryUpstreamServer env host =
     (let result = UpstreamSyncResult_init\<lparr>server := host\<rparr>
      in case resolved env of
           None \<Rightarrow> result
         | Some res \<Rightarrow>
             if res = [] then result
             else if \<not> socket_ok env then result
             else
               (let request = createClientRequest (request_time env);
                    request_data = serializeToData request;
                    t1 = transmit_ts request
                in if \<not> send_to_any (length request_data) res then result
                   else (case reply env of
                           None \<Rightarrow> result
                         | Some bytes \<Rightarrow>
                             (let response_data = take NTP_PACKET_SIZE bytes
                              in if length response_data < NTP_PACKET_SIZE then result
                                 else
                                   (let (parsed, response) =
                                          parseFromData response_data NtpPacket_init
                                    in if \<not> parsed \<or> \<not> isValid response then result
                                       else if mode response \<noteq> NtpMode_value SERVER then result
                                       else
                                         (let t4 = fromSystemTime (reply_time env)
                                          in result
                                             \<lparr>offset_us := calculateOffset t1 (receive_ts response)
                                                (transmit_ts response) t4,
                                              delay_us := calculateRoundTripDelay t1
                                                (receive_ts response) (transmit_ts response) t4,
                                              result_stratum := stratum response,
                                              success := True\<rparr>))))))"

section \<open>The manager\<close>

record UpstreamSyncManager =
  sync_running :: bool
  clock_offset_us :: int
  last_delay_us :: int
  upstream_stratum :: u8
  synced_upstream :: string
  last_sync_time :: time_point
  synced :: bool

definition UpstreamSyncManager_init :: UpstreamSyncManager where
  "UpstreamSyncManager_init = \<lparr>sync_running = False, clock_offset_us = 0, last_delay_us = 0,
     upstream_stratum = 0, synced_upstream = [], last_sync_time = 0, synced = False\<rparr>"

text \<open>\<open>start\<close> and \<open>stop\<close>; the flag they return says whether the thread is created or joined.\<close>

definition sync_start :: "UpstreamSyncManager \<Rightarrow> bool \<times> UpstreamSyncManager" where
  "sync_start this = (if sync_running this then (False, this)
                      else (True, this\<lparr>sync_running := True\<rparr>))"

definition sync_stop :: "UpstreamSyncManager \<Rightarrow> bool \<times> UpstreamSyncManager" where
  "sync_stop this = (if \<not> sync_running this then (False, this)
                     else (True, this\<lparr>sync_running := False\<rparr>))"

definition keep_best :: "UpstreamSyncResult \<Rightarrow> UpstreamSyncResult \<Rightarrow> UpstreamSyncResult" where
  "keep_best attempt best =
     (if success attempt
      then (if \<not> success best \<or> delay_us attempt < delay_us best then attempt else best)
      else best)"

text \<open>The attempts of a round, in the order of the configured servers.\<close>

definition attempts :: "(nat \<Rightarrow> query_env) \<Rightarrow> string list \<Rightarrow> UpstreamSyncResult list" where
  "attempts envs servers = map (\<lambda>(i, s). queryUpstreamServer (envs i) s) (enumerate 0 servers)"

definition syncOnce ::
    "(nat \<Rightarrow> query_env) \<Rightarrow> time_point \<Rightarrow> NtpConfig option \<Rightarrow> UpstreamSyncManager \<Rightarrow>
     UpstreamSyncResult \<times> UpstreamSyncManager" where
  "syncOnce envs now cfg this =
     (case cfg of
        None \<Rightarrow> (UpstreamSyncResult_init, this)
      | Some c \<Rightarrow>
          if upstream_servers c = [] then (UpstreamSyncResult_init, this)
          else
            (let best = fold keep_best (attempts envs (upstream_servers c)) UpstreamSyncResult_init
             in if success best
                then (best, this\<lparr>clock_offset_us := offset_us best,
                                 last_delay_us := delay_us best,
                                 upstream_stratum := result_stratum best,
                                 synced_upstream := server best,
                                 last_sync_time := now,
                                 synced := True\<rparr>)
                else (best, this)))"

text \<open>
  \<open>syncLoop\<close>: a first round at once, then one per interval until \<open>running_\<close> is found cleared
  after a sleep. The list gives, for every wake-up, whether the flag was still set, and the
  environments and time of the round that follows.
\<close>

fun syncLoop ::
    "NtpConfig option \<Rightarrow> (bool \<times> (nat \<Rightarrow> query_env) \<times> time_point) list \<Rightarrow>
     UpstreamSyncManager \<Rightarrow> UpstreamSyncManager" where
  "syncLoop cfg [] this = this"
| "syncLoop cfg ((still_running, envs, now) # rounds) this =
     (if \<not> still_running then this
      else syncLoop cfg rounds (snd (syncOnce envs now cfg this)))"

definition sync_thread ::
    "(nat \<Rightarrow> query_env) \<Rightarrow> time_point \<Rightarrow> NtpConfig option \<Rightarrow>
     (bool \<times> (nat \<Rightarrow> query_env) \<times> time_point) list \<Rightarrow> UpstreamSyncManager \<Rightarrow>
     UpstreamSyncManager" where
  "sync_thread envs now cfg rounds this = syncLoop cfg rounds (snd (syncOnce envs now cfg this))"

definition clockOffsetUs :: "UpstreamSyncManager \<Rightarrow> int" where
  "clockOffsetUs this = clock_offset_us this"

definition clamp :: "int \<Rightarrow> int \<Rightarrow> int \<Rightarrow> int" where
  "clamp v lo hi = (if v < lo then lo else if hi < v then hi else v)"

definition effectiveStratum :: "u8 \<Rightarrow> UpstreamSyncManager \<Rightarrow> u8" where
  "effectiveStratum configured_stratum this =
     (if \<not> synced this \<or> upstream_stratum this = 0 then configured_stratum
      else (let derived = uint (upstream_stratum this) + 1 in word_of_int (clamp derived 1 15)))"

definition syncedUpstream :: "UpstreamSyncManager \<Rightarrow> string" where
  "syncedUpstream this = synced_upstream this"

definition lastSyncTime :: "UpstreamSyncManager \<Rightarrow> time_point" where
  "lastSyncTime this = last_sync_time this"

definition isSynced :: "UpstreamSyncManager \<Rightarrow> bool" where
  "isSynced this = synced this"

definition statusSummary :: "UpstreamSyncManager \<Rightarrow> string" where
  "statusSummary this =
     ''  Upstream Sync: '' @ (if synced this then ''Synced'' else ''Not synced'') @ newline @
     (if synced this then
        ''  Synced Upstream: '' @ synced_upstream this @ newline @
        ''  Clock Offset (us): '' @ to_string (clock_offset_us this) @ newline @
        ''  Last RTT (us): '' @ to_string (last_delay_us this) @ newline @
        ''  Upstream Stratum: '' @ to_string (uint (upstream_stratum this)) @ newline
      else [])"

section \<open>The choice of the best answer\<close>

text \<open>
  The contract of a running choice: the kept value is the first successful one of least
  delay.
\<close>

lemma fold_keep_best:
  assumes "best = fold keep_best rs b"
  shows "success best \<longleftrightarrow> success b \<or> (\<exists>r \<in> set rs. success r)"
    and "success best \<Longrightarrow> best \<in> insert b (set rs)"
    and "\<forall>r \<in> insert b (set rs). success r \<longrightarrow> delay_us best \<le> delay_us r"
  using assms
proof (induction rs arbitrary: b)
  case Nil
  { case 1 then show ?case by simp }
  { case 2 then show ?case by simp }
  { case 3 then show ?case by simp }
next
  case (Cons r rs)
  { case 1
    then show ?case using Cons.IH(1) [of "keep_best r b"] by (auto simp: keep_best_def) }
  { case 2
    then show ?case using Cons.IH(2) [of "keep_best r b"]
      by (auto simp: keep_best_def split: if_splits) }
  { case 3
    then show ?case using Cons.IH(3) [of "keep_best r b"] 
      by (auto simp: keep_best_def split: if_splits) }
qed

lemma server_query [simp]: "server (queryUpstreamServer env host) = host"
  by (simp add: queryUpstreamServer_def Let_def UpstreamSyncResult_init_def
      split: option.split prod.split)

lemma server_attempts: "map server (attempts envs servers) = servers"
  by (simp add: attempts_def case_prod_beta comp_def)

section \<open>When a query succeeds\<close>

definition answers :: "query_env \<Rightarrow> NtpPacket \<Rightarrow> bool" where
  "answers env p \<longleftrightarrow> socket_ok env \<and> pred_option (send_to_any 48) (resolved env) \<and> resolved env \<noteq> None
     \<and> (\<exists>bytes. reply env = Some bytes \<and> 48 \<le> length bytes
          \<and> p = snd (parseFromData (take 48 bytes) NtpPacket_init))
     \<and> isValid p \<and> mode p = 4"

lemma query_answered:
  assumes "answers env p"
  shows "queryUpstreamServer env host = \<lparr>success = True, server = host,
    offset_us = calculateOffset (fromSystemTime (request_time env)) (receive_ts p) (transmit_ts p)
      (fromSystemTime (reply_time env)),
    delay_us = calculateRoundTripDelay (fromSystemTime (request_time env)) (receive_ts p)
      (transmit_ts p) (fromSystemTime (reply_time env)),
    result_stratum = stratum p\<rparr>"
proof -
  obtain bytes where bytes: "reply env = Some bytes" "48 \<le> length bytes"
      and p: "p = snd (parseFromData (take 48 bytes) NtpPacket_init)"
    and valid: "isValid p" "mode p = 4" and sock: "socket_ok env"
    using assms by (auto simp: answers_def)
  obtain res where res: "resolved env = Some res" "send_to_any 48 res"
    using assms by (auto simp: answers_def)
  then have "res \<noteq> []" by auto
  moreover have "parseFromData (take 48 bytes) NtpPacket_init = (True, p)"
    using bytes by (simp add: p parseFromData_def NTP_PACKET_SIZE_def Let_def)
  ultimately show ?thesis
    using bytes valid sock res
    by (simp add: queryUpstreamServer_def NTP_PACKET_SIZE_def createClientRequest_def Let_def
        UpstreamSyncResult_init_def)
qed

lemma query_unanswered:
  assumes "\<nexists>p. answers env p"
  shows "queryUpstreamServer env host = UpstreamSyncResult_init\<lparr>server := host\<rparr>"
  using assms
  by (auto simp: queryUpstreamServer_def answers_def NTP_PACKET_SIZE_def Let_def parseFromData_def
      split: option.split prod.split)

lemma success_query: "success (queryUpstreamServer env host) \<longleftrightarrow> (\<exists>p. answers env p)"
  using query_answered query_unanswered by (fastforce simp: UpstreamSyncResult_init_def)

lemma effectiveStratum_value:
  "uint (effectiveStratum configured m) =
      (if synced m \<and> upstream_stratum m \<noteq> 0 then min 15 (uint (upstream_stratum m) + 1)
       else uint configured)"
proof -
  have "0 \<le> uint (upstream_stratum m)" by simp
  then have "uint (word_of_int (clamp (uint (upstream_stratum m) + 1) 1 15) :: u8)
      = min 15 (uint (upstream_stratum m) + 1)"
    by (auto simp: clamp_def uint_word_of_int min_def)
  then show ?thesis by (simp add: effectiveStratum_def Let_def)
qed

lemma effectiveStratum_le: "configured \<le> 15 \<Longrightarrow> effectiveStratum configured m \<le> 15"
  using effectiveStratum_value [of configured m] by (auto simp: word_le_def)

section \<open>Properties\<close>

text \<open>
  C30. A query of an upstream server succeeds exactly when a request went out and a datagram of
  at least 48 bytes that parses to a valid mode 4 packet came back; the offset and delay are then
  computed from the request and reply times and the packet's two timestamps, and fit the bounds
  of the timestamp arithmetic. Nothing compares the originate timestamp of the reply with the
  request, nor looks at its leap indicator or a stratum of zero.
\<close>
theorem query_result:
  "(success (queryUpstreamServer env host) \<longleftrightarrow> (\<exists>p. answers env p))
   \<and> \<bar>offset_us (queryUpstreamServer env host)\<bar> \<le> 4294967296000000
   \<and> (answers env p \<longrightarrow>
        offset_us (queryUpstreamServer env host) =
          calculateOffset (fromSystemTime (request_time env)) (receive_ts p) (transmit_ts p)
            (fromSystemTime (reply_time env))
      \<and> delay_us (queryUpstreamServer env host) =
          calculateRoundTripDelay (fromSystemTime (request_time env)) (receive_ts p) (transmit_ts p)
            (fromSystemTime (reply_time env))
      \<and> result_stratum (queryUpstreamServer env host) = stratum p)"
proof (cases "\<exists>p. answers env p")
  case True
  then obtain q where "answers env q" ..
  from query_answered [OF this, of host] calculateOffset_bound
  have "\<bar>offset_us (queryUpstreamServer env host)\<bar> \<le> 4294967296000000" by simp
  then show ?thesis using query_answered [of env p host] by (auto simp: success_query)
next
  case False
  then show ?thesis
    using query_unanswered [OF False, of host]
    by (auto simp: success_query UpstreamSyncResult_init_def)
qed

definition example_env :: query_env where
  "example_env = \<lparr>resolved = Some [(False, 0), (True, 48)], socket_ok = True, request_time = 0,
     reply = Some ([0x24, 2, 4, 0xFA] @ replicate 44 0), reply_time = 1000\<rparr>"

theorem query_result_witness:
  "success (queryUpstreamServer example_env ''pool.ntp.org'')
   \<and> result_stratum (queryUpstreamServer example_env ''pool.ntp.org'') = 2"
proof -
  define p where "p = snd (parseFromData ([0x24, 2, 4, 0xFA] @ replicate 44 0) NtpPacket_init)"
  have "answers example_env p"
    by (simp add: answers_def example_env_def p_def isValid_iff parseFromData_def
        NTP_PACKET_SIZE_def Let_def)
  moreover have "stratum p = 2" by (simp add: p_def parseFromData_def NTP_PACKET_SIZE_def Let_def)
  ultimately show ?thesis using query_result [of example_env "''pool.ntp.org''" p] by auto
qed

text \<open>
  C15. A synchronisation round succeeds exactly when one of the configured servers answered; it
  then keeps an answer of least delay, from one of those servers, and takes over its offset, delay
  and stratum, and the announced stratum becomes one more than the server's, at most 15 (the
  configured one, if the server gave none); a round without an answer leaves the manager as it was.
\<close>
theorem sync_keeps_least_delay:
  assumes "syncOnce envs now (Some c) this = (best, this')"
    and "rs = attempts envs (upstream_servers c)"
  shows "(success best \<longleftrightarrow> (\<exists>r \<in> set rs. success r))
    \<and> (if success best
       then best \<in> set rs \<and> server best \<in> set (upstream_servers c)
          \<and> (\<forall>r \<in> set rs. success r \<longrightarrow> delay_us best \<le> delay_us r)
          \<and> synced this' \<and> clock_offset_us this' = offset_us best
          \<and> last_delay_us this' = delay_us best \<and> upstream_stratum this' = result_stratum best
          \<and> synced_upstream this' = server best \<and> last_sync_time this' = now
          \<and> uint (effectiveStratum configured this') =
              (if result_stratum best = 0 then uint configured
               else min 15 (uint (result_stratum best) + 1))
       else this' = this)"
proof (cases "upstream_servers c = []")
  case True
  then show ?thesis using assms by (auto simp: syncOnce_def attempts_def UpstreamSyncResult_init_def)
next
  case False
  with assms have best: "best = fold keep_best rs UpstreamSyncResult_init"
    by (auto simp: syncOnce_def Let_def split: if_splits)
  have init: "\<not> success UpstreamSyncResult_init" by (simp add: UpstreamSyncResult_init_def)
  have "server best \<in> set (upstream_servers c)" if "best \<in> set rs"
    using that server_attempts [of envs "upstream_servers c"] assms(2)
    by (metis imageI image_set)
  then show ?thesis
    using fold_keep_best [OF best] init False assms(1) best assms(2)
    by (auto simp: syncOnce_def Let_def effectiveStratum_value split: if_splits)
qed

theorem sync_keeps_least_delay_witness:
  "synced (snd (syncOnce (\<lambda>_. example_env) 5 (Some (setDefaults\<lparr>upstream_servers := [''a'']\<rparr>))
     UpstreamSyncManager_init)) \<longleftrightarrow> success (queryUpstreamServer example_env ''a'')"
proof -
  obtain best m where r: "syncOnce (\<lambda>_. example_env) 5
      (Some (setDefaults\<lparr>upstream_servers := [''a'']\<rparr>)) UpstreamSyncManager_init = (best, m)"
    by fastforce
  show ?thesis using sync_keeps_least_delay [OF r refl, where configured = 2] r
    by (auto simp: attempts_def UpstreamSyncManager_init_def split: if_splits)
qed

end
