(* ===== verification/LogFiles.thy ===== *)
theory LogFiles
  imports CppStd Config
begin

text \<open>
  \<open>Logger::Impl\<close> of \<open>utils/logger.cpp\<close>: the level filter and the destinations, the plain and
  the JSON message format, and the rotation of log files.

  \<^item> The outside world is a record: the lines written to the console and to syslog, and the
    file system as a map from names to contents. Renaming and removing succeed on files that
    exist; \<open>writable\<close> says which names can be opened for appending.
  \<^item> The time stamp and the thread identifier of a message are arguments.
\<close>

section \<open>Levels and destinations\<close>

definition levelToString :: "LogLevel \<Rightarrow> string" where
  "levelToString level =
     (if level = LOG_LEVEL_DEBUG then ''DEBUG''
      else if level = LOG_LEVEL_INFO then ''INFO''
      else if level = LOG_LEVEL_WARNING then ''WARNING''
      else if level = LOG_LEVEL_ERROR then ''ERROR''
      else if level = LOG_LEVEL_FATAL then ''FATAL''
      else ''UNKNOWN'')"

text \<open>The priorities are those of \<open>syslog.h\<close>: debug 7, info 6, warning 4, err 3, crit 2.\<close>

definition levelToSyslogPriority :: "LogLevel \<Rightarrow> int" where
  "levelToSyslogPriority level =
     (if level = LOG_LEVEL_DEBUG then 7
      else if level = LOG_LEVEL_INFO then 6
      else if level = LOG_LEVEL_WARNING then 4
      else if level = LOG_LEVEL_ERROR then 3
      else if level = LOG_LEVEL_FATAL then 2
      else 6)"

datatype LogDestination = CONSOLE | FILE | SYSLOG | BOTH | MULTIPLE

record Logger =
  logger_level :: LogLevel
  logger_destination :: LogDestination
  logger_file :: string
  logger_syslog :: bool
  syslog_facility :: int
  structured_json :: bool
  rotate_max_size_bytes :: u64
  rotate_max_files :: u32

definition LOG_DAEMON :: int where
  "LOG_DAEMON = 24"

definition Logger_init :: Logger where
  "Logger_init = \<lparr>logger_level = LOG_LEVEL_INFO, logger_destination = CONSOLE, logger_file = [],
     logger_syslog = False, syslog_facility = LOG_DAEMON, structured_json = False,
     rotate_max_size_bytes = 0, rotate_max_files = 5\<rparr>"

definition setLevel :: "LogLevel \<Rightarrow> Logger \<Rightarrow> Logger" where
  "setLevel level this = this\<lparr>logger_level := level\<rparr>"

definition setDestination :: "LogDestination \<Rightarrow> Logger \<Rightarrow> Logger" where
  "setDestination destination this = this\<lparr>logger_destination := destination\<rparr>"

definition setLogFile :: "string \<Rightarrow> Logger \<Rightarrow> Logger" where
  "setLogFile filename this = this\<lparr>logger_file := filename\<rparr>"

definition setLogRotation :: "u64 \<Rightarrow> u32 \<Rightarrow> Logger \<Rightarrow> Logger" where
  "setLogRotation max_size_bytes max_files this =
     this\<lparr>rotate_max_size_bytes := max_size_bytes, rotate_max_files := max 1 max_files\<rparr>"

definition setSyslog :: "bool \<Rightarrow> int \<Rightarrow> Logger \<Rightarrow> Logger" where
  "setSyslog enable facility this = this\<lparr>logger_syslog := enable, syslog_facility := facility\<rparr>"

definition setStructuredJson :: "bool \<Rightarrow> Logger \<Rightarrow> Logger" where
  "setStructuredJson enable this = this\<lparr>structured_json := enable\<rparr>"

section \<open>Message formats\<close>

definition backslash :: char where
  "backslash = CHR 0x5C"

definition quote :: char where
  "quote = CHR 0x22"

text \<open>
  The loop that escapes in place: at a quote or a backslash it inserts a backslash at \<open>i\<close> and
  steps over both.
\<close>

function escape_loop :: "nat \<Rightarrow> string \<Rightarrow> string" where
  "escape_loop i escaped =
     (if i < length escaped then
        (if escaped ! i = backslash \<or> escaped ! i = quote
         then escape_loop (i + 2) (take i escaped @ backslash # drop i escaped)
         else escape_loop (i + 1) escaped)
      else escaped)"
  by pat_completeness auto
termination
  by (relation "measure (\<lambda>(i, s). length s - i)") auto

declare escape_loop.simps [simp del]

definition formatMessage ::
    "Logger \<Rightarrow> string \<Rightarrow> string \<Rightarrow> LogLevel \<Rightarrow> string \<Rightarrow> string \<Rightarrow> int \<Rightarrow> string" where
  "formatMessage this timestamp thread_id level message file line =
     (if \<not> structured_json this then
        ''['' @ timestamp @ ''] '' @ ''['' @ levelToString level @ ''] '' @
        ''['' @ thread_id @ ''] '' @
        (if file \<noteq> [] then ''['' @ file @ '':'' @ to_string line @ ''] '' else []) @ message
      else
        ''{'' @ [quote] @ ''ts'' @ [quote] @ '':'' @ [quote] @ timestamp @ [quote] @ '','' @
        [quote] @ ''level'' @ [quote] @ '':'' @ [quote] @ levelToString level @ [quote] @ '','' @
        [quote] @ ''thread'' @ [quote] @ '':'' @ [quote] @ thread_id @ [quote] @ '','' @
        (if file \<noteq> [] then
           [quote] @ ''source'' @ [quote] @ '':{'' @ [quote] @ ''file'' @ [quote] @ '':'' @
           [quote] @ file @ [quote] @ '','' @ [quote] @ ''line'' @ [quote] @ '':'' @
           to_string line @ ''},''
         else []) @
        (let escaped = escape_loop 0 message
         in [quote] @ ''msg'' @ [quote] @ '':'' @ [quote] @ escaped @ [quote] @ ''}''))"

section \<open>Output\<close>

record log_world =
  console :: "string list"
  syslog_lines :: "(int \<times> string) list"
  file_system :: "string \<Rightarrow> string option"

definition color_code :: "LogLevel \<Rightarrow> string" where
  "color_code level = CHR 0x1B #
     (if level = LOG_LEVEL_DEBUG then ''[36m''
      else if level = LOG_LEVEL_INFO then ''[32m''
      else if level = LOG_LEVEL_WARNING then ''[33m''
      else if level = LOG_LEVEL_ERROR then ''[31m''
      else if level = LOG_LEVEL_FATAL then ''[35m''
      else ''[0m'')"

definition outputToConsole :: "LogLevel \<Rightarrow> string \<Rightarrow> log_world \<Rightarrow> log_world" where
  "outputToConsole level message w =
     w\<lparr>console := console w @ [color_code level @ message @ CHR 0x1B # ''[0m'']\<rparr>"

text \<open>The \<open>i\<close>-th rotated file.\<close>

definition rotated :: "string \<Rightarrow> nat \<Rightarrow> string" where
  "rotated base i = base @ ''.'' @ to_string_nat i"

definition remove_file :: "string \<Rightarrow> (string \<Rightarrow> string option) \<Rightarrow> string \<Rightarrow> string option" where
  "remove_file name fs = fs(name := None)"

definition rename_if_exists ::
    "string \<Rightarrow> string \<Rightarrow> (string \<Rightarrow> string option) \<Rightarrow> string \<Rightarrow> string option" where
  "rename_if_exists src dst fs =
     (case fs src of None \<Rightarrow> fs | Some content \<Rightarrow> fs(dst := Some content, src := None))"

text \<open>\<open>for (int i = max_files - 1; i >= 1; --i)\<close>\<close>

fun shift_logs :: "string \<Rightarrow> nat \<Rightarrow> (string \<Rightarrow> string option) \<Rightarrow> string \<Rightarrow> string option" where
  "shift_logs base 0 fs = fs"
| "shift_logs base (Suc i) fs =
     shift_logs base i
       (rename_if_exists (rotated base (Suc i)) (rotated base (Suc i + 1)) fs)"

definition rotateLogs :: "Logger \<Rightarrow> (string \<Rightarrow> string option) \<Rightarrow> string \<Rightarrow> string option" where
  "rotateLogs this fs =
     (let log_file = logger_file this;
          fs = remove_file (rotated log_file (unat (rotate_max_files this))) fs;
          fs = shift_logs log_file (nat (sint (rotate_max_files this) - 1)) fs
      in rename_if_exists log_file (rotated log_file 1) fs)"

definition outputToFile ::
    "(string \<Rightarrow> bool) \<Rightarrow> Logger \<Rightarrow> string \<Rightarrow> (string \<Rightarrow> string option) \<Rightarrow> string \<Rightarrow> string option" where
  "outputToFile writable this message fs =
     (let log_file = logger_file this;
          fs = (if log_file \<noteq> [] \<and> rotate_max_size_bytes this > 0 then
                  (case fs log_file of
                     None \<Rightarrow> fs
                   | Some content \<Rightarrow>
                       if unat (rotate_max_size_bytes this) \<le> length content
                       then rotateLogs this fs else fs)
                else fs)
      in if writable log_file
         then fs(log_file := Some ((case fs log_file of None \<Rightarrow> [] | Some old \<Rightarrow> old)
                                   @ message @ [CHR 0x0A]))
         else fs)"

definition outputToSyslog :: "LogLevel \<Rightarrow> string \<Rightarrow> log_world \<Rightarrow> log_world" where
  "outputToSyslog level message w =
     w\<lparr>syslog_lines := syslog_lines w @ [(levelToSyslogPriority level, message)]\<rparr>"

definition logger_log ::
    "(string \<Rightarrow> bool) \<Rightarrow> string \<Rightarrow> string \<Rightarrow> LogLevel \<Rightarrow> string \<Rightarrow> string \<Rightarrow> int \<Rightarrow> Logger \<Rightarrow>
     log_world \<Rightarrow> log_world" where
  "logger_log writable timestamp thread_id level message file line this w =
     (if level < logger_level this then w
      else
        (let formatted_message = formatMessage this timestamp thread_id level message file line;
             w = (if logger_destination this = CONSOLE \<or> logger_destination this = BOTH
                  then outputToConsole level formatted_message w else w);
             w = (if (logger_destination this = FILE \<or> logger_destination this = BOTH)
                     \<and> logger_file this \<noteq> []
                  then w\<lparr>file_system := outputToFile writable this formatted_message (file_system w)\<rparr> else w)
         in if logger_syslog this then outputToSyslog level message w else w))"

section \<open>Escaping\<close>

definition escape :: "string \<Rightarrow> string" where
  "escape s = concat (map (\<lambda>c. if c = backslash \<or> c = quote then [backslash, c] else [c]) s)"

lemma escape_simps [simp]:
  "escape [] = []"
  "escape (c # s) = (if c = backslash \<or> c = quote then [backslash, c] else [c]) @ escape s"
  by (simp_all add: escape_def)

lemma escape_loop_eq: "escape_loop i s = take i s @ escape (drop i s)"
proof (induction i s rule: escape_loop.induct)
  case (1 i s)
  show ?case
  proof (cases "i < length s")
    case True
    then have d: "drop i s = s ! i # drop (Suc i) s" by (simp add: Cons_nth_drop_Suc)
    from True have t: "take (Suc i) s = take i s @ [s ! i]" by (simp add: take_Suc_conv_app_nth)
    have "take (i + 2) (take i s @ backslash # drop i s) = take i s @ [backslash, s ! i]"
      and "drop (i + 2) (take i s @ backslash # drop i s) = drop (Suc i) s"
      using True by (simp_all add: d)
    with True 1 show ?thesis by (auto simp: escape_loop.simps [of i s] d t)
  next
    case False
    then show ?thesis by (simp add: escape_loop.simps [of i s])
  qed
qed

lemma escape_loop_0: "escape_loop 0 s = escape s"
  by (simp add: escape_loop_eq)

text \<open>How a JSON reader takes a string apart: up to the first quote that is not escaped.\<close>

fun read_json_string :: "string \<Rightarrow> (string \<times> string) option" where
  "read_json_string [] = None"
| "read_json_string (c # s) =
     (if c = quote then Some ([], s)
      else if c = backslash then
        (case s of
           [] \<Rightarrow> None
         | d # s' \<Rightarrow> map_option (\<lambda>(m, r). (d # m, r)) (read_json_string s'))
      else map_option (\<lambda>(m, r). (c # m, r)) (read_json_string s))"

lemma quote_backslash [simp]: "quote \<noteq> backslash" "backslash \<noteq> quote"
  by (simp_all add: quote_def backslash_def)

lemma read_escaped: "read_json_string (escape m @ quote # rest) = Some (m, rest)"
  by (induction m) auto

section \<open>Rotation\<close>

lemma to_string_nat_inj [simp]: "to_string_nat a = to_string_nat b \<longleftrightarrow> a = b"
  by (metis digits_val_to_string)

lemma rotated_inj [simp]: "rotated b i = rotated b j \<longleftrightarrow> i = j"
  by (simp add: rotated_def)

lemma rotated_not_base [simp]: "rotated b i \<noteq> b" "b \<noteq> rotated b i"
  by (simp_all add: rotated_def)

lemma rename_to_free:
  assumes "fs dst = None" "src \<noteq> dst"
  shows "rename_if_exists src dst fs = fs(dst := fs src, src := None)"
  using assms by (auto simp: rename_if_exists_def fun_eq_iff split: option.split)

lemma shift_logs_step:
  assumes "fs (rotated b (Suc (Suc n))) = None"
  shows "shift_logs b (Suc n) fs = shift_logs b n
    (fs(rotated b (Suc (Suc n)) := fs (rotated b (Suc n)), rotated b (Suc n) := None))"
  using assms by (simp add: rename_to_free)

lemma shift_logs_other:
  assumes "fs (rotated b (Suc n)) = None" "\<And>k. 1 \<le> k \<Longrightarrow> k \<le> Suc n \<Longrightarrow> name \<noteq> rotated b k"
  shows "shift_logs b n fs name = fs name"
  using assms
proof (induction n arbitrary: fs)
  case (Suc n)
  let ?fs = "fs(rotated b (Suc (Suc n)) := fs (rotated b (Suc n)), rotated b (Suc n) := None)"
  have "shift_logs b n ?fs name = ?fs name" using Suc.prems by (intro Suc.IH) auto
  also have "\<dots> = fs name" using Suc.prems(2) [of "Suc n"] Suc.prems(2) [of "Suc (Suc n)"] by simp
  finally show ?case by (simp only: shift_logs_step [of fs b n, OF Suc.prems(1)])
qed simp

lemma shift_logs_first:
  assumes "fs (rotated b (Suc n)) = None"
  shows "shift_logs b n fs (rotated b 1) = None"
  using assms
proof (induction n arbitrary: fs)
  case (Suc n)
  show ?case unfolding shift_logs_step [of fs b n, OF Suc.prems] by (rule Suc.IH) simp
qed simp

lemma shift_logs_shifted:
  assumes "fs (rotated b (Suc n)) = None" "1 \<le> k" "k \<le> n"
  shows "shift_logs b n fs (rotated b (Suc k)) = fs (rotated b k)"
  using assms
proof (induction n arbitrary: fs)
  case (Suc n)
  let ?fs = "fs(rotated b (Suc (Suc n)) := fs (rotated b (Suc n)), rotated b (Suc n) := None)"
  show ?case
  proof (cases "k = Suc n")
    case True
    have "shift_logs b n ?fs (rotated b (Suc k)) = ?fs (rotated b (Suc k))"
      using True by (intro shift_logs_other) auto
    with True show ?thesis unfolding shift_logs_step [of fs b n, OF Suc.prems(1)] by simp
  next
    case False
    with Suc.prems have "shift_logs b n ?fs (rotated b (Suc k)) = ?fs (rotated b k)"
      by (intro Suc.IH) auto
    with False Suc.prems(3) show ?thesis unfolding shift_logs_step [of fs b n, OF Suc.prems(1)] by simp
  qed
qed simp

lemma sint_small:
  assumes "unat (m::u32) < 2 ^ 31"
  shows "nat (sint m - 1) = unat m - 1"
proof -
  have "int (unat m) < int (2 ^ 31)" using assms by (simp only: of_nat_less_iff)
  then have u: "uint m < 2 ^ 31" by simp
  have "- (2 ^ 31) \<le> uint m" by (rule order_trans [OF _ uint_ge_0]) simp
  from signed_take_bit_int_eq_self [OF this u] have "sint m = uint m"
    by (simp add: sint_uint)
  then show ?thesis by (simp add: nat_diff_distrib')
qed

lemma rotateLogs_spec:
  assumes "b = logger_file this" "n = unat (rotate_max_files this)" "1 \<le> n" "n < 2 ^ 31"
  shows "rotateLogs this fs b = None"
    and "rotateLogs this fs (rotated b 1) = fs b"
    and "1 \<le> k \<Longrightarrow> k < n \<Longrightarrow> rotateLogs this fs (rotated b (Suc k)) = fs (rotated b k)"
    and "name \<noteq> b \<Longrightarrow> (\<And>k. 1 \<le> k \<Longrightarrow> k \<le> n \<Longrightarrow> name \<noteq> rotated b k) \<Longrightarrow>
         rotateLogs this fs name = fs name"
proof -
  define fs1 where "fs1 = fs(rotated b n := None)"
  define fs2 where "fs2 = shift_logs b (n - 1) fs1"
  have free: "fs1 (rotated b (Suc (n - 1))) = None" using assms(3) by (simp add: fs1_def)
  have "fs2 (rotated b 1) = None"
    unfolding fs2_def by (rule shift_logs_first [of fs1 b "n - 1", OF free])
  then have r: "rotateLogs this fs = fs2(rotated b 1 := fs2 b, b := None)"
    using assms sint_small [of "rotate_max_files this"]
    by (simp add: rotateLogs_def Let_def remove_file_def fs1_def fs2_def rename_to_free)
  have other: "fs2 name = fs1 name" if "\<And>k. 1 \<le> k \<Longrightarrow> k \<le> n \<Longrightarrow> name \<noteq> rotated b k" for name
    unfolding fs2_def using that assms(3) by (intro shift_logs_other free) auto
  have b: "fs2 b = fs b" using other [of b] by (simp add: fs1_def)
  show "rotateLogs this fs b = None" "rotateLogs this fs (rotated b 1) = fs b"
    by (simp_all add: r b)
  show "rotateLogs this fs (rotated b (Suc k)) = fs (rotated b k)" if "1 \<le> k" "k < n"
  proof -
    have "fs2 (rotated b (Suc k)) = fs1 (rotated b k)"
      unfolding fs2_def using that by (intro shift_logs_shifted free) auto
    with that show ?thesis by (simp add: r fs1_def)
  qed
  show "rotateLogs this fs name = fs name"
    if "name \<noteq> b" "\<And>k. 1 \<le> k \<Longrightarrow> k \<le> n \<Longrightarrow> name \<noteq> rotated b k"
    using that(1) other [OF that(2)] that(2) [of 1] that(2) [of n] assms(3) by (simp add: r fs1_def)
qed

section \<open>Properties\<close>

text \<open>
  C38. Rotating logs moves the current file to the first rotated name and every rotated file to
  the next one; only the last one is dropped, the current name is free for a new file, and no
  other file is touched.
\<close>
theorem rotation_shifts:
  assumes "b = logger_file this" and "n = unat (rotate_max_files this)" and "1 \<le> n" and "n < 2 ^ 31"
  shows "rotateLogs this fs b = None \<and> rotateLogs this fs (rotated b 1) = fs b
    \<and> (\<forall>k. 1 \<le> k \<and> k < n \<longrightarrow> rotateLogs this fs (rotated b (Suc k)) = fs (rotated b k))
    \<and> (\<forall>name. name \<noteq> b \<and> (\<forall>k. 1 \<le> k \<and> k \<le> n \<longrightarrow> name \<noteq> rotated b k) \<longrightarrow>
         rotateLogs this fs name = fs name)"
  using rotateLogs_spec [OF assms] by blast

theorem rotation_shifts_witness:
  "rotateLogs (Logger_init\<lparr>logger_file := ''l'', rotate_max_files := 3\<rparr>)
      [''l'' \<mapsto> ''new'', ''l.1'' \<mapsto> ''old''] ''l'' = None
   \<and> rotateLogs (Logger_init\<lparr>logger_file := ''l'', rotate_max_files := 3\<rparr>)
      [''l'' \<mapsto> ''new'', ''l.1'' \<mapsto> ''old''] (rotated ''l'' 2) = Some ''old''"
proof -
  let ?lg = "Logger_init\<lparr>logger_file := ''l'', rotate_max_files := 3\<rparr>"
  let ?fs = "[''l'' \<mapsto> ''new'', ''l.1'' \<mapsto> ''old'']"
  have l1: "rotated ''l'' 1 = ''l.1''"
    by (simp add: rotated_def to_string_nat_def base_digits.simps)
  have r: "rotateLogs ?lg ?fs ''l'' = None \<and> rotateLogs ?lg ?fs (rotated ''l'' 1) = ?fs ''l''
    \<and> (\<forall>k. 1 \<le> k \<and> k < 3 \<longrightarrow> rotateLogs ?lg ?fs (rotated ''l'' (Suc k)) = ?fs (rotated ''l'' k))
    \<and> (\<forall>name. name \<noteq> ''l'' \<and> (\<forall>k. 1 \<le> k \<and> k \<le> 3 \<longrightarrow> name \<noteq> rotated ''l'' k) \<longrightarrow>
         rotateLogs ?lg ?fs name = ?fs name)"
    by (rule rotation_shifts) simp_all
  then have "rotateLogs ?lg ?fs (rotated ''l'' (Suc 1)) = ?fs (rotated ''l'' 1)" by simp
  then have "rotateLogs ?lg ?fs (rotated ''l'' 2) = Some ''old''"
    unfolding l1 by (simp add: numeral_2_eq_2)
  with r show ?thesis by simp
qed

text \<open>
  Writing a message appends it, with a line end, to the log file; what the file held before
  is still there, in front of the message or in the first rotated file; and with a size limit the
  file is never longer than the limit plus one message.
\<close>

lemma log_file_append:
  assumes "b = logger_file this" and "b \<noteq> []" and "writable b" and "rotate_max_size_bytes this \<noteq> 0"
    and "1 \<le> unat (rotate_max_files this)" and "unat (rotate_max_files this) < 2 ^ 31"
    and "fs b = Some old" and "fs' = outputToFile writable this message fs"
  shows "\<exists>content. fs' b = Some (content @ message @ [CHR 0x0A])
    \<and> (content = old \<or> content = [] \<and> fs' (rotated b 1) = Some old)
    \<and> length content < unat (rotate_max_size_bytes this)"
proof (cases "unat (rotate_max_size_bytes this) \<le> length old")
  case True
  have "0 < unat (rotate_max_size_bytes this)" using assms(4) by (simp add: unat_gt_0)
  with True show ?thesis
    using assms rotateLogs_spec(1,2) [OF assms(1) refl assms(5,6), of fs]
    by (simp add: outputToFile_def Let_def word_neq_0_conv)
next
  case False
  then show ?thesis using assms by (simp add: outputToFile_def Let_def word_neq_0_conv)
qed

lemma log_file_append_witness:
  "\<exists>content. outputToFile (\<lambda>_. True) (Logger_init\<lparr>logger_file := ''l'', rotate_max_size_bytes := 2\<rparr>)
      ''hi'' [''l'' \<mapsto> ''abc''] ''l'' = Some (content @ ''hi'' @ [CHR 0x0A]) \<and> length content < 2"
  using log_file_append [of "''l''" "Logger_init\<lparr>logger_file := ''l'', rotate_max_size_bytes := 2\<rparr>"
      "\<lambda>_. True" "[''l'' \<mapsto> ''abc'']" "''abc''" _ "''hi''", OF _ _ _ _ _ _ _ refl]
  by (auto simp: Logger_init_def)

text \<open>
  In the JSON format the message survives: a reader that takes the text after the opening
  quote up to the first unescaped quote gets the message back and finds the closing brace.
\<close>
lemma json_message_roundtrip:
  assumes "structured_json this"
  shows "\<exists>front. formatMessage this ts tid level message file line =
        front @ [quote] @ ''msg'' @ [quote] @ '':'' @ [quote] @ escape_loop 0 message @ [quote] @ ''}''
    \<and> read_json_string (escape_loop 0 message @ [quote] @ ''}'') = Some (message, ''}'')"
proof -
  have "read_json_string (escape_loop 0 message @ [quote] @ ''}'') = Some (message, ''}'')"
    using read_escaped [of message "''}''"] by (simp add: escape_loop_0)
  moreover have "\<exists>front. formatMessage this ts tid level message file line =
      front @ [quote] @ ''msg'' @ [quote] @ '':'' @ [quote] @ escape_loop 0 message @ [quote] @ ''}''"
    unfolding formatMessage_def Let_def using assms
    by (simp only: simp_thms if_False append_assoc [symmetric]) blast
  ultimately show ?thesis by blast
qed

lemma json_message_roundtrip_witness:
  "read_json_string (escape_loop 0 [quote, backslash] @ [quote] @ ''}'') =
     Some ([quote, backslash], ''}'')"
  using json_message_roundtrip [of "Logger_init\<lparr>structured_json := True\<rparr>" "[]" "[]" 1
      "[quote, backslash]" "[]" 0]
  by auto

text \<open>
  Where a message goes. The destination \<open>MULTIPLE\<close>, meant as all three, writes to neither console
  nor file.
\<close>

lemma log_destinations:
  "console (logger_log writable ts tid level m file line this w) = console w @
      (if logger_level this \<le> level \<and> logger_destination this \<in> {CONSOLE, BOTH}
       then [color_code level @ formatMessage this ts tid level m file line @ CHR 0x1B # ''[0m'']
       else [])
   \<and> syslog_lines (logger_log writable ts tid level m file line this w) = syslog_lines w @
      (if logger_level this \<le> level \<and> logger_syslog this
       then [(levelToSyslogPriority level, m)] else [])
   \<and> file_system (logger_log writable ts tid level m file line this w) =
      (if logger_level this \<le> level \<and> logger_destination this \<in> {FILE, BOTH} \<and> logger_file this \<noteq> []
       then outputToFile writable this (formatMessage this ts tid level m file line) (file_system w)
       else file_system w)"
  by (simp add: logger_log_def Let_def outputToConsole_def outputToSyslog_def not_less not_le)

end
