(* ===== verification/Server.thy ===== *)
theory Server
  imports Access Connection Upstream LogFiles ConfigArgs
begin

text \<open>
  \<open>NtpServer\<close> of \<open>core/server.hpp\<close> and \<open>core/server.cpp\<close>: the handler of a datagram, from the
  access checks to the reply and the statistics, the table of connections, the choice of an
  upstream server, the announced stratum and reference identifier, and reloading.

  \<^item> The configuration objects that shared pointers refer to are a list, a pointer is an index:
    \<open>applyDynamicStratum\<close> changes the object in place, \<open>reloadConfig\<close> adds an object and
    moves the server's pointer, and a connection keeps the pointer it was made with.
  \<^item> The table of connections is an association list from keys to the connection and its
    configuration pointer; its order stands for the iteration order of the unordered map.
  \<^item> One datagram sees a \<open>packet_env\<close>: the clock readings in the order they are taken, the
    random number, the result of \<open>sendto\<close>, and the functions of the libraries.
  \<^item> The handler is one step: the code shares the statistics among its worker threads without
    a lock, which the theory \<open>Races\<close> takes apart. Log output is left out.
\<close>

section \<open>State\<close>

record NtpServerStats =
  total_connections :: u64
  active_count :: u64
  total_requests :: u64
  total_responses :: u64
  total_bytes_transferred :: u64
  total_errors :: u64
  total_request_processing_time_us :: u64
  processed_request_count :: u64
  max_request_processing_time_us :: u64
  min_request_processing_time_us :: u64
  start_time :: int

definition NtpServerStats_init :: NtpServerStats where
  "NtpServerStats_init = \<lparr>total_connections = 0, active_count = 0, total_requests = 0,
     total_responses = 0, total_bytes_transferred = 0, total_errors = 0,
     total_request_processing_time_us = 0, processed_request_count = 0,
     max_request_processing_time_us = 0, min_request_processing_time_us = - 1, start_time = 0\<rparr>"

record NtpServer =
  configs :: "NtpConfig list"
  config_ptr :: nat
  server_logger :: Logger
  running :: bool
  server_socket :: int
  server_address :: string
  server_port :: u16
  active_connections :: "(string \<times> nat \<times> NtpConnection) list"
  worker_count :: nat
  workers_running :: bool
  config_watch_running :: bool
  config_mtime :: "int option"
  server_stats :: NtpServerStats
  restart_count :: u32
  healthy_upstreams :: "string list"
  upstream_rr_index :: u64
  connection_rate_buckets :: bucket_table
  request_second_buckets :: bucket_table
  upstream_sync :: "UpstreamSyncManager option"

definition NtpServer_init :: "NtpConfig \<Rightarrow> Logger \<Rightarrow> NtpServer" where
  "NtpServer_init config logger = \<lparr>configs = [config], config_ptr = 0, server_logger = logger,
     running = False, server_socket = INVALID_SOCKET, server_address = listen_address config,
     server_port = listen_port config, active_connections = [], worker_count = 0,
     workers_running = False, config_watch_running = False, config_mtime = None,
     server_stats = NtpServerStats_init, restart_count = 0, healthy_upstreams = [],
     upstream_rr_index = 0, connection_rate_buckets = Map.empty,
     request_second_buckets = Map.empty, upstream_sync = None\<rparr>"

text \<open>The object a pointer refers to; an index with no object stands for the null pointer.\<close>

definition deref :: "NtpConfig list \<Rightarrow> nat \<Rightarrow> NtpConfig option" where
  "deref heap p = (if p < length heap then Some (heap ! p) else None)"

definition config_of :: "NtpServer \<Rightarrow> NtpConfig option" where
  "config_of srv = deref (configs srv) (config_ptr srv)"

text \<open>\<open>*config_\<close>, for the accesses the code makes without a check.\<close>

definition the_config :: "NtpServer \<Rightarrow> NtpConfig" where
  "the_config srv = configs srv ! config_ptr srv"

record packet_env =
  parse_address :: "string \<Rightarrow> u32 option"
  digest_of :: "AuthAlgorithm \<Rightarrow> u8 list \<Rightarrow> u8 list option"
  begin_entry_of :: "(u32 \<times> string) list \<Rightarrow> u32 \<times> string"
  rate_minute :: u64
  ddos_second :: u64
  request_minute :: u64
  rx_time :: time_point
  tx_time :: time_point
  ref_time :: time_point
  uniform :: "nat \<Rightarrow> nat"
  sendto_result :: int
  duration_us :: int

section \<open>Statistics\<close>

definition upd_stats :: "(NtpServerStats \<Rightarrow> NtpServerStats) \<Rightarrow> NtpServer \<Rightarrow> NtpServer" where
  "upd_stats f srv = srv\<lparr>server_stats := f (server_stats srv)\<rparr>"

definition count_error :: "NtpServer \<Rightarrow> NtpServer" where
  "count_error = upd_stats (\<lambda>st. st\<lparr>total_errors := total_errors st + 1\<rparr>)"

definition count_response :: "nat \<Rightarrow> NtpServer \<Rightarrow> NtpServer" where
  "count_response n = upd_stats (\<lambda>st. st
     \<lparr>total_requests := total_requests st + 1,
      total_bytes_transferred := total_bytes_transferred st + of_nat n,
      total_responses := total_responses st + 1\<rparr>)"

definition record_duration :: "int \<Rightarrow> NtpServer \<Rightarrow> NtpServer" where
  "record_duration dur_us = upd_stats (\<lambda>st. let d = word_of_int dur_us in st
     \<lparr>total_request_processing_time_us := total_request_processing_time_us st + d,
      processed_request_count := processed_request_count st + 1,
      max_request_processing_time_us :=
        (if d > max_request_processing_time_us st then d else max_request_processing_time_us st),
      min_request_processing_time_us :=
        (if d < min_request_processing_time_us st then d else min_request_processing_time_us st)\<rparr>)"

section \<open>Connections\<close>

definition client_key :: "string \<Rightarrow> u16 \<Rightarrow> string" where
  "client_key client_ip client_port = client_ip @ '':'' @ to_string (uint client_port)"

definition getOrCreateConnection ::
    "(string \<Rightarrow> u32 option) \<Rightarrow> string \<Rightarrow> u16 \<Rightarrow> NtpServer \<Rightarrow>
     cpp_exn + (nat \<times> NtpConnection) \<times> NtpServer" where
  "getOrCreateConnection pton client_ip client_port srv =
     (let key = client_key client_ip client_port
      in case map_of (active_connections srv) key of
           Some conn \<Rightarrow> Inr (conn, srv)
         | None \<Rightarrow>
             bind_result (isClientAllowed pton (config_of srv) client_ip)
               (\<lambda>allowed.
                  let conn = (config_ptr srv,
                              setTrusted allowed (NtpConnection_init INVALID_SOCKET client_ip))
                  in Inr (conn, upd_stats (\<lambda>st. st
                       \<lparr>total_connections := total_connections st + 1,
                        active_count := active_count st + 1\<rparr>)
                       (srv\<lparr>active_connections :=
                          AList.update key conn (active_connections srv)\<rparr>))))"

definition cleanupConnections :: "NtpServer \<Rightarrow> NtpServer" where
  "cleanupConnections srv =
     (let gone = filter (\<lambda>e. \<not> isActive (snd (snd e))) (active_connections srv)
      in upd_stats (\<lambda>st. st\<lparr>active_count := active_count st - of_nat (length gone)\<rparr>)
           (srv\<lparr>active_connections :=
              filter (\<lambda>e. isActive (snd (snd e))) (active_connections srv)\<rparr>))"

definition getActiveConnectionCount :: "NtpServer \<Rightarrow> nat" where
  "getActiveConnectionCount srv = length (active_connections srv)"

definition listConnections :: "NtpServer \<Rightarrow> string" where
  "listConnections srv = ''Active NTP Clients:'' @ newline @
     (if active_connections srv = [] then ''  (none)'' @ newline
      else concat (map (\<lambda>(key, _, conn). ''  '' @ key
        @ '' packets_rx='' @ to_string (uint (packets_received (conn_stats conn)))
        @ '' packets_tx='' @ to_string (uint (packets_sent (conn_stats conn)))
        @ '' errors='' @ to_string (uint (error_count (conn_stats conn))) @ newline)
        (active_connections srv)))"

section \<open>Upstream choice, stratum and reference identifier\<close>

definition selectUpstreamServer :: "(nat \<Rightarrow> nat) \<Rightarrow> NtpServer \<Rightarrow> string \<times> NtpServer" where
  "selectUpstreamServer unif srv =
     (case config_of srv of
        None \<Rightarrow> ([], srv)
      | Some c \<Rightarrow>
          if upstream_servers c = [] then ([], srv)
          else
            (let srv = (if healthy_upstreams srv = []
                        then srv\<lparr>healthy_upstreams := upstream_servers c\<rparr> else srv);
                 healthy = healthy_upstreams srv
             in if length healthy = 1 then (hd healthy, srv)
                else if upstream_selection_algorithm c = UPSTREAM_RANDOM
                then (healthy ! unif (length healthy - 1), srv)
                else (healthy ! (unat (upstream_rr_index srv) mod length healthy),
                      srv\<lparr>upstream_rr_index := upstream_rr_index srv + 1\<rparr>)))"

text \<open>
  \<open>total_errors / total_requests > 0.20\<close> in double precision is \<open>5 * total_errors >
  total_requests\<close> in the integers as long as the counters are below \<open>2 ^ 52\<close>: the quotient
  then exceeds one fifth by more than the rounding of the division and of the constant.
\<close>

definition applyDynamicStratum :: "NtpServer \<Rightarrow> NtpServer" where
  "applyDynamicStratum srv =
     (case config_of srv of
        None \<Rightarrow> srv
      | Some c \<Rightarrow>
          if \<not> enable_dynamic_stratum_adjustment c then srv
          else if total_requests (server_stats srv) > 100 then
            (if 5 * unat (total_errors (server_stats srv)) > unat (total_requests (server_stats srv))
                \<and> uint (cfg_stratum c) < 15
             then srv\<lparr>configs := (configs srv)
                    [config_ptr srv := c\<lparr>cfg_stratum := word_of_int (uint (cfg_stratum c) + 1)\<rparr>]\<rparr>
             else srv)
          else srv)"

definition effectiveReferenceId :: "NtpConfig option \<Rightarrow> string" where
  "effectiveReferenceId cfg =
     (case cfg of
        None \<Rightarrow> ''LOCL''
      | Some c \<Rightarrow>
          if \<not> enable_reference_clock_support c then cfg_reference_id c
          else
            (let source = lower (reference_clock_source c)
             in if source = ''gps'' then ''GPS ''
                else if source = ''atomic'' then ''ATOM''
                else if source = ''hardware'' then ''HARD''
                else if cfg_reference_id c = [] then ''LOCL'' else cfg_reference_id c))"

section \<open>The reply\<close>

definition response_stratum :: "NtpServer \<Rightarrow> NtpStratum" where
  "response_stratum srv =
     (case upstream_sync srv of
        None \<Rightarrow> cfg_stratum (the_config srv)
      | Some m \<Rightarrow>
          if isSynced m then effectiveStratum (cfg_stratum (the_config srv)) m
          else cfg_stratum (the_config srv))"

text \<open>Adding the estimated clock offset to the receive and the transmit timestamp.\<close>

definition shift_timestamp :: "int \<Rightarrow> NtpTimestamp \<Rightarrow> NtpTimestamp" where
  "shift_timestamp us ts = fromSystemTime (toSystemTime ts + 1000 * us)"

definition correct_clock :: "UpstreamSyncManager option \<Rightarrow> NtpPacket \<Rightarrow> NtpPacket" where
  "correct_clock sync p =
     (case sync of
        None \<Rightarrow> p
      | Some m \<Rightarrow>
          (let offset_us = clockOffsetUs m
           in if offset_us \<noteq> 0
              then p\<lparr>receive_ts := shift_timestamp offset_us (receive_ts p),
                     transmit_ts := shift_timestamp offset_us (transmit_ts p)\<rparr>
              else p))"

definition drop_upstream :: "string \<Rightarrow> NtpServer \<Rightarrow> NtpServer" where
  "drop_upstream selected srv =
     (if enable_upstream_failover (the_config srv) \<and> selected \<noteq> []
      then srv\<lparr>healthy_upstreams := remove1 selected (healthy_upstreams srv)\<rparr> else srv)"

text \<open>The branch for an accepted request: the datagram given to \<open>sendto\<close>, and whether the
  rest of the handler (the timing statistics) is reached.\<close>

definition answer_request ::
    "packet_env \<Rightarrow> u8 list \<Rightarrow> NtpServer \<Rightarrow> u8 list option \<times> bool \<times> NtpServer" where
  "answer_request env data srv =
     (let (parsed, request_packet) = parseFromData data NtpPacket_init
      in if \<not> parsed then (None, False, count_error srv)
         else
           (let response_packet = createServerResponse request_packet (response_stratum srv)
                  (effectiveReferenceId (config_of srv)) (rx_time env) (tx_time env) (ref_time env);
                srv = applyDynamicStratum srv;
                response_packet = correct_clock (upstream_sync srv) response_packet;
                (selected, srv) = selectUpstreamServer (uniform env) srv;
                response_data = serializeToData response_packet
            in if sendto_result env < 0
               then (Some response_data, False, drop_upstream selected (count_error srv))
               else (Some response_data, True, count_response (length data) srv)))"

section \<open>The handler\<close>

definition update_connection :: "string \<Rightarrow> nat \<Rightarrow> NtpConnection \<Rightarrow> NtpServer \<Rightarrow> NtpServer" where
  "update_connection key p conn srv =
     srv\<lparr>active_connections := AList.update key (p, conn) (active_connections srv)\<rparr>"

definition handle_datagram ::
    "packet_env \<Rightarrow> string \<Rightarrow> u16 \<Rightarrow> u8 list \<Rightarrow> (nat \<times> NtpConnection) \<times> NtpServer \<Rightarrow>
     u8 list option \<times> NtpServer" where
  "handle_datagram env client_ip client_port data r =
     (let ((p, conn), srv) = r;
          (ok, conn) = handlePacket (digest_of env) (begin_entry_of env) (deref (configs srv) p)
                         (request_minute env) data conn;
          srv = update_connection (client_key client_ip client_port) p conn srv;
          (sent, timed, srv) =
            (if ok then answer_request env data srv else (None, True, count_error srv))
      in (sent, if timed then record_duration (duration_us env) srv else srv))"

definition processPacket ::
    "packet_env \<Rightarrow> string \<Rightarrow> u16 \<Rightarrow> u8 list \<Rightarrow> NtpServer \<Rightarrow> cpp_exn + u8 list option \<times> NtpServer"
where
  "processPacket env client_ip client_port data srv =
     bind_result (isClientAllowed (parse_address env) (config_of srv) client_ip)
       (\<lambda>allowed.
          if \<not> allowed then Inr (None, count_error srv)
          else
            (let (exceeded, t) = isRateLimitExceeded (config_of srv) (rate_minute env) client_ip
                                   (connection_rate_buckets srv);
                 srv = srv\<lparr>connection_rate_buckets := t\<rparr>
             in if exceeded then Inr (None, count_error srv)
                else
                  (let (anomaly, t) = isDdosAnomaly (config_of srv) (ddos_second env) client_ip
                                        (request_second_buckets srv);
                       srv = srv\<lparr>request_second_buckets := t\<rparr>
                   in if anomaly \<and> (case config_of srv of None \<Rightarrow> False
                                     | Some c \<Rightarrow> enable_graceful_degradation c)
                      then Inr (None, count_error srv)
                      else
                        bind_result (getOrCreateConnection (parse_address env) client_ip client_port srv)
                          (\<lambda>r. Inr (handle_datagram env client_ip client_port data r)))))"

section \<open>What the steps leave alone\<close>

lemma upd_stats_frame [simp]:
  "configs (upd_stats f srv) = configs srv"
  "config_ptr (upd_stats f srv) = config_ptr srv"
  "active_connections (upd_stats f srv) = active_connections srv"
  "upstream_sync (upd_stats f srv) = upstream_sync srv"
  "healthy_upstreams (upd_stats f srv) = healthy_upstreams srv"
  "upstream_rr_index (upd_stats f srv) = upstream_rr_index srv"
  "connection_rate_buckets (upd_stats f srv) = connection_rate_buckets srv"
  "request_second_buckets (upd_stats f srv) = request_second_buckets srv"
  "restart_count (upd_stats f srv) = restart_count srv"
  "server_stats (upd_stats f srv) = f (server_stats srv)"
  by (simp_all add: upd_stats_def)

lemma config_of_cong:
  "configs srv = configs srv' \<Longrightarrow> config_ptr srv = config_ptr srv' \<Longrightarrow> config_of srv = config_of srv'"
  by (simp add: config_of_def)

text \<open>The choice of an upstream changes the list and the index only.\<close>

lemma select_frame:
  assumes "selectUpstreamServer unif srv = (s, srv')"
  shows "configs srv' = configs srv" "config_ptr srv' = config_ptr srv"
    "active_connections srv' = active_connections srv" "server_stats srv' = server_stats srv"
    "upstream_sync srv' = upstream_sync srv"
  using assms by (auto simp: selectUpstreamServer_def Let_def split: option.splits if_splits)

lemma stratum_frame:
  "config_ptr (applyDynamicStratum srv) = config_ptr srv"
  "active_connections (applyDynamicStratum srv) = active_connections srv"
  "server_stats (applyDynamicStratum srv) = server_stats srv"
  "upstream_sync (applyDynamicStratum srv) = upstream_sync srv"
  "length (configs (applyDynamicStratum srv)) = length (configs srv)"
  by (simp_all add: applyDynamicStratum_def split: option.split)

lemma drop_upstream_frame:
  "configs (drop_upstream s srv) = configs srv" "config_ptr (drop_upstream s srv) = config_ptr srv"
  "active_connections (drop_upstream s srv) = active_connections srv"
  "server_stats (drop_upstream s srv) = server_stats srv"
  "upstream_sync (drop_upstream s srv) = upstream_sync srv"
  by (simp_all add: drop_upstream_def)

lemmas counters = count_error_def count_response_def record_duration_def Let_def

lemmas frames = stratum_frame drop_upstream_frame

section \<open>The invariant\<close>

text \<open>
  The configuration pointers are valid, every object has a stratum of at most 15, the table has
  one entry per key, the connection counter is the size of the table, no connection of the table
  is stopped, and answers and answered requests are counted alike.
\<close>

definition server_inv :: "NtpServer \<Rightarrow> bool" where
  "server_inv srv \<longleftrightarrow> config_ptr srv < length (configs srv)
   \<and> (\<forall>c \<in> set (configs srv). cfg_stratum c \<le> 15)
   \<and> distinct (map fst (active_connections srv))
   \<and> (\<forall>e \<in> set (active_connections srv). fst (snd e) < length (configs srv) \<and> isActive (snd (snd e)))
   \<and> active_count (server_stats srv) = of_nat (length (active_connections srv))
   \<and> total_responses (server_stats srv) = total_requests (server_stats srv)"

lemma server_inv_init: "cfg_stratum c \<le> 15 \<Longrightarrow> server_inv (NtpServer_init c logger)"
  by (simp add: server_inv_def NtpServer_init_def NtpServerStats_init_def)

lemma server_inv_config: "server_inv srv \<Longrightarrow> config_of srv = Some (the_config srv)"
  by (simp add: server_inv_def config_of_def deref_def the_config_def)

lemma server_inv_stats:
  assumes "server_inv srv" "active_count st = active_count (server_stats srv)"
    "total_responses st = total_requests st"
  shows "server_inv (srv\<lparr>server_stats := st\<rparr>)"
  using assms by (simp add: server_inv_def)

lemma server_inv_counters:
  assumes "server_inv srv"
  shows "server_inv (count_error srv)" "server_inv (count_response n srv)"
    "server_inv (record_duration d srv)"
  using assms by (simp_all add: counters upd_stats_def server_inv_def)

lemma server_inv_tables:
  "server_inv srv \<Longrightarrow> server_inv (srv\<lparr>connection_rate_buckets := t\<rparr>)"
  "server_inv srv \<Longrightarrow> server_inv (srv\<lparr>request_second_buckets := t\<rparr>)"
  by (simp_all add: server_inv_def)

lemma server_inv_cong:
  assumes "server_inv srv" "configs srv' = configs srv" "config_ptr srv' = config_ptr srv"
    "active_connections srv' = active_connections srv" "server_stats srv' = server_stats srv"
  shows "server_inv srv'"
  using assms by (simp add: server_inv_def)

lemma stratum_step_bound: "uint (s::u8) < 15 \<Longrightarrow> word_of_int (uint s + 1) \<le> (15 :: u8)"
  by (rule small_stratum) simp_all

lemma server_inv_stratum:
  assumes "server_inv srv"
  shows "server_inv (applyDynamicStratum srv)"
proof -
  have "\<forall>c \<in> set (configs (applyDynamicStratum srv)). cfg_stratum c \<le> 15"
    using assms stratum_step_bound
    by (auto simp: applyDynamicStratum_def server_inv_def config_of_def deref_def
        dest!: set_update_subset_insert [THEN subsetD] split: option.split)
  then show ?thesis using assms by (simp add: server_inv_def frames)
qed

lemma length_update:
  "length (AList.update k v xs) = (if k \<in> fst ` set xs then length xs else Suc (length xs))"
  by (induction xs) auto

lemma set_update:
  "e \<in> set (AList.update k v xs) \<Longrightarrow> e = (k, v) \<or> e \<in> set xs"
  by (induction xs) (auto split: if_splits)

lemma server_inv_update:
  assumes "server_inv srv" "key \<in> fst ` set (active_connections srv)"
    "p < length (configs srv)" "isActive conn"
  shows "server_inv (update_connection key p conn srv)"
  using assms
  by (auto simp: server_inv_def update_connection_def length_update distinct_update
      dest!: set_update)

lemma getOrCreate_inv:
  assumes "server_inv srv" "getOrCreateConnection pt ip port srv = Inr ((p, conn), srv')"
  shows "server_inv srv' \<and> client_key ip port \<in> fst ` set (active_connections srv')
    \<and> p < length (configs srv') \<and> isActive conn"
proof (cases "map_of (active_connections srv) (client_key ip port)")
  case None
  then have new: "client_key ip port \<notin> fst ` set (active_connections srv)"
    by (simp add: map_of_eq_None_iff)
  from assms(2) None obtain allowed where
      conn: "conn = setTrusted allowed (NtpConnection_init INVALID_SOCKET ip)" "p = config_ptr srv"
    and srv': "srv' = upd_stats (\<lambda>st. st\<lparr>total_connections := total_connections st + 1,
        active_count := active_count st + 1\<rparr>)
       (srv\<lparr>active_connections := AList.update (client_key ip port) (p, conn) (active_connections srv)\<rparr>)"
    by (auto simp: getOrCreateConnection_def Let_def result_simps)
  have "isActive conn" by (simp add: conn isActive_def setTrusted_def NtpConnection_init_def)
  with assms(1) new show ?thesis
    by (auto simp: srv' conn(2) server_inv_def upd_stats_def length_update distinct_update dom_update
        dest!: set_update)
next
  case (Some x)
  with assms(2) have "x = (p, conn)" "srv' = srv" by (auto simp: getOrCreateConnection_def)
  with Some assms(1) show ?thesis
    by (force simp: server_inv_def dest: map_of_SomeD)
qed

section \<open>The handler, case by case\<close>

lemma processPacket_cases:
  assumes "processPacket env ip port data srv = Inr (sent, srv')"
  obtains (dropped) t t' where "sent = None"
      "srv' = count_error (srv\<lparr>connection_rate_buckets := t, request_second_buckets := t'\<rparr>)"
  | (handled) t t' p conn srv1 where
      "isClientAllowed (parse_address env) (config_of srv) ip = Inr True"
      "\<not> fst (isRateLimitExceeded (config_of srv) (rate_minute env) ip (connection_rate_buckets srv))"
      "getOrCreateConnection (parse_address env) ip port
         (srv\<lparr>connection_rate_buckets := t, request_second_buckets := t'\<rparr>) = Inr ((p, conn), srv1)"
      "handle_datagram env ip port data ((p, conn), srv1) = (sent, srv')"
proof -
  obtain allowed where allowed: "isClientAllowed (parse_address env) (config_of srv) ip = Inr allowed"
    using assms by (auto simp: processPacket_def result_simps)
  obtain exceeded t where rate: "isRateLimitExceeded (config_of srv) (rate_minute env) ip
      (connection_rate_buckets srv) = (exceeded, t)" by fastforce
  obtain anomaly t' where ddos: "isDdosAnomaly (config_of srv) (ddos_second env) ip
      (request_second_buckets srv) = (anomaly, t')" by fastforce
  have cfg: "config_of (srv\<lparr>connection_rate_buckets := t\<rparr>) = config_of srv"
    "config_of (srv\<lparr>connection_rate_buckets := t, request_second_buckets := t'\<rparr>) = config_of srv"
    by (simp_all add: config_of_def)
  note eq = assms [unfolded processPacket_def, simplified, unfolded allowed bind_result.simps rate
      Let_def prod.case cfg]
  consider "\<not> allowed" | "allowed" "exceeded" | "allowed" "\<not> exceeded" by blast
  then show ?thesis
  proof cases
    case 1
    then show ?thesis
      using eq
      by (intro dropped [of "request_second_buckets srv" "connection_rate_buckets srv"]) auto
  next
    case 2
    then show ?thesis
      using eq by (intro dropped [of "request_second_buckets srv" t]) auto
  next
    case 3
    then show ?thesis
      using eq allowed rate ddos cfg
      by (auto simp: result_simps split: if_splits intro: dropped handled)
  qed
qed

lemma answer_request_inv:
  assumes "server_inv srv" "answer_request env data srv = (sent, timed, srv')"
  shows "server_inv srv'"
proof -
  obtain s srv2 where sel: "selectUpstreamServer (uniform env) (applyDynamicStratum srv) = (s, srv2)"
    by fastforce
  have "server_inv srv2"
    using server_inv_stratum [OF assms(1)] select_frame [OF sel] by (simp add: server_inv_cong)
  then have "server_inv (drop_upstream s (count_error srv2))"
    by (rule server_inv_cong [OF server_inv_counters(1)]) (simp_all add: drop_upstream_frame)
  moreover obtain parsed req where parse: "parseFromData data NtpPacket_init = (parsed, req)"
    by fastforce
  have "srv' = count_error srv \<or> srv' = drop_upstream s (count_error srv2)
      \<or> srv' = count_response (length data) srv2"
    using assms(2) by (simp add: answer_request_def Let_def parse sel split: if_splits)
  ultimately show ?thesis
    using \<open>server_inv srv2\<close> server_inv_counters assms(1) by metis
qed

lemma handle_datagram_inv:
  assumes "server_inv srv" "client_key ip port \<in> fst ` set (active_connections srv)"
    "p < length (configs srv)" "isActive conn"
    "handle_datagram env ip port data ((p, conn), srv) = (sent, srv')"
  shows "server_inv srv'"
proof -
  obtain ok conn' where h: "handlePacket (digest_of env) (begin_entry_of env) (deref (configs srv) p)
      (request_minute env) data conn = (ok, conn')" by fastforce
  then have "isActive conn'"
    using assms(4) handlePacket_frame(1) [of "digest_of env" "begin_entry_of env"
        "deref (configs srv) p" "request_minute env" data conn] by (simp add: isActive_def)
  with assms have u: "server_inv (update_connection (client_key ip port) p conn' srv)"
    by (intro server_inv_update) auto
  show ?thesis
    using assms(5) answer_request_inv [OF u] server_inv_counters [OF u]
    by (auto simp: handle_datagram_def h Let_def server_inv_counters split: prod.splits if_splits)
qed

lemma processPacket_inv:
  assumes "server_inv srv" "processPacket env ip port data srv = Inr (sent, srv')"
  shows "server_inv srv'"
  using assms(2)
proof (cases rule: processPacket_cases)
  case (dropped t t')
  then show ?thesis using assms(1) by (simp add: server_inv_counters server_inv_tables)
next
  case (handled t t' p conn srv1)
  from assms(1) have "server_inv (srv\<lparr>connection_rate_buckets := t, request_second_buckets := t'\<rparr>)"
    by (simp add: server_inv_tables)
  from getOrCreate_inv [OF this handled(3)] handled(4) show ?thesis
    by (blast intro: handle_datagram_inv)
qed

section \<open>The reply\<close>

lemma answer_request_reply:
  assumes "answer_request env data srv = (Some r, timed, srv')"
  shows "r = serializeToData (correct_clock (upstream_sync srv)
      (createServerResponse (snd (parseFromData data NtpPacket_init)) (response_stratum srv)
        (effectiveReferenceId (config_of srv)) (rx_time env) (tx_time env) (ref_time env)))"
  using assms
  by (simp add: answer_request_def Let_def frames case_prod_beta split: prod.splits if_splits)

lemma correct_clock_fields [simp]:
  "mode (correct_clock sync p) = mode p" "version (correct_clock sync p) = version p"
  "leap_indicator (correct_clock sync p) = leap_indicator p"
  "stratum (correct_clock sync p) = stratum p" "poll (correct_clock sync p) = poll p"
  "precision (correct_clock sync p) = precision p"
  "originate_ts (correct_clock sync p) = originate_ts p"
  "reference_id (correct_clock sync p) = reference_id p"
  by (simp_all add: correct_clock_def Let_def split: option.split)

lemma response_stratum_cong:
  assumes "configs srv = configs srv'" "config_ptr srv = config_ptr srv'"
    "upstream_sync srv = upstream_sync srv'"
  shows "response_stratum srv = response_stratum srv'"
  unfolding response_stratum_def the_config_def assms ..

lemma response_stratum_le: "server_inv srv \<Longrightarrow> response_stratum srv \<le> 15"
  by (auto simp: response_stratum_def server_inv_def the_config_def effectiveStratum_le
      split: option.split)

lemma getOrCreate_frame:
  assumes "getOrCreateConnection pt ip port srv = Inr (pc, srv')"
  shows "configs srv' = configs srv \<and> config_ptr srv' = config_ptr srv
    \<and> upstream_sync srv' = upstream_sync srv \<and> healthy_upstreams srv' = healthy_upstreams srv
    \<and> total_requests (server_stats srv') = total_requests (server_stats srv)
    \<and> total_errors (server_stats srv') = total_errors (server_stats srv)"
  using assms by (auto simp: getOrCreateConnection_def Let_def result_simps split: option.splits)

lemma update_connection_frame [simp]:
  "configs (update_connection k p c srv) = configs srv"
  "config_ptr (update_connection k p c srv) = config_ptr srv"
  "upstream_sync (update_connection k p c srv) = upstream_sync srv"
  "server_stats (update_connection k p c srv) = server_stats srv"
  by (simp_all add: update_connection_def)

lemma handle_datagram_reply:
  assumes "handle_datagram env ip port data ((p, conn), srv) = (Some r, srv')"
  shows "client_request_bytes data
    \<and> r = serializeToData (correct_clock (upstream_sync srv)
      (createServerResponse (snd (parseFromData data NtpPacket_init)) (response_stratum srv)
        (effectiveReferenceId (config_of srv)) (rx_time env) (tx_time env) (ref_time env)))"
proof -
  obtain ok conn' where h: "handlePacket (digest_of env) (begin_entry_of env) (deref (configs srv) p)
      (request_minute env) data conn = (ok, conn')" by fastforce
  let ?u = "update_connection (client_key ip port) p conn' srv"
  obtain r' timed srv2 where a: "answer_request env data ?u = (r', timed, srv2)"
    by (metis prod_cases3)
  from assms have "ok" and "r' = Some r"
    by (simp_all add: handle_datagram_def h a Let_def split: if_splits)
  moreover have "config_of ?u = config_of srv" by (simp add: config_of_def)
  moreover have "response_stratum ?u = response_stratum srv"
    by (rule response_stratum_cong) simp_all
  ultimately show ?thesis
    using a answer_request_reply [of env data ?u r timed srv2]
      handlePacket_accepts [of "digest_of env" "begin_entry_of env" "deref (configs srv) p"
        "request_minute env" data conn] h
    by simp
qed

text \<open>The reply of the handler before it is put on the wire.\<close>

definition reply_packet :: "packet_env \<Rightarrow> u8 list \<Rightarrow> NtpServer \<Rightarrow> NtpPacket" where
  "reply_packet env data srv = correct_clock (upstream_sync srv)
     (createServerResponse (snd (parseFromData data NtpPacket_init)) (response_stratum srv)
        (effectiveReferenceId (config_of srv)) (rx_time env) (tx_time env) (ref_time env))"

lemma packet_reply_bytes:
  assumes "server_inv srv" and "processPacket env ip port data srv = Inr (Some r, srv')"
  shows "isClientAllowed (parse_address env) (config_of srv) ip = Inr True"
    and "client_request_bytes data" and "r = serializeToData (reply_packet env data srv)"
    and "in_wire_range (reply_packet env data srv)" and "isValid (reply_packet env data srv)"
proof -
  show "isClientAllowed (parse_address env) (config_of srv) ip = Inr True"
    and "client_request_bytes data" and "r = serializeToData (reply_packet env data srv)"
    using assms(2)
  proof (atomize (full), cases rule: processPacket_cases)
    case (handled t t' ptr conn srv1)
    have sync: "upstream_sync srv1 = upstream_sync srv" and cfg: "config_of srv1 = config_of srv"
      using getOrCreate_frame [OF handled(3)] by (simp_all add: config_of_def)
    have "response_stratum srv1 = response_stratum srv"
      using getOrCreate_frame [OF handled(3)] by (intro response_stratum_cong) simp_all
    with handled(1) handle_datagram_reply [OF handled(4)]
    show "isClientAllowed (parse_address env) (config_of srv) ip = Inr True
        \<and> client_request_bytes data \<and> r = serializeToData (reply_packet env data srv)"
      by (simp add: reply_packet_def sync cfg)
  qed simp
  show "in_wire_range (reply_packet env data srv)" and "isValid (reply_packet env data srv)"
    using response_stratum_le [OF assms(1)]
    by (simp_all add: reply_packet_def isValid_iff in_wire_range_def createServerResponse_fields)
qed

lemma packet_reply:
  assumes "server_inv srv" and "processPacket env ip port data srv = Inr (Some r, srv')"
    and "p = snd (parseFromData r NtpPacket_init)"
  shows "isClientAllowed (parse_address env) (config_of srv) ip = Inr True
    \<and> client_request_bytes data \<and> length r = 48 \<and> length r \<le> length data
    \<and> isValid p \<and> mode p = 4
    \<and> originate_ts p = transmit_ts (snd (parseFromData data NtpPacket_init))
    \<and> stratum p = response_stratum srv
    \<and> reference_id p = reference_id_word (effectiveReferenceId (config_of srv))"
proof -
  note r = packet_reply_bytes [OF assms(1,2)]
  have "p = reply_packet env data srv"
    using parse_wire_range [OF r(4), of "[]"] by (simp add: assms(3) r(3))
  then show ?thesis
    using r by (simp add: reply_packet_def createServerResponse_fields client_request_bytes_def)
qed

text \<open>What every reply is, whatever it answers.\<close>

definition valid_reply :: "u8 list \<Rightarrow> bool" where
  "valid_reply r \<longleftrightarrow> length r = 48 \<and> isValid (snd (parseFromData r NtpPacket_init))
     \<and> mode (snd (parseFromData r NtpPacket_init)) = 4"

lemma packet_reply_valid:
  assumes "server_inv srv" and "processPacket env ip port data srv = Inr (Some r, srv')"
  shows "valid_reply r"
  using packet_reply [OF assms refl] by (simp add: valid_reply_def)

section \<open>Who is answered\<close>

text \<open>The connection that answers a client: the one in the table, or the new one it would get.\<close>

definition connection_for :: "string \<Rightarrow> u16 \<Rightarrow> NtpServer \<Rightarrow> nat \<times> NtpConnection" where
  "connection_for ip port srv =
     (case map_of (active_connections srv) (client_key ip port) of
        Some conn \<Rightarrow> conn
      | None \<Rightarrow> (config_ptr srv, setTrusted True (NtpConnection_init INVALID_SOCKET ip)))"

lemma getOrCreate_connection:
  assumes "isClientAllowed pton (config_of srv) ip = Inr True"
    and "config_of (srv\<lparr>connection_rate_buckets := t, request_second_buckets := t'\<rparr>) = config_of srv"
  obtains srv1 where "getOrCreateConnection pton ip port
      (srv\<lparr>connection_rate_buckets := t, request_second_buckets := t'\<rparr>) = Inr (connection_for ip port srv, srv1)"
    and "configs srv1 = configs srv"
  using assms
  by (cases "map_of (active_connections srv) (client_key ip port)")
     (auto simp: getOrCreateConnection_def connection_for_def Let_def upd_stats_def)

lemma connection_for_active: "server_inv srv \<Longrightarrow> conn_active (snd (connection_for ip port srv))"
  by (auto simp: connection_for_def server_inv_def isActive_def setTrusted_def NtpConnection_init_def
      split: option.split dest!: map_of_SomeD)

lemma handle_datagram_answers:
  "fst (handle_datagram env ip port data ((p, conn), srv)) \<noteq> None \<longleftrightarrow>
     fst (handlePacket (digest_of env) (begin_entry_of env) (deref (configs srv) p)
       (request_minute env) data conn)"
proof -
  have "fst (answer_request env data s) \<noteq> None" if "client_request_bytes data" for s
    using that parse_request(1) [of data]
    by (auto simp: answer_request_def Let_def client_request_bytes_def split: prod.splits)
  moreover have "client_request_bytes data"
    if "fst (handlePacket (digest_of env) (begin_entry_of env) (deref (configs srv) p)
       (request_minute env) data conn)"
    using that by (simp add: handlePacket_accepts)
  ultimately show ?thesis
    by (auto simp: handle_datagram_def Let_def case_prod_beta)
qed

lemma processPacket_returns:
  assumes "isClientAllowed (parse_address env) (config_of srv) ip = Inr allowed"
  shows "\<exists>sent srv'. processPacket env ip port data srv = Inr (sent, srv')"
proof -
  have "getOrCreateConnection (parse_address env) ip port
      (srv\<lparr>connection_rate_buckets := t, request_second_buckets := t'\<rparr>) \<noteq> Inl x" for t t' x
    using assms
    by (auto simp: getOrCreateConnection_def Let_def result_simps config_of_def split: option.split)
  then have "processPacket env ip port data srv \<noteq> Inl x" for x
    using assms by (simp add: processPacket_def Let_def config_of_def result_simps case_prod_beta)
  then show ?thesis by (cases "processPacket env ip port data srv") auto
qed

section \<open>Properties of the handler\<close>

text \<open>
  C6. Handling a datagram keeps the server's invariant, whatever the datagram, the client, the
  clock and the network do; removing inactive connections keeps it too, and removes nothing: no
  connection of the table is ever stopped, so the table and the counter of active connections
  only grow.
\<close>
theorem server_invariant:
  assumes "server_inv srv"
  shows "(processPacket env ip port data srv = Inr (sent, srv') \<longrightarrow> server_inv srv')
    \<and> server_inv (cleanupConnections srv)
    \<and> active_connections (cleanupConnections srv) = active_connections srv"
proof -
  have all: "\<forall>e \<in> set (active_connections srv). isActive (snd (snd e))"
    using assms by (simp add: server_inv_def)
  then have "filter (\<lambda>e. isActive (snd (snd e))) (active_connections srv) = active_connections srv"
    by (simp add: filter_id_conv)
  moreover have "filter (\<lambda>e. \<not> isActive (snd (snd e))) (active_connections srv) = []"
    using all by (simp add: filter_empty_conv)
  ultimately show ?thesis
    using assms processPacket_inv [OF assms]
    by (auto simp: cleanupConnections_def upd_stats_def server_inv_def)
qed

theorem server_invariant_witness:
  "server_inv (cleanupConnections (NtpServer_init setDefaults Logger_init))"
  using server_invariant [of "NtpServer_init setDefaults Logger_init"]
  by (simp add: server_inv_init setDefaults_def)

text \<open>
  C2. Every datagram the server sends answers a well-formed request of an admitted client: it is
  a valid mode 4 packet of 48 bytes, never longer than the request, that echoes the request's
  transmit timestamp and carries the announced stratum and reference identifier.
\<close>
theorem reply_wellformed:
  assumes "server_inv srv" and "processPacket env ip port data srv = Inr (Some r, srv')"
    and "p = snd (parseFromData r NtpPacket_init)"
  shows "isClientAllowed (parse_address env) (config_of srv) ip = Inr True
    \<and> client_request_bytes data \<and> length r = 48 \<and> length r \<le> length data
    \<and> isValid p \<and> mode p = 4
    \<and> originate_ts p = transmit_ts (snd (parseFromData data NtpPacket_init))
    \<and> stratum p = response_stratum srv
    \<and> reference_id p = reference_id_word (effectiveReferenceId (config_of srv))"
  by (rule packet_reply [OF assms])

definition example_packet_env :: packet_env where
  "example_packet_env = \<lparr>parse_address = inet_pton4, digest_of = \<lambda>_ _. None, begin_entry_of = hd,
     rate_minute = 1, ddos_second = 60, request_minute = 1, rx_time = 0, tx_time = 0, ref_time = 0,
     uniform = \<lambda>n. n, sendto_result = 48, duration_us = 12\<rparr>"

definition example_server :: NtpServer where
  "example_server = NtpServer_init setDefaults Logger_init"

definition example_request :: "u8 list" where
  "example_request = [0x23, 0, 4, 0xFA] @ replicate 44 0"

lemma example_handled:
  "\<exists>r srv'. processPacket example_packet_env ''10.0.0.1'' 4000 example_request example_server =
      Inr (Some r, srv')"
  by (simp add: processPacket_def isClientAllowed_def config_of_def deref_def example_server_def
      NtpServer_init_def setDefaults_def isRateLimitExceeded_def isDdosAnomaly_def
      getOrCreateConnection_def handle_datagram_def Let_def handlePacket_eq example_request_def
      client_request_bytes_def countRequest_def authentication_enabled_def answer_request_def
      parseFromData_def NTP_PACKET_SIZE_def case_prod_beta isActive_def setTrusted_def
      NtpConnection_init_def example_packet_env_def)

theorem reply_wellformed_witness:
  "\<exists>r srv'. processPacket example_packet_env ''10.0.0.1'' 4000 example_request example_server =
      Inr (Some r, srv') \<and> isValid (snd (parseFromData r NtpPacket_init)) \<and> length r \<le> 48"
proof -
  have inv: "server_inv example_server"
    by (simp add: example_server_def server_inv_init setDefaults_def)
  obtain r srv' where r: "processPacket example_packet_env ''10.0.0.1'' 4000 example_request
      example_server = Inr (Some r, srv')"
    using example_handled by blast
  from reply_wellformed [OF inv r refl] r show ?thesis by (simp add: example_request_def)
qed

text \<open>
  C3. The complete decision: a datagram is answered exactly when the access lists admit the client,
  the rate limit of the server is not exceeded, no anomaly is dropped (which needs graceful
  degradation switched on as well), the bytes are a well-formed client request, the request limit of
  the client's connection is not exceeded and, when that connection's configuration asks for it, the
  authentication check passes.
\<close>
theorem answered_exactly:
  assumes "server_inv srv" and "processPacket env ip port data srv = Inr (sent, srv')"
    and "connection_for ip port srv = (p, conn)"
  shows "sent \<noteq> None \<longleftrightarrow>
    isClientAllowed (parse_address env) (config_of srv) ip = Inr True
    \<and> \<not> fst (isRateLimitExceeded (config_of srv) (rate_minute env) ip (connection_rate_buckets srv))
    \<and> \<not> (fst (isDdosAnomaly (config_of srv) (ddos_second env) ip (request_second_buckets srv))
         \<and> enable_graceful_degradation (the_config srv))
    \<and> client_request_bytes data
    \<and> \<not> fst (countRequest (deref (configs srv) p) (request_minute env) conn)
    \<and> (authentication_enabled (deref (configs srv) p) \<longrightarrow>
         validateAuthentication (digest_of env) (begin_entry_of env) (deref (configs srv) p)
           (snd (parseFromData data NtpPacket_init)) data)"
proof -
  obtain allowed where allowed: "isClientAllowed (parse_address env) (config_of srv) ip = Inr allowed"
    using assms(2) by (auto simp: processPacket_def result_simps)
  obtain exceeded t where rate: "isRateLimitExceeded (config_of srv) (rate_minute env) ip
      (connection_rate_buckets srv) = (exceeded, t)" by fastforce
  obtain anomaly t' where ddos: "isDdosAnomaly (config_of srv) (ddos_second env) ip
      (request_second_buckets srv) = (anomaly, t')" by fastforce
  have cfg: "config_of (srv\<lparr>connection_rate_buckets := t\<rparr>) = config_of srv"
    "config_of (srv\<lparr>connection_rate_buckets := t, request_second_buckets := t'\<rparr>) = config_of srv"
    by (simp_all add: config_of_def)
  have active: "conn_active conn" using connection_for_active [OF assms(1), of ip port] assms(3) by simp
  note eq = assms(2) [unfolded processPacket_def, simplified, unfolded allowed bind_result.simps rate
      Let_def prod.case cfg]
  note c = server_inv_config [OF assms(1)]
  show ?thesis
  proof (cases "allowed \<and> \<not> exceeded \<and> \<not> (anomaly \<and> enable_graceful_degradation (the_config srv))")
    case True
    then have "isClientAllowed (parse_address env) (config_of srv) ip = Inr True" using allowed by simp
    from getOrCreate_connection [OF this cfg(2)] obtain srv1 where
        g: "getOrCreateConnection (parse_address env) ip port
          (srv\<lparr>connection_rate_buckets := t, request_second_buckets := t'\<rparr>) = Inr ((p, conn), srv1)"
      and cs: "configs srv1 = configs srv" by (metis assms(3))
    have "sent = fst (handle_datagram env ip port data ((p, conn), srv1))"
      using eq True ddos g c cfg by (auto simp: result_simps)
    then show ?thesis
      using True allowed rate ddos active
      by (simp add: handle_datagram_answers handlePacket_accepts cs del: not_None_eq)
  next
    case False
    then have "sent = None" using eq ddos c cfg by (auto simp: result_simps split: if_splits)
    with False allowed rate ddos show ?thesis by auto
  qed
qed

theorem answered_exactly_witness:
  "(\<exists>r srv'. processPacket example_packet_env ''10.0.0.1'' 4000 example_request example_server =
      Inr (Some r, srv'))
   \<and> (\<exists>srv'. processPacket example_packet_env ''10.0.0.1'' 4000 [1, 2, 3] example_server = Inr (None, srv'))"
proof -
  have inv: "server_inv example_server"
    by (simp add: example_server_def server_inv_init setDefaults_def)
  have cfg: "config_of example_server = Some setDefaults"
    by (simp add: example_server_def config_of_def deref_def NtpServer_init_def)
  have allowed: "isClientAllowed (parse_address example_packet_env) (config_of example_server) ''10.0.0.1''
      = Inr True"
    by (simp add: cfg isClientAllowed_def setDefaults_def)
  have conn: "connection_for ''10.0.0.1'' 4000 example_server =
      (0, setTrusted True (NtpConnection_init INVALID_SOCKET ''10.0.0.1''))"
    by (simp add: connection_for_def example_server_def NtpServer_init_def)
  have ptr: "deref (configs example_server) 0 = Some setDefaults"
    by (simp add: example_server_def deref_def NtpServer_init_def)
  have request: "client_request_bytes example_request"
    by (simp add: client_request_bytes_def example_request_def)
  obtain sent srv' where h: "processPacket example_packet_env ''10.0.0.1'' 4000 example_request
      example_server = Inr (sent, srv')" using processPacket_returns [OF allowed] by blast
  obtain sent' srv'' where h': "processPacket example_packet_env ''10.0.0.1'' 4000 [1, 2, 3]
      example_server = Inr (sent', srv'')" using processPacket_returns [OF allowed] by blast
  have "sent \<noteq> None"
    unfolding answered_exactly [OF inv h conn]
    using allowed request
    by (simp add: cfg ptr isRateLimitExceeded_def isDdosAnomaly_def countRequest_def
        authentication_enabled_def setDefaults_def)
  moreover have "sent' = None"
    using answered_exactly [OF inv h' conn] by (simp add: client_request_bytes_def)
  ultimately show ?thesis using h h' by auto
qed

section \<open>Accounting and errors\<close>

definition counted :: "bool \<Rightarrow> NtpServerStats \<Rightarrow> NtpServerStats \<Rightarrow> bool" where
  "counted answered st st' \<longleftrightarrow>
     total_requests st' = total_requests st + (if answered then 1 else 0)
   \<and> total_errors st' = total_errors st + (if answered then 0 else 1)"

lemma answer_request_counted:
  assumes "answer_request env data srv = (sent, timed, srv')" "48 \<le> length data"
  shows "counted (sent \<noteq> None \<and> 0 \<le> sendto_result env) (server_stats srv) (server_stats srv')"
proof -
  obtain s srv2 where sel: "selectUpstreamServer (uniform env) (applyDynamicStratum srv) = (s, srv2)"
    by fastforce
  have "server_stats srv2 = server_stats srv" using select_frame [OF sel] by (simp add: frames)
  moreover have "fst (parseFromData data NtpPacket_init)" by (rule parse_request(1) [OF assms(2)])
  ultimately show ?thesis
    using assms(1)
    by (auto simp: answer_request_def Let_def sel case_prod_beta counted_def counters frames
        split: if_splits)
qed

lemma handle_datagram_counted:
  assumes "handle_datagram env ip port data ((p, conn), srv) = (sent, srv')"
  shows "counted (sent \<noteq> None \<and> 0 \<le> sendto_result env) (server_stats srv) (server_stats srv')"
proof -
  obtain ok conn' where h: "handlePacket (digest_of env) (begin_entry_of env) (deref (configs srv) p)
      (request_minute env) data conn = (ok, conn')" by fastforce
  let ?u = "update_connection (client_key ip port) p conn' srv"
  obtain r timed srv2 where a: "answer_request env data ?u = (r, timed, srv2)"
    by (metis prod_cases3)
  show ?thesis
  proof (cases ok)
    case True
    then have "48 \<le> length data"
      using handlePacket_accepts [of "digest_of env" "begin_entry_of env" "deref (configs srv) p"
          "request_minute env" data conn] h by (simp add: client_request_bytes_def)
    from answer_request_counted [OF a this] True assms show ?thesis
      by (auto simp: handle_datagram_def h a Let_def counted_def counters split: if_splits)
  next
    case False
    with assms show ?thesis
      by (auto simp: handle_datagram_def h Let_def counted_def counters)
  qed
qed

text \<open>
  C11. Every datagram is counted once: as an answered request when a reply was handed to the
  network and accepted by it, as an error otherwise, whether it was dropped by the access lists,
  a limit, the anomaly check, the connection, or the send.
\<close>
theorem every_datagram_counted:
  assumes "processPacket env ip port data srv = Inr (sent, srv')"
  shows "total_requests (server_stats srv') =
      total_requests (server_stats srv) + (if sent \<noteq> None \<and> 0 \<le> sendto_result env then 1 else 0)
    \<and> total_errors (server_stats srv') =
      total_errors (server_stats srv) + (if sent \<noteq> None \<and> 0 \<le> sendto_result env then 0 else 1)"
  using assms
proof (cases rule: processPacket_cases)
  case (dropped t t')
  then show ?thesis by (simp add: counters)
next
  case (handled t t' p conn srv1)
  then show ?thesis
    using handle_datagram_counted [OF handled(4)] getOrCreate_frame [OF handled(3)]
    by (simp add: counted_def)
qed

theorem every_datagram_counted_witness:
  "\<exists>r srv'. processPacket example_packet_env ''10.0.0.1'' 4000 example_request example_server =
      Inr (r, srv')
    \<and> total_requests (server_stats srv') = 1 \<and> total_errors (server_stats srv') = 0"
proof -
  obtain r srv' where h: "processPacket example_packet_env ''10.0.0.1'' 4000 example_request
      example_server = Inr (Some r, srv')"
    using example_handled by blast
  from every_datagram_counted [OF h] have
    "total_requests (server_stats srv') = 1 \<and> total_errors (server_stats srv') = 0"
    by (simp add: example_packet_env_def example_server_def NtpServer_init_def
        NtpServerStats_init_def)
  with h show ?thesis by blast
qed


section \<open>The upstream choice and the stratum\<close>

text \<open>Successive choices with no change of the configuration or the list in between.\<close>

fun select_many :: "(nat \<Rightarrow> nat) \<Rightarrow> nat \<Rightarrow> NtpServer \<Rightarrow> string list" where
  "select_many unif 0 srv = []"
| "select_many unif (Suc n) srv =
     (let (s, srv) = selectUpstreamServer unif srv in s # select_many unif n srv)"

lemma select_round_robin:
  assumes "config_of srv = Some c" "upstream_servers c \<noteq> []"
    "upstream_selection_algorithm c \<noteq> UPSTREAM_RANDOM" "2 \<le> length (healthy_upstreams srv)"
  shows "selectUpstreamServer unif srv =
    (healthy_upstreams srv ! (unat (upstream_rr_index srv) mod length (healthy_upstreams srv)),
     srv\<lparr>upstream_rr_index := upstream_rr_index srv + 1\<rparr>)"
  using assms by (auto simp: selectUpstreamServer_def Let_def)

lemma select_many_round_robin:
  assumes "config_of srv = Some c" "upstream_servers c \<noteq> []"
    "upstream_selection_algorithm c \<noteq> UPSTREAM_RANDOM" "2 \<le> length (healthy_upstreams srv)"
    "unat (upstream_rr_index srv) + n < 2 ^ 64"
  shows "select_many unif n srv =
    map (\<lambda>k. healthy_upstreams srv !
      ((unat (upstream_rr_index srv) + k) mod length (healthy_upstreams srv))) [0..<n]"
  using assms
proof (induction n arbitrary: srv)
  case 0
  then show ?case by simp
next
  case (Suc n)
  let ?srv = "srv\<lparr>upstream_rr_index := upstream_rr_index srv + 1\<rparr>"
  have inc: "unat (upstream_rr_index srv + 1) = unat (upstream_rr_index srv) + 1"
    using Suc.prems(5) by (intro unat_inc) simp
  have "select_many unif n ?srv = map (\<lambda>k. healthy_upstreams srv !
      ((unat (upstream_rr_index srv) + 1 + k) mod length (healthy_upstreams srv))) [0..<n]"
    using Suc.IH [of ?srv] Suc.prems inc by (simp add: config_of_def)
  moreover have "[0..<Suc n] = 0 # map Suc [0..<n]"
    by (simp add: map_Suc_upt upt_conv_Cons del: upt_Suc)
  ultimately show ?case
    by (simp add: select_round_robin [OF Suc.prems(1-4)] comp_def del: upt_Suc)
qed

text \<open>
  With the round-robin choice (and with least-errors, which falls back to it), as many
  successive choices as there are healthy servers pick every one of them exactly once.
\<close>

lemma round_robin_fair:
  assumes "config_of srv = Some c" and "upstream_servers c \<noteq> []"
    and "upstream_selection_algorithm c \<noteq> UPSTREAM_RANDOM" and "2 \<le> length (healthy_upstreams srv)"
    and "unat (upstream_rr_index srv) + length (healthy_upstreams srv) < 2 ^ 64"
  shows "select_many unif (length (healthy_upstreams srv)) srv =
      rotate (unat (upstream_rr_index srv)) (healthy_upstreams srv)"
proof (rule nth_equalityI)
  show "length (select_many unif (length (healthy_upstreams srv)) srv) =
      length (rotate (unat (upstream_rr_index srv)) (healthy_upstreams srv))"
    using select_many_round_robin [OF assms] by simp
next
  fix i
  assume "i < length (select_many unif (length (healthy_upstreams srv)) srv)"
  then show "select_many unif (length (healthy_upstreams srv)) srv ! i =
      rotate (unat (upstream_rr_index srv)) (healthy_upstreams srv) ! i"
    using select_many_round_robin [OF assms] by (simp add: nth_rotate)
qed

lemma round_robin_fair_witness:
  "select_many (\<lambda>n. n) (Suc (Suc 0))
     (example_server\<lparr>healthy_upstreams := [''a'', ''b''], upstream_rr_index := 1\<rparr>) = [''b'', ''a'']"
proof -
  let ?srv = "example_server\<lparr>healthy_upstreams := [''a'', ''b''], upstream_rr_index := 1\<rparr>"
  have "config_of ?srv = Some setDefaults"
    by (simp add: config_of_def deref_def example_server_def NtpServer_init_def)
  then have "select_many (\<lambda>n. n) (length (healthy_upstreams ?srv)) ?srv =
      rotate (unat (upstream_rr_index ?srv)) (healthy_upstreams ?srv)"
    by (rule round_robin_fair) (simp_all add: setDefaults_def)
  moreover have "length (healthy_upstreams ?srv) = Suc (Suc 0)"
    "rotate (unat (upstream_rr_index ?srv)) (healthy_upstreams ?srv) = [''b'', ''a'']"
    by simp_all
  ultimately show ?thesis by (simp only:)
qed

text \<open>The announced stratum only rises, within its range, and nothing else changes.\<close>

lemma dynamic_stratum:
  assumes "server_inv srv"
  shows "\<exists>st. applyDynamicStratum srv =
        srv\<lparr>configs := (configs srv)[config_ptr srv := (the_config srv)\<lparr>cfg_stratum := st\<rparr>]\<rparr>
      \<and> st \<le> 15
      \<and> (st = cfg_stratum (the_config srv)
         \<or> uint st = uint (cfg_stratum (the_config srv)) + 1
           \<and> enable_dynamic_stratum_adjustment (the_config srv)
           \<and> 100 < unat (total_requests (server_stats srv))
           \<and> unat (total_requests (server_stats srv)) < 5 * unat (total_errors (server_stats srv)))"
proof -
  let ?c = "the_config srv"
  have c: "config_of srv = Some ?c" by (rule server_inv_config [OF assms])
  have le: "cfg_stratum ?c \<le> 15" using assms by (simp add: server_inv_def the_config_def)
  have same: "srv = srv\<lparr>configs := (configs srv)[config_ptr srv := ?c\<lparr>cfg_stratum := cfg_stratum ?c\<rparr>]\<rparr>"
    by (simp add: the_config_def)
  have up: "uint (word_of_int (uint (cfg_stratum ?c) + 1) :: u8) = uint (cfg_stratum ?c) + 1"
    if "uint (cfg_stratum ?c) < 15"
    using that by (simp add: uint_word_ariths)
  show ?thesis
  proof (cases "enable_dynamic_stratum_adjustment ?c \<and> total_requests (server_stats srv) > 100
      \<and> 5 * unat (total_errors (server_stats srv)) > unat (total_requests (server_stats srv))
      \<and> uint (cfg_stratum ?c) < 15")
    case True
    then show ?thesis
      using up stratum_step_bound [of "cfg_stratum ?c"]
      by (intro exI [of _ "word_of_int (uint (cfg_stratum ?c) + 1)"])
         (simp add: applyDynamicStratum_def c word_less_nat_alt)
  next
    case False
    then have "applyDynamicStratum srv = srv" by (auto simp: applyDynamicStratum_def c)
    with same le show ?thesis by (intro exI [of _ "cfg_stratum ?c"]) simp
  qed
qed

end
