(* ===== verification/ServerControl.thy ===== *)
theory ServerControl
  imports Server
begin

text \<open>
  The life of the server in \<open>core/server.cpp\<close>: opening and closing the socket, \<open>start\<close> and
  \<open>stop\<close>, \<open>reloadConfig\<close> and the configuration watcher, the receive loop of a worker with its
  self-healing restart of the socket, and the files written at shutdown.

  \<^item> The results of the system calls are arguments; options that only lead to a warning
    (\<open>setsockopt\<close>, \<open>fcntl\<close>) are left out.
  \<^item> Starting threads sets their number and flags; what the threads then do is the receive loop
    below, \<open>sync_thread\<close> and \<open>configWatcherLoop\<close>. The start of the workers as interleaved steps is
    in the theory of the workers.
\<close>

section \<open>The socket\<close>

definition initializeSocket :: "int \<Rightarrow> NtpServer \<Rightarrow> bool \<times> NtpServer" where
  "initializeSocket sock srv =
     (let srv = srv\<lparr>server_socket := sock\<rparr>
      in if server_socket srv = INVALID_SOCKET then (False, srv) else (True, srv))"

definition bindSocket :: "(string \<Rightarrow> u32 option) \<Rightarrow> int \<Rightarrow> NtpServer \<Rightarrow> bool" where
  "bindSocket pton bind_rc srv =
     (if pton (server_address srv) = None then False
      else if bind_rc < 0 then False else True)"

definition closeSocket :: "NtpServer \<Rightarrow> NtpServer" where
  "closeSocket srv =
     (if server_socket srv \<noteq> INVALID_SOCKET then srv\<lparr>server_socket := INVALID_SOCKET\<rparr> else srv)"

section \<open>Starting\<close>

text \<open>What starting meets: the socket, the result of binding, the clock, the file's time stamp.\<close>

record start_env =
  start_pton :: "string \<Rightarrow> u32 option"
  start_socket :: int
  start_bind :: int
  start_now :: int
  start_mtime :: "string \<Rightarrow> int option"

definition tls_settings_missing :: "NtpConfig \<Rightarrow> bool" where
  "tls_settings_missing c \<longleftrightarrow>
     (enable_tls c \<or> enable_certificate_authentication c \<or> enable_certificate_validation c)
   \<and> (enable_certificate_validation c \<and> tls_ca_file c = []
      \<or> (enable_tls c \<or> enable_certificate_authentication c)
         \<and> (tls_cert_file c = [] \<or> tls_key_file c = []))"

definition startWorkerThreads :: "NtpServer \<Rightarrow> NtpServer" where
  "startWorkerThreads srv =
     srv\<lparr>worker_count := worker_count srv + unat (worker_threads (the_config srv)),
         workers_running := True\<rparr>"

definition stopWorkerThreads :: "NtpServer \<Rightarrow> NtpServer" where
  "stopWorkerThreads srv = srv\<lparr>workers_running := False, worker_count := 0\<rparr>"

definition startConfigWatcher :: "(string \<Rightarrow> int option) \<Rightarrow> NtpServer \<Rightarrow> NtpServer" where
  "startConfigWatcher mtime srv =
     (let cfg_path = (case config_of srv of None \<Rightarrow> [] | Some c \<Rightarrow> last_config_file c)
      in if cfg_path = [] then srv
         else srv\<lparr>config_mtime := mtime cfg_path, config_watch_running := True\<rparr>)"

definition stopConfigWatcher :: "NtpServer \<Rightarrow> NtpServer" where
  "stopConfigWatcher srv = srv\<lparr>config_watch_running := False\<rparr>"

definition server_start :: "start_env \<Rightarrow> NtpServer \<Rightarrow> bool \<times> NtpServer" where
  "server_start env srv =
     (if running srv then (False, srv)
      else if tls_settings_missing (the_config srv) then (False, srv)
      else
        (let (ok, srv) = initializeSocket (start_socket env) srv
         in if \<not> ok then (False, srv)
            else if \<not> bindSocket (start_pton env) (start_bind env) srv
            then (False, closeSocket srv)
            else
              (let srv = startWorkerThreads srv;
                   srv = startConfigWatcher (start_mtime env) srv;
                   srv = srv\<lparr>running := True\<rparr>;
                   srv = upd_stats (\<lambda>st. st\<lparr>start_time := start_now env\<rparr>) srv;
                   srv = srv\<lparr>healthy_upstreams := upstream_servers (the_config srv)\<rparr>;
                   srv = (if upstream_servers (the_config srv) \<noteq> []
                          then srv\<lparr>upstream_sync := Some (snd (sync_start UpstreamSyncManager_init))\<rparr>
                          else srv)
               in (True, srv))))"

section \<open>Stopping\<close>

type_synonym files = "string \<Rightarrow> string option"

definition json_counter :: "string \<Rightarrow> u64 \<Rightarrow> string" where
  "json_counter name n = ''  '' @ [quote] @ name @ [quote] @ '': '' @ to_string (uint n)"

definition persistState :: "(string \<Rightarrow> bool) \<Rightarrow> NtpServer \<Rightarrow> files \<Rightarrow> files" where
  "persistState writable srv fs =
     (case config_of srv of
        None \<Rightarrow> fs
      | Some c \<Rightarrow>
          if \<not> enable_state_persistence c \<or> state_file c = [] then fs
          else if \<not> writable (state_file c) then fs
          else fs(state_file c \<mapsto> ''{'' @ newline
                 @ json_counter ''total_requests'' (total_requests (server_stats srv)) @ '','' @ newline
                 @ json_counter ''total_errors'' (total_errors (server_stats srv)) @ '','' @ newline
                 @ json_counter ''total_connections'' (total_connections (server_stats srv)) @ newline
                 @ ''}'' @ newline))"

text \<open>
  \<open>loadState\<close>, at the start: the result is whether it logs that a state was loaded. It restores
  nothing.
\<close>

definition contains :: "string \<Rightarrow> string \<Rightarrow> bool" where
  "contains content s =
     list_ex (\<lambda>i. take (length s) (drop i content) = s) [0..<Suc (length content)]"

definition loadState :: "files \<Rightarrow> NtpServer \<Rightarrow> bool" where
  "loadState fs srv =
     (case config_of srv of
        None \<Rightarrow> False
      | Some c \<Rightarrow>
          if \<not> enable_state_persistence c \<or> state_file c = [] then False
          else (case fs (state_file c) of
                  None \<Rightarrow> False
                | Some content \<Rightarrow> contains content ''total_requests''))"

lemma contains_append: "contains (a @ s @ b) s"
  unfolding contains_def list_ex_iff by (intro bexI [of _ "length a"]) simp_all

lemma persisted_state_found:
  assumes "config_of srv = Some c" "enable_state_persistence c" "state_file c \<noteq> []"
    and "writable (state_file c)"
  shows "loadState (persistState writable srv fs) srv"
  using assms contains_append [of "''{'' @ newline @ ''  '' @ [quote]" "''total_requests''"]
  by (simp add: loadState_def persistState_def json_counter_def)

text \<open>
  \<open>backupConfig\<close>: the destination is truncated when it can be opened, before the source is
  checked.
\<close>

definition backupConfig :: "(string \<Rightarrow> bool) \<Rightarrow> NtpServer \<Rightarrow> files \<Rightarrow> files" where
  "backupConfig writable srv fs =
     (case config_of srv of
        None \<Rightarrow> fs
      | Some c \<Rightarrow>
          if backup_config_file c = [] \<or> last_config_file c = [] then fs
          else
            (let src = fs (last_config_file c);
                 fs = (if writable (backup_config_file c)
                       then fs(backup_config_file c \<mapsto> []) else fs)
             in case src of
                  None \<Rightarrow> fs
                | Some content \<Rightarrow>
                    if \<not> writable (backup_config_file c) then fs
                    else if backup_config_file c = last_config_file c then fs
                    else fs(backup_config_file c \<mapsto> content)))"

definition server_stop :: "(string \<Rightarrow> bool) \<Rightarrow> NtpServer \<times> files \<Rightarrow> NtpServer \<times> files" where
  "server_stop writable r =
     (let (srv, fs) = r
      in if \<not> running srv then (srv, fs)
         else
           (let srv = srv\<lparr>running := False\<rparr>;
                srv = srv\<lparr>upstream_sync := None\<rparr>;
                srv = stopWorkerThreads srv;
                srv = stopConfigWatcher srv;
                srv = cleanupConnections srv;
                fs = persistState writable srv fs;
                fs = backupConfig writable srv fs
            in (closeSocket srv, fs)))"

section \<open>Reloading\<close>

definition apply_logger_settings :: "NtpConfig \<Rightarrow> Logger \<Rightarrow> Logger" where
  "apply_logger_settings c lg =
     (let lg = setLevel (log_level c) lg;
          lg = setLogFile (log_file c) lg;
          lg = (if enable_console_logging c \<and> log_file c \<noteq> [] then setDestination BOTH lg
                else if enable_console_logging c then setDestination CONSOLE lg
                else setDestination FILE lg);
          lg = setSyslog (enable_syslog c) LOG_DAEMON lg;
          lg = setStructuredJson (log_json c) lg
      in setLogRotation (log_max_size_bytes c) (log_max_files c) lg)"

definition reloadConfig ::
    "files \<Rightarrow> (string \<Rightarrow> string option) \<Rightarrow> NtpServer \<Rightarrow> bool \<times> NtpServer" where
  "reloadConfig fs env srv =
     (case config_of srv of
        None \<Rightarrow> (False, srv)
      | Some c \<Rightarrow>
          (let cfg_path = last_config_file c
           in if cfg_path = [] then (False, srv)
              else
                (let (ok, new_config) = loadFromFile fs env cfg_path c
                 in if \<not> ok \<or> \<not> config_validate new_config then (False, srv)
                    else (True, srv\<lparr>
                           server_logger := apply_logger_settings new_config (server_logger srv),
                           configs := configs srv @ [new_config],
                           config_ptr := length (configs srv)\<rparr>))))"

text \<open>
  One round of the watcher after its sleep: the time stamp read (\<^const>\<open>None\<close> when that
  throws, which is ignored), compared with the one remembered.
\<close>

definition watch_round ::
    "int option \<Rightarrow> files \<Rightarrow> (string \<Rightarrow> string option) \<Rightarrow> NtpServer \<Rightarrow> NtpServer" where
  "watch_round current_mtime fs env srv =
     (case current_mtime of
        None \<Rightarrow> srv
      | Some t \<Rightarrow>
          (case config_mtime srv of
             None \<Rightarrow> srv\<lparr>config_mtime := Some t\<rparr>
           | Some seen \<Rightarrow>
               if t \<noteq> seen then snd (reloadConfig fs env (srv\<lparr>config_mtime := Some t\<rparr>)) else srv))"

fun configWatcherLoop ::
    "(int option \<times> files \<times> (string \<Rightarrow> string option)) list \<Rightarrow> NtpServer \<Rightarrow> NtpServer" where
  "configWatcherLoop [] srv = srv"
| "configWatcherLoop ((t, fs, env) # rounds) srv =
     (if config_watch_running srv then configWatcherLoop rounds (watch_round t fs env srv) else srv)"

section \<open>The receive loop of a worker\<close>

text \<open>
  What \<open>recvfrom\<close> reports: a datagram (of which the 48-byte buffer keeps the front), no data, or
  an error, with the results of opening and binding a new socket should the loop try that.
\<close>

datatype recv_event =
    Datagram packet_env string u16 "u8 list"
  | Would_block
  | Recv_error "string \<Rightarrow> u32 option" int int

definition heal_socket ::
    "(string \<Rightarrow> u32 option) \<Rightarrow> int \<Rightarrow> int \<Rightarrow> NtpServer \<Rightarrow> bool \<times> NtpServer" where
  "heal_socket pton sock bind_rc srv =
     (case config_of srv of
        None \<Rightarrow> (False, srv)
      | Some c \<Rightarrow>
          if enable_self_healing c \<and> restart_count srv < service_restart_limit c then
            (let srv = srv\<lparr>restart_count := restart_count srv + 1\<rparr>;
                 srv = closeSocket srv;
                 (ok, srv) = initializeSocket sock srv
             in (ok \<and> bindSocket pton bind_rc srv, srv))
          else (False, srv))"

fun processIncomingPackets ::
    "recv_event list \<Rightarrow> NtpServer \<Rightarrow> cpp_exn + u8 list list \<times> NtpServer" where
  "processIncomingPackets [] srv = Inr ([], srv)"
| "processIncomingPackets (ev # evs) srv =
     (if \<not> workers_running srv then Inr ([], srv)
      else
        (case ev of
           Would_block \<Rightarrow> Inr ([], srv)
         | Recv_error pt sock bind_res \<Rightarrow>
             (let (again, srv) = heal_socket pt sock bind_res srv
              in if again then processIncomingPackets evs srv else Inr ([], srv))
         | Datagram env client_ip client_port bytes \<Rightarrow>
             if bytes = [] then processIncomingPackets evs srv
             else
               bind_result (processPacket env client_ip client_port (take NTP_PACKET_SIZE bytes) srv)
                 (\<lambda>(sent, srv).
                    bind_result (processIncomingPackets evs srv)
                      (\<lambda>(replies, srv).
                         Inr ((case sent of None \<Rightarrow> replies | Some r \<Rightarrow> r # replies), srv)))))"

text \<open>
  A worker thread: as long as the flag is set, one run of the receive loop and a clean-up of the
  table. The list gives what each round receives and ends where the thread sleeps.
\<close>

definition worker_round :: "recv_event list \<Rightarrow> NtpServer \<Rightarrow> cpp_exn + u8 list list \<times> NtpServer" where
  "worker_round evs srv =
     bind_result (processIncomingPackets evs srv)
       (\<lambda>(replies, srv). Inr (replies, cleanupConnections srv))"

fun workerThreadFunction ::
    "recv_event list list \<Rightarrow> NtpServer \<Rightarrow> cpp_exn + u8 list list \<times> NtpServer" where
  "workerThreadFunction [] srv = Inr ([], srv)"
| "workerThreadFunction (evs # rounds) srv =
     (if \<not> workers_running srv then Inr ([], srv)
      else bind_result (worker_round evs srv)
        (\<lambda>(replies, srv). bind_result (workerThreadFunction rounds srv)
          (\<lambda>(more, srv). Inr (replies @ more, srv))))"

section \<open>Reloading and the invariant\<close>

lemma closeSocket_fields [simp]:
  "server_socket (closeSocket srv) = INVALID_SOCKET"
  "running (closeSocket srv) = running srv"
  "workers_running (closeSocket srv) = workers_running srv"
  "worker_count (closeSocket srv) = worker_count srv"
  "upstream_sync (closeSocket srv) = upstream_sync srv"
  "restart_count (closeSocket srv) = restart_count srv"
  "configs (closeSocket srv) = configs srv"
  "config_ptr (closeSocket srv) = config_ptr srv"
  "active_connections (closeSocket srv) = active_connections srv"
  "server_stats (closeSocket srv) = server_stats srv"
  by (simp_all add: closeSocket_def)

lemma reload_cases:
  assumes "reloadConfig fs env srv = (ok, srv')"
  obtains (kept) "\<not> ok" "srv' = srv"
  | (replaced) c new where "ok" "config_of srv = Some c" "last_config_file c \<noteq> []"
      "loadFromFile fs env (last_config_file c) c = (True, new)" "config_validate new"
      "srv' = srv\<lparr>server_logger := apply_logger_settings new (server_logger srv),
         configs := configs srv @ [new], config_ptr := length (configs srv)\<rparr>"
  using assms
  by (auto simp: reloadConfig_def Let_def split: option.splits prod.splits if_splits)

lemma reload_inv:
  assumes "server_inv srv" "reloadConfig fs env srv = (ok, srv')"
  shows "server_inv srv'"
  using assms(2)
proof (cases rule: reload_cases)
  case kept
  with assms(1) show ?thesis by simp
next
  case (replaced c new)
  have "cfg_stratum new \<le> 15"
    using replaced(5) by (simp add: config_validate_iff config_ranges_ok_def)
  with replaced(6) assms(1) show ?thesis by (auto simp: server_inv_def)
qed

lemma loadFromFile_remembers:
  assumes "loadFromFile fs env path c = (True, new)"
  shows "\<exists>c'. new = applyEnvironmentOverrides env (c'\<lparr>last_config_file := path\<rparr>)"
  using assms by (auto simp: loadFromFile_def Let_def split: prod.splits if_splits)

section \<open>Properties\<close>

text \<open>
  C20. Reloading is all or nothing: unless the file loads and the result validates, nothing
  changes; otherwise the server points to a new, validated object, every older object is still
  there unchanged, and the connections, which keep their pointers, the upstream synchronisation
  and the list of healthy servers stay on the old configuration. The invariant is kept.
\<close>
theorem reload_atomic:
  assumes "server_inv srv" and "reloadConfig fs env srv = (ok, srv')"
  shows "server_inv srv'
    \<and> (if ok
       then config_validate (the_config srv')
          \<and> (\<forall>p < length (configs srv). deref (configs srv') p = deref (configs srv) p)
          \<and> server_logger srv' = apply_logger_settings (the_config srv') (server_logger srv)
       else srv' = srv)
    \<and> active_connections srv' = active_connections srv
    \<and> upstream_sync srv' = upstream_sync srv \<and> healthy_upstreams srv' = healthy_upstreams srv
    \<and> server_address srv' = server_address srv \<and> server_port srv' = server_port srv"
  using assms(2)
proof (cases rule: reload_cases)
  case kept
  with assms(1) show ?thesis by simp
next
  case (replaced c new)
  then show ?thesis
    using reload_inv [OF assms] by (simp add: the_config_def deref_def nth_append)
qed

definition reload_example :: NtpServer where
  "reload_example = NtpServer_init (setDefaults\<lparr>last_config_file := ''ntpd.conf''\<rparr>) Logger_init"

theorem reload_atomic_witness:
  "\<exists>ok srv'. reloadConfig (\<lambda>_. None) (\<lambda>_. None) reload_example = (ok, srv') \<and> server_inv srv'"
proof -
  obtain ok srv' where r: "reloadConfig (\<lambda>_. None) (\<lambda>_. None) reload_example = (ok, srv')" by fastforce
  have "server_inv reload_example"
    by (simp add: reload_example_def server_inv_init setDefaults_def)
  from reload_atomic [OF this r] r show ?thesis by blast
qed


definition example_start :: start_env where
  "example_start = \<lparr>start_pton = (\<lambda>_. Some 0), start_socket = 5, start_bind = 0, start_now = 0,
     start_mtime = (\<lambda>_. None)\<rparr>"


section \<open>The restart limit\<close>

text \<open>What no datagram can change: the restart count, the pointer and the restart limits.\<close>

definition restart_view :: "NtpServer \<Rightarrow> u32 \<times> nat \<times> u32 list" where
  "restart_view srv = (restart_count srv, config_ptr srv, map service_restart_limit (configs srv))"

lemma restart_view_stats [simp]:
  "restart_view (upd_stats f srv) = restart_view srv"
  "restart_view (count_error srv) = restart_view srv"
  "restart_view (count_response n srv) = restart_view srv"
  "restart_view (record_duration d srv) = restart_view srv"
  "restart_view (drop_upstream s srv) = restart_view srv"
  "restart_view (update_connection k p c srv) = restart_view srv"
  by (simp_all add: restart_view_def counters upd_stats_def drop_upstream_def update_connection_def)

lemma restart_view_tables [simp]:
  "restart_view (srv\<lparr>connection_rate_buckets := t, request_second_buckets := t'\<rparr>) = restart_view srv"
  by (simp add: restart_view_def)

lemma restart_view_stratum [simp]: "restart_view (applyDynamicStratum srv) = restart_view srv"
proof -
  have "map service_restart_limit ((configs srv)[i := (configs srv ! i)\<lparr>cfg_stratum := s\<rparr>])
      = map service_restart_limit (configs srv)" for i s
    by (cases "i < length (configs srv)") (simp_all add: map_update list_update_same_conv list_update_beyond)
  then show ?thesis
    by (simp add: applyDynamicStratum_def restart_view_def config_of_def deref_def)
qed

lemma restart_view_select:
  "selectUpstreamServer unif srv = (s, srv') \<Longrightarrow> restart_view srv' = restart_view srv"
  by (auto simp: selectUpstreamServer_def restart_view_def Let_def split: option.splits if_splits)

lemma restart_view_answer:
  assumes "answer_request env data srv = (sent, timed, srv')"
  shows "restart_view srv' = restart_view srv"
proof -
  obtain s srv2 where sel: "selectUpstreamServer (uniform env) (applyDynamicStratum srv) = (s, srv2)"
    by fastforce
  show ?thesis
    using assms restart_view_select [OF sel]
    by (auto simp: answer_request_def Let_def sel case_prod_beta split: if_splits)
qed

lemma restart_view_packet:
  assumes "processPacket env ip port data srv = Inr (sent, srv')"
  shows "restart_view srv' = restart_view srv"
  using assms
proof (cases rule: processPacket_cases)
  case (dropped t t')
  then show ?thesis by simp
next
  case (handled t t' p conn srv1)
  have "restart_view srv1 = restart_view srv"
    using handled(3)
    by (auto simp: getOrCreateConnection_def Let_def result_simps restart_view_def split: option.splits)
  moreover have "restart_view srv' = restart_view srv1"
    using handled(4) restart_view_answer
    by (auto simp: handle_datagram_def Let_def split: prod.splits if_splits)
  ultimately show ?thesis by simp
qed

lemma heal_socket_view:
  assumes "heal_socket pt sock rc srv = (again, srv')" "config_of srv = Some c"
  shows "config_ptr srv' = config_ptr srv \<and> configs srv' = configs srv
    \<and> active_connections srv' = active_connections srv \<and> server_stats srv' = server_stats srv
    \<and> (if again then enable_self_healing c \<and> unat (restart_count srv) < unat (service_restart_limit c)
           \<and> unat (restart_count srv') = unat (restart_count srv) + 1
       else unat (restart_count srv') \<le> max (unat (restart_count srv)) (unat (service_restart_limit c))
         \<and> unat (restart_count srv) \<le> unat (restart_count srv'))"
proof (cases "enable_self_healing c \<and> restart_count srv < service_restart_limit c")
  case True
  then have lt: "unat (restart_count srv) < unat (service_restart_limit c)"
    by (simp add: word_less_nat_alt)
  have "unat (restart_count srv) + 1 < 2 ^ 32"
    using lt unsigned_less [of "service_restart_limit c", where ?'a = nat] by simp
  then have "unat (restart_count srv + 1) = unat (restart_count srv) + 1" by (simp add: unat_inc)
  with True lt assms show ?thesis
    by (auto simp: heal_socket_def Let_def initializeSocket_def split: if_splits)
next
  case False
  with assms have "again = False" "srv' = srv" by (auto simp: heal_socket_def)
  then show ?thesis by simp
qed

lemma limit_of_view:
  assumes "restart_view srv' = restart_view srv" "server_inv srv" "server_inv srv'"
  shows "service_restart_limit (the_config srv') = service_restart_limit (the_config srv)"
proof -
  have view: "map service_restart_limit (configs srv') = map service_restart_limit (configs srv)"
    using assms(1) by (simp add: restart_view_def)
  then have "length (configs srv') = length (configs srv)" by (rule map_eq_imp_length_eq)
  moreover have "map service_restart_limit (configs srv') ! config_ptr srv
      = map service_restart_limit (configs srv) ! config_ptr srv"
    by (simp only: view)
  moreover have "config_ptr srv' = config_ptr srv" using assms(1) by (simp add: restart_view_def)
  ultimately show ?thesis using assms(2) by (simp add: the_config_def server_inv_def)
qed

definition heal_bound :: "NtpServer \<Rightarrow> nat" where
  "heal_bound srv = max (unat (restart_count srv)) (unat (service_restart_limit (the_config srv)))"

fun datagrams :: "recv_event list \<Rightarrow> nat" where
  "datagrams [] = 0"
| "datagrams (Datagram env ip port bytes # evs) = Suc (datagrams evs)"
| "datagrams (ev # evs) = datagrams evs"

lemma receive_loop:
  assumes "server_inv srv" "processIncomingPackets evs srv = Inr (replies, srv')"
  shows "server_inv srv' \<and> unat (restart_count srv) \<le> unat (restart_count srv')
    \<and> unat (restart_count srv') \<le> heal_bound srv
    \<and> length replies \<le> datagrams evs \<and> (\<forall>r \<in> set replies. valid_reply r)"
  using assms
proof (induction evs arbitrary: srv replies)
  case Nil
  then show ?case by (simp add: heal_bound_def)
next
  case (Cons ev evs)
  have stop: ?case if "replies = []" "srv' = srv"
    using that Cons.prems(1) by (simp add: heal_bound_def)
  show ?case
  proof (cases "workers_running srv")
    case False
    with Cons.prems stop show ?thesis by auto
  next
    case True
    show ?thesis
    proof (cases ev)
      case Would_block
      with True Cons.prems stop show ?thesis by auto
    next
      case (Recv_error pt sock rc)
      obtain again srv1 where h: "heal_socket pt sock rc srv = (again, srv1)" by fastforce
      note v = heal_socket_view [OF h server_inv_config [OF Cons.prems(1)]]
      have inv: "server_inv srv1" by (rule server_inv_cong [OF Cons.prems(1)]) (use v in auto)
      have cfg: "the_config srv1 = the_config srv" using v by (simp add: the_config_def)
      show ?thesis
      proof (cases again)
        case True
        with Cons.prems \<open>workers_running srv\<close> h Recv_error
        have "processIncomingPackets evs srv1 = Inr (replies, srv')" by simp
        from Cons.IH [OF inv this] v True cfg show ?thesis
          by (simp add: heal_bound_def Recv_error max_def split: if_splits)
      next
        case False
        with Cons.prems \<open>workers_running srv\<close> h Recv_error have "replies = []" "srv' = srv1" by auto
        with v False inv show ?thesis by (simp add: heal_bound_def)
      qed
    next
      case (Datagram env ip port bytes)
      show ?thesis
      proof (cases "bytes = []")
        case True
        with Cons.prems \<open>workers_running srv\<close> Datagram
        have "processIncomingPackets evs srv = Inr (replies, srv')" by simp
        from Cons.IH [OF Cons.prems(1) this] show ?thesis by (simp add: Datagram)
      next
        case False
        with Cons.prems(2) True Datagram obtain sent srv1 rs where
            p: "processPacket env ip port (take NTP_PACKET_SIZE bytes) srv = Inr (sent, srv1)"
          and rest: "processIncomingPackets evs srv1 = Inr (rs, srv')"
          and rs: "replies = (case sent of None \<Rightarrow> rs | Some r \<Rightarrow> r # rs)"
          by (auto simp: result_simps split: prod.splits)
        have inv: "server_inv srv1" by (rule processPacket_inv [OF Cons.prems(1) p])
        note view = restart_view_packet [OF p]
        have "heal_bound srv1 = heal_bound srv" "restart_count srv1 = restart_count srv"
          using view limit_of_view [OF view Cons.prems(1) inv]
          by (simp_all add: heal_bound_def restart_view_def)
        with Cons.IH [OF inv rest] rs packet_reply_valid [OF Cons.prems(1)] p
        show ?thesis by (auto simp: Datagram split: option.splits)
      qed
    qed
  qed
qed

lemma cleanup_inv:
  assumes "server_inv srv"
  shows "server_inv (cleanupConnections srv)"
    and "restart_view (cleanupConnections srv) = restart_view srv"
proof -
  have "filter (\<lambda>e. isActive (snd (snd e))) (active_connections srv) = active_connections srv"
      "filter (\<lambda>e. \<not> isActive (snd (snd e))) (active_connections srv) = []"
    using assms by (auto simp: server_inv_def filter_id_conv filter_empty_conv)
  then show "server_inv (cleanupConnections srv)"
      "restart_view (cleanupConnections srv) = restart_view srv"
    using assms
    by (simp_all add: cleanupConnections_def upd_stats_def server_inv_def restart_view_def)
qed

lemma worker_round_inv:
  assumes "server_inv srv" "worker_round evs srv = Inr (replies, srv')"
  shows "server_inv srv' \<and> (\<forall>r \<in> set replies. valid_reply r)
    \<and> length replies \<le> datagrams evs"
proof -
  obtain srv1 where "processIncomingPackets evs srv = Inr (replies, srv1)"
    and "srv' = cleanupConnections srv1"
    using assms(2) by (auto simp: worker_round_def result_simps)
  with receive_loop [OF assms(1)] cleanup_inv(1) show ?thesis by blast
qed

text \<open>
  C21. One run of a worker's receive loop, over any datagrams and socket errors: it keeps the
  invariant, never restarts the socket beyond the configured limit, and sends at most one reply
  per datagram, a valid server packet of 48 bytes.
\<close>
theorem receive_loop_bounded:
  assumes "server_inv srv" and "processIncomingPackets evs srv = Inr (replies, srv')"
  shows "server_inv srv' \<and> unat (restart_count srv) \<le> unat (restart_count srv')
    \<and> unat (restart_count srv') \<le>
        max (unat (restart_count srv)) (unat (service_restart_limit (the_config srv)))
    \<and> length replies \<le> datagrams evs \<and> (\<forall>r \<in> set replies. valid_reply r)"
  using receive_loop [OF assms] by (simp add: heal_bound_def)

theorem receive_loop_bounded_witness:
  "\<exists>replies srv'. processIncomingPackets [Recv_error (\<lambda>_. None) 3 0, Would_block]
      (reload_example\<lparr>workers_running := True\<rparr>) = Inr (replies, srv') \<and> server_inv srv'"
proof -
  let ?srv = "reload_example\<lparr>workers_running := True\<rparr>"
  have inv: "server_inv ?srv"
    by (rule server_inv_cong [of reload_example])
       (simp_all add: reload_example_def server_inv_init setDefaults_def)
  obtain again srv1 where h: "heal_socket (\<lambda>_. None) 3 0 ?srv = (again, srv1)" by fastforce
  have "\<exists>replies srv'. processIncomingPackets [Recv_error (\<lambda>_. None) 3 0, Would_block] ?srv =
      Inr (replies, srv')"
    by (simp add: h)
  then obtain replies srv' where r: "processIncomingPackets
      [Recv_error (\<lambda>_. None) 3 0, Would_block] ?srv = Inr (replies, srv')" by blast
  from receive_loop_bounded [OF inv r] r show ?thesis by blast
qed

end
