(* ===== verification/Reports.thy ===== *)
theory Reports
  imports ServerControl
begin

text \<open>
  What the server tells about itself (\<open>core/server.cpp\<close>): the status text, the Prometheus
  metrics and the health report. The clock and the resource usage of the process are
  arguments, and so is the printing of the numbers the code computes in floating point. The average
  processing time is cut to an integer, which is the integer quotient while the total is below
  \<open>2 ^ 52\<close> microseconds (over a century).
\<close>

definition line :: "string \<Rightarrow> string" where
  "line s = s @ newline"

definition uptime_seconds :: "int \<Rightarrow> NtpServer \<Rightarrow> int" where
  "uptime_seconds now srv = (now - start_time (server_stats srv)) sdiv 1000000000"

definition average_us :: "NtpServerStats \<Rightarrow> int" where
  "average_us st = (if processed_request_count st = 0 then 0
     else uint (total_request_processing_time_us st) div uint (processed_request_count st))"

definition getStatus :: "(u64 \<Rightarrow> int \<Rightarrow> string) \<Rightarrow> int \<Rightarrow> NtpServer \<Rightarrow> string" where
  "getStatus show_throughput now srv =
     (let st = server_stats srv
      in line ''NTP Server Status:'' @
         line (''  Status: '' @ (if running srv then ''Running'' else ''Stopped'')) @
         (if running srv then
            line (''  Uptime: '' @ to_string (uptime_seconds now srv) @ '' seconds'') @
            line (''  Listen Address: '' @ server_address srv @ '':'' @ to_string (uint (server_port srv))) @
            line (''  Worker Threads: '' @ to_string (int (worker_count srv))) @
            line (''  Active Connections: '' @ to_string (uint (active_count st))) @
            line (''  Total Requests: '' @ to_string (uint (total_requests st))) @
            line (''  Total Bytes: '' @ to_string (uint (total_bytes_transferred st))) @
            line (''  Total Errors: '' @ to_string (uint (total_errors st))) @
            (if processed_request_count st > 0 then
               line (''  Avg Proc Time (us): '' @ to_string (average_us st)) @
               line (''  Max Proc Time (us): '' @ to_string (uint (max_request_processing_time_us st))) @
               line (''  Min Proc Time (us): '' @ to_string (uint (min_request_processing_time_us st))) @
               line (''  Throughput (req/s): '' @
                 show_throughput (total_requests st) (uptime_seconds now srv))
             else []) @
            (case upstream_sync srv of None \<Rightarrow> [] | Some m \<Rightarrow> statusSummary m)
          else []))"

record resource_usage =
  max_rss_bytes :: int
  user_cpu_seconds :: string
  system_cpu_seconds :: string

definition metric :: "string \<Rightarrow> string \<Rightarrow> string \<Rightarrow> string \<Rightarrow> string" where
  "metric name help kind val =
     line (''# HELP '' @ name @ '' '' @ help) @ line (''# TYPE '' @ name @ '' '' @ kind) @
     line (name @ '' '' @ val)"

definition exportPrometheusMetrics :: "resource_usage option \<Rightarrow> int \<Rightarrow> NtpServer \<Rightarrow> string" where
  "exportPrometheusMetrics usage now srv =
     (let st = server_stats srv
      in metric ''simple_ntpd_requests_total'' ''Total NTP requests processed'' ''counter''
           (to_string (uint (total_requests st))) @
         metric ''simple_ntpd_errors_total'' ''Total NTP errors'' ''counter''
           (to_string (uint (total_errors st))) @
         metric ''simple_ntpd_bytes_total'' ''Total bytes transferred'' ''counter''
           (to_string (uint (total_bytes_transferred st))) @
         line ''# HELP simple_ntpd_request_proc_time_us Request processing time (us)'' @
         line ''# TYPE simple_ntpd_request_proc_time_us summary'' @
         line (''simple_ntpd_request_proc_time_us_count '' @ to_string (uint (processed_request_count st))) @
         line (''simple_ntpd_request_proc_time_us_sum '' @
           to_string (uint (total_request_processing_time_us st))) @
         line (''simple_ntpd_request_proc_time_us_avg '' @ to_string (average_us st)) @
         line (''simple_ntpd_request_proc_time_us_max '' @
           to_string (uint (max_request_processing_time_us st))) @
         line (''simple_ntpd_request_proc_time_us_min '' @
           to_string (if min_request_processing_time_us st = - 1 then 0
                      else uint (min_request_processing_time_us st))) @
         metric ''simple_ntpd_uptime_seconds'' ''Server uptime in seconds'' ''gauge''
           (to_string (uptime_seconds now srv)) @
         (case upstream_sync srv of
            None \<Rightarrow> []
          | Some m \<Rightarrow>
              metric ''simple_ntpd_upstream_synced'' ''Whether upstream sync succeeded'' ''gauge''
                (if isSynced m then ''1'' else ''0'') @
              metric ''simple_ntpd_clock_offset_us'' ''Estimated clock offset from upstream'' ''gauge''
                (to_string (clockOffsetUs m))) @
         (case usage of
            None \<Rightarrow> []
          | Some u \<Rightarrow>
              metric ''simple_ntpd_process_max_rss_bytes'' ''Peak RSS in bytes'' ''gauge''
                (to_string (max_rss_bytes u)) @
              metric ''simple_ntpd_process_user_cpu_seconds'' ''Total user CPU time'' ''counter''
                (user_cpu_seconds u) @
              metric ''simple_ntpd_process_system_cpu_seconds'' ''Total system CPU time'' ''counter''
                (system_cpu_seconds u)))"

definition true_false :: "bool \<Rightarrow> string" where
  "true_false b = (if b then ''true'' else ''false'')"

text \<open>The checks that can lower the verdict, each with its report lines.\<close>

definition upstream_check :: "NtpServer \<Rightarrow> bool \<times> string" where
  "upstream_check srv =
     (case config_of srv of
        None \<Rightarrow> (True, [])
      | Some c \<Rightarrow>
          if upstream_servers c = [] then (True, [])
          else
            (let is_synced = (case upstream_sync srv of None \<Rightarrow> False | Some m \<Rightarrow> isSynced m)
             in (is_synced, line (''upstream_synced: '' @ true_false is_synced) @
                  (if is_synced then []
                   else line ''warning: upstream time synchronization not established''))))"

definition leap_check :: "files \<Rightarrow> NtpServer \<Rightarrow> bool \<times> string" where
  "leap_check fs srv =
     (case config_of srv of
        None \<Rightarrow> (True, [])
      | Some c \<Rightarrow>
          if \<not> enable_leap_second_handling c then (True, [])
          else
            (let leap_exists = (fs (leap_second_file c) \<noteq> None)
             in (leap_exists, line (''leap_second_file_present: '' @ true_false leap_exists) @
                  (if leap_exists then []
                   else line
                     ''warning: leap second handling enabled but leap second file missing''))))"

definition error_check :: "NtpServer \<Rightarrow> bool \<times> string" where
  "error_check srv =
     (let st = server_stats srv;
          bad = (total_requests st > 0 \<and> total_errors st > total_requests st div 2)
      in (\<not> bad, if bad then line ''warning: high error ratio detected'' else []))"

definition runHealthChecks :: "files \<Rightarrow> NtpServer \<Rightarrow> bool \<times> string" where
  "runHealthChecks fs srv =
     (let (up_ok, up) = upstream_check srv;
          (leap_ok, leap) = leap_check fs srv;
          (err_ok, err) = error_check srv;
          healthy = (running srv \<and> up_ok \<and> leap_ok \<and> err_ok);
          loaded = (case config_of srv of None \<Rightarrow> False | Some c \<Rightarrow> last_config_file c \<noteq> [])
      in (healthy,
          line ''Health Check Report'' @
          line (''running: '' @ true_false (running srv)) @
          line (''socket_bound: '' @ true_false (server_socket srv \<noteq> INVALID_SOCKET)) @
          line (''active_connections: '' @ to_string (uint (active_count (server_stats srv)))) @
          line (''total_errors: '' @ to_string (uint (total_errors (server_stats srv)))) @
          line (''config_loaded: '' @ true_false loaded) @
          up @ leap @ err @
          line (''overall_status: '' @ (if healthy then ''healthy'' else ''degraded''))))"

section \<open>The verdict\<close>

lemma health_verdict:
  assumes "server_inv srv"
  shows "fst (runHealthChecks fs srv) \<longleftrightarrow> running srv
    \<and> (upstream_servers (the_config srv) = []
       \<or> (\<exists>m. upstream_sync srv = Some m \<and> isSynced m))
    \<and> (enable_leap_second_handling (the_config srv) \<longrightarrow>
         fs (leap_second_file (the_config srv)) \<noteq> None)
    \<and> (total_requests (server_stats srv) = 0
       \<or> total_errors (server_stats srv) \<le> total_requests (server_stats srv) div 2)"
proof -
  note cfg = server_inv_config [OF assms]
  have up: "fst (upstream_check srv) \<longleftrightarrow> upstream_servers (the_config srv) = []
      \<or> (\<exists>m. upstream_sync srv = Some m \<and> isSynced m)"
    by (simp add: upstream_check_def cfg Let_def split: option.split)
  have leap: "fst (leap_check fs srv) \<longleftrightarrow> (enable_leap_second_handling (the_config srv) \<longrightarrow>
      fs (leap_second_file (the_config srv)) \<noteq> None)"
    by (simp add: leap_check_def cfg Let_def)
  have err: "fst (error_check srv) \<longleftrightarrow> total_requests (server_stats srv) = 0
      \<or> total_errors (server_stats srv) \<le> total_requests (server_stats srv) div 2"
    by (auto simp: error_check_def Let_def word_neq_0_conv not_less)
  show ?thesis by (simp add: runHealthChecks_def case_prod_beta Let_def up leap err)
qed

end
