(* ===== verification/Daemon.thy ===== *)
theory Daemon
  imports Reports
begin

text \<open>
  The executable \<open>src/main/production.cpp\<close>: its command line, the set-up of the logger, the start of
  the server and the one-shot commands.

  \<^item> The arguments after the program name are a list of strings. Where \<open>parseCommandLine\<close>
    returns false it has printed one message, a \<open>cli_exit\<close>; the texts of the help and version
    messages are left out. \<open>main\<close> then exits with status 0.
  \<^item> The main loop and the signals are in the theory of the daemon's life.
\<close>

section \<open>The command line\<close>

datatype cli_exit =
    Help | Version | Load_failed string | Argument_missing string | Invalid_port string
  | Stratum_out_of_range | Invalid_stratum string | Config_valid | Config_invalid
  | Unknown_option string | Unknown_command string | Needs_running_daemon string
  | Test_passed | Test_failed

definition takes_value :: "string \<Rightarrow> bool" where
  "takes_value arg \<longleftrightarrow> arg \<in> {''--config'', ''-c'', ''--listen'', ''--port'', ''--stratum'',
     ''--reference-id''}"

text \<open>An option with the value that follows it.\<close>

definition value_option ::
    "files \<Rightarrow> (string \<Rightarrow> string option) \<Rightarrow> string \<Rightarrow> string \<Rightarrow> NtpConfig \<Rightarrow> cli_exit + NtpConfig" where
  "value_option fs env arg v config =
     (if arg = ''--config'' \<or> arg = ''-c'' then
        (let (ok, config) = loadFromFile fs env v config
         in if \<not> ok then Inl (Load_failed v) else Inr config)
      else if arg = ''--listen'' then Inr (config\<lparr>listen_address := v\<rparr>)
      else if arg = ''--port'' then
        (case stoi v of
           Inl _ \<Rightarrow> Inl (Invalid_port v)
         | Inr i \<Rightarrow> Inr (config\<lparr>listen_port := word_of_int i\<rparr>))
      else if arg = ''--stratum'' then
        (case stoi v of
           Inl _ \<Rightarrow> Inl (Invalid_stratum v)
         | Inr i \<Rightarrow> if 1 \<le> i \<and> i \<le> 15 then Inr (config\<lparr>cfg_stratum := word_of_int i\<rparr>)
                    else Inl Stratum_out_of_range)
      else Inr (config\<lparr>cfg_reference_id := v\<rparr>))"

text \<open>An option without a value, or a command.\<close>

definition plain_argument ::
    "string \<Rightarrow> string \<times> NtpConfig \<Rightarrow> cli_exit + string \<times> NtpConfig" where
  "plain_argument arg r =
     (let (command, config) = r
      in if arg = ''--help'' \<or> arg = ''-h'' then Inl Help
         else if arg = ''--version'' \<or> arg = ''-v'' then Inl Version
         else if arg = ''--verbose'' \<or> arg = ''-V'' then
           Inr (command, config\<lparr>log_level := LOG_LEVEL_DEBUG\<rparr>)
         else if arg = ''--daemon'' \<or> arg = ''-d'' then
           Inr (command, config\<lparr>enable_console_logging := False\<rparr>)
         else if arg = ''--foreground'' \<or> arg = ''-f'' then
           Inr (command, config\<lparr>enable_console_logging := True\<rparr>)
         else if arg = ''--test-config'' \<or> arg = ''--validate'' then
           Inl (if config_validate config then Config_valid else Config_invalid)
         else if arg = [] \<or> hd arg \<noteq> CHR ''-'' then Inr (arg, config)
         else Inl (Unknown_option arg))"

fun parse_arguments ::
    "files \<Rightarrow> (string \<Rightarrow> string option) \<Rightarrow> string list \<Rightarrow> string \<times> NtpConfig \<Rightarrow>
     cli_exit + string \<times> NtpConfig" where
  "parse_arguments fs env [] r = Inr r"
| "parse_arguments fs env (arg # args) r =
     (if takes_value arg then
        (case args of
           [] \<Rightarrow> Inl (Argument_missing arg)
         | v # rest \<Rightarrow>
             bind_result (value_option fs env arg v (snd r))
               (\<lambda>config. parse_arguments fs env rest (fst r, config)))
      else bind_result (plain_argument arg r) (parse_arguments fs env args))"

definition runs_server :: "string \<Rightarrow> bool" where
  "runs_server command \<longleftrightarrow> command \<in> {''start'', ''status'', ''reload'', ''metrics'', ''health'', ''stats'',
     ''connections''}"

definition parseCommandLine ::
    "files \<Rightarrow> (string \<Rightarrow> string option) \<Rightarrow> string list \<Rightarrow> NtpConfig \<Rightarrow> cli_exit + string \<times> NtpConfig"
where
  "parseCommandLine fs env args config =
     bind_result (parse_arguments fs env args ([], config))
       (\<lambda>(command, config).
          let command = (if command = [] then ''start'' else command)
          in if runs_server command then Inr (command, config)
             else if command = ''stop'' \<or> command = ''restart'' then
               Inl (Needs_running_daemon command)
             else if command = ''test'' then
               Inl (if config_validate config then Test_passed else Test_failed)
             else Inl (Unknown_command command))"

section \<open>Running\<close>

definition setup_logger :: "NtpConfig \<Rightarrow> Logger \<Rightarrow> Logger" where
  "setup_logger config lg =
     (let lg = setLogFile (log_file config) lg;
          lg = setLevel (log_level config) lg;
          lg = (if enable_console_logging config then setDestination CONSOLE lg
                else setDestination FILE lg);
          lg = setStructuredJson (log_json config) lg
      in setLogRotation (log_max_size_bytes config) (log_max_files config) lg)"

definition print_stats :: "NtpServerStats \<Rightarrow> string" where
  "print_stats st = line ''NTP Server Statistics:'' @
     line (''  Total Connections: '' @ to_string (uint (total_connections st))) @
     line (''  Active Connections: '' @ to_string (uint (active_count st))) @
     line (''  Total Requests: '' @ to_string (uint (total_requests st))) @
     line (''  Total Responses: '' @ to_string (uint (total_responses st))) @
     line (''  Total Errors: '' @ to_string (uint (total_errors st))) @
     line (''  Bytes Transferred: '' @ to_string (uint (total_bytes_transferred st)))"

text \<open>
  What a one-shot command prints, before \<open>main\<close> stops the server; \<^const>\<open>None\<close> for \<open>start\<close>, which
  keeps running.
\<close>

definition one_shot ::
    "(u64 \<Rightarrow> int \<Rightarrow> string) \<Rightarrow> resource_usage option \<Rightarrow> int \<Rightarrow> files \<Rightarrow> (string \<Rightarrow> string option) \<Rightarrow>
     string \<Rightarrow> NtpServer \<Rightarrow> (string \<times> NtpServer) option" where
  "one_shot show_throughput usage now fs env command srv =
     (if command = ''reload'' then Some ([], snd (reloadConfig fs env srv))
      else if command = ''metrics'' then Some (exportPrometheusMetrics usage now srv, srv)
      else if command = ''health'' then Some (snd (runHealthChecks fs srv), srv)
      else if command = ''status'' then Some (getStatus show_throughput now srv, srv)
      else if command = ''stats'' then Some (print_stats (server_stats srv), srv)
      else if command = ''connections'' then Some (listConnections srv, srv)
      else None)"

text \<open>
  \<open>main\<close> up to the main loop: the exit status when it returns at once, otherwise the running
  server.
\<close>

definition main_start ::
    "files \<Rightarrow> (string \<Rightarrow> string option) \<Rightarrow> start_env \<Rightarrow> string list \<Rightarrow> int + string \<times> NtpServer" where
  "main_start fs env senv args =
     (case parseCommandLine fs env args setDefaults of
        Inl _ \<Rightarrow> Inl 0
      | Inr (command, config) \<Rightarrow>
          (let (ok, srv) = server_start senv (NtpServer_init config (setup_logger config Logger_init))
           in if ok then Inr (command, srv) else Inl 1))"

section \<open>The stratum stays valid\<close>

text \<open>
  No source of settings takes the stratum out of its range: the file and the command line check
  it, the environment does not set it.
\<close>

definition stratum_ok :: "NtpConfig \<Rightarrow> bool" where
  "stratum_ok c \<longleftrightarrow> cfg_stratum c \<le> 15"

lemma stratum_ok_branches [chain_intros]:
  "stratum_ok c' \<Longrightarrow> stratum_ok (snd (b, c'))"
  "stratum_ok c \<Longrightarrow> (\<And>i. stratum_ok (f i)) \<Longrightarrow> stratum_ok (snd (with_int v f c))"
  "stratum_ok c \<Longrightarrow> (\<And>w. stratum_ok (g w)) \<Longrightarrow> stratum_ok (snd (with_ul v g c))"
  by (simp_all add: with_int_def with_ul_def split: sum.split)

lemma key_spec_stratum: "stratum_ok c \<Longrightarrow> stratum_ok (snd (parseAuthenticationKeySpec spec c))"
  by (simp add: parseAuthenticationKeySpec_def Let_def stratum_ok_def split: option.split sum.split)

lemma keys_stratum: "stratum_ok c \<Longrightarrow> stratum_ok (authentication_keys_from items c)"
  unfolding authentication_keys_from_def
  by (induction items arbitrary: c) (simp_all add: key_spec_stratum)

lemma groups_stratum:
  assumes "stratum_ok c"
  shows "pred_option (\<lambda>r. stratum_ok (snd r)) (arg_net k v c)"
    and "pred_option (\<lambda>r. stratum_ok (snd r)) (arg_logging k v c)"
    and "pred_option (\<lambda>r. stratum_ok (snd r)) (arg_security k v c)"
    and "pred_option (\<lambda>r. stratum_ok (snd r)) (arg_channels k v c)"
    and "pred_option (\<lambda>r. stratum_ok (snd r)) (arg_resilience k v c)"
  unfolding setting_groups
  by (intro chain_intros keys_stratum assms;
      use assms in \<open>simp add: stratum_ok_def small_stratum\<close>)+

lemma config_line_stratum: "stratum_ok c \<Longrightarrow> stratum_ok (config_line ln c)"
  using parseCommandLineArg_pred [where P = "\<lambda>r. stratum_ok (snd r)"] groups_stratum
  by (simp add: config_line_def Let_def split: option.split)

lemmas other_stratum = step_other [where g = cfg_stratum]

lemma env_stratum: "cfg_stratum (applyEnvironmentOverrides env c) = cfg_stratum c"
  by (simp add: env_lists other_stratum)

lemma loadFromFile_stratum:
  assumes "loadFromFile fs env name c = (ok, c')" "stratum_ok c"
  shows "stratum_ok c'"
proof -
  have "stratum_ok (snd (parseConfigFile fs name c))"
    using assms(2)
    by (auto simp: parseConfigFile_def intro: fold_invariant config_line_stratum split: option.split)
  with assms(1) show ?thesis
    by (auto simp: loadFromFile_def Let_def stratum_ok_def env_stratum split: prod.splits if_splits)
qed

lemma value_option_stratum:
  "value_option fs env arg v c = Inr c' \<Longrightarrow> stratum_ok c \<Longrightarrow> stratum_ok c'"
  using loadFromFile_stratum [of fs env v c]
  by (auto simp: value_option_def Let_def stratum_ok_def small_stratum
      split: if_splits prod.splits sum.splits)

definition inr_all :: "('a \<Rightarrow> bool) \<Rightarrow> 'e + 'a \<Rightarrow> bool" where
  "inr_all P x = (case x of Inl _ \<Rightarrow> True | Inr r \<Rightarrow> P r)"

lemma inr_all_intros:
  "inr_all P a \<Longrightarrow> inr_all P b \<Longrightarrow> inr_all P (if q then a else b)"
  "inr_all P (Inl e)" "P r \<Longrightarrow> inr_all P (Inr r)"
  by (simp_all add: inr_all_def)

lemma plain_argument_stratum:
  assumes "plain_argument arg r = Inr r'" "stratum_ok (snd r)"
  shows "stratum_ok (snd r')"
proof -
  have "inr_all (\<lambda>r. stratum_ok (snd r)) (plain_argument arg r)"
    unfolding plain_argument_def Let_def case_prod_beta
    by (intro inr_all_intros; use assms(2) in \<open>simp add: stratum_ok_def\<close>)
  with assms(1) show ?thesis by (simp add: inr_all_def)
qed

lemma parse_arguments_stratum:
  "parse_arguments fs env args r = Inr r' \<Longrightarrow> stratum_ok (snd r) \<Longrightarrow> stratum_ok (snd r')"
proof (induction args arbitrary: r rule: length_induct)
  case (1 args)
  show ?case
  proof (cases args)
    case Nil
    with 1 show ?thesis by simp
  next
    case (Cons arg rest)
    show ?thesis
    proof (cases "takes_value arg")
      case True
      with 1(2) Cons obtain v rest' c where rest: "rest = v # rest'"
        and v: "value_option fs env arg v (snd r) = Inr c"
        and p: "parse_arguments fs env rest' (fst r, c) = Inr r'"
        by (auto simp: result_simps split: list.splits)
      have "stratum_ok (snd (fst r, c))" using value_option_stratum [OF v 1(3)] by simp
      with 1(1) [rule_format, of rest' "(fst r, c)"] p show ?thesis by (simp add: Cons rest)
    next
      case False
      with 1(2) Cons obtain r1 where v: "plain_argument arg r = Inr r1"
        and p: "parse_arguments fs env rest r1 = Inr r'"
        by (auto simp: result_simps)
      from plain_argument_stratum [OF v 1(3)] 1(1) [rule_format, of rest r1] p show ?thesis
          by (simp add: Cons)
    qed
  qed
qed

section \<open>Properties\<close>

lemma server_start_frame:
  assumes "server_start senv srv = (True, srv')"
  shows "configs srv' = configs srv \<and> config_ptr srv' = config_ptr srv
    \<and> active_connections srv' = active_connections srv \<and> running srv'
    \<and> server_stats srv' = (server_stats srv)\<lparr>start_time := start_now senv\<rparr>"
  using assms
  by (auto simp: server_start_def initializeSocket_def Let_def startWorkerThreads_def
      startConfigWatcher_def upd_stats_def split: if_splits)

lemma server_start_inv:
  assumes "server_inv srv" "server_start senv srv = (True, srv')"
  shows "server_inv srv' \<and> running srv' \<and> the_config srv' = the_config srv"
  using assms(1) server_start_frame [OF assms(2)] by (simp add: server_inv_def the_config_def)

lemma start_default:
  assumes "tls_settings_missing c = False"
    and "start_socket senv \<noteq> INVALID_SOCKET" and "start_pton senv (listen_address c) \<noteq> None"
    and "0 \<le> start_bind senv"
  shows "\<exists>srv. server_start senv (NtpServer_init c lg) = (True, srv)"
  using assms
  by (simp add: server_start_def initializeSocket_def bindSocket_def NtpServer_init_def
      the_config_def Let_def)

lemma port_zero_parsed:
  "parseCommandLine fs env [''--port'', ''0''] setDefaults =
     Inr (''start'', setDefaults\<lparr>listen_port := 0\<rparr>)"
proof -
  have "stoi ''0'' = Inr 0"
    using stoi_to_string [of 0] by (simp add: in_i32_def to_string_def to_string_nat_def base_digits.simps)
  then show ?thesis
    by (simp add: parseCommandLine_def takes_value_def value_option_def runs_server_def)
qed

lemma port_zero_invalid: "\<not> config_validate (setDefaults\<lparr>listen_port := 0\<rparr>)"
  by (simp add: config_validate_iff config_ranges_ok_def)

lemma main_start_inv:
  assumes "main_start fs env senv args = Inr (command, srv)"
  shows "runs_server command \<and> running srv \<and> server_inv srv"
proof -
  obtain config where parse: "parseCommandLine fs env args setDefaults = Inr (command, config)"
    and start: "server_start senv (NtpServer_init config (setup_logger config Logger_init)) = (True, srv)"
    using assms by (auto simp: main_start_def Let_def split: sum.splits prod.splits if_splits)
  from parse obtain command' where "parse_arguments fs env args ([], setDefaults) = Inr (command', config)"
    and command: "runs_server command"
    by (auto simp: parseCommandLine_def Let_def result_simps split: if_splits)
  from parse_arguments_stratum [OF this(1)] have "cfg_stratum config \<le> 15"
    by (simp add: stratum_ok_def setDefaults_def)
  from server_start_inv [OF server_inv_init [OF this] start] command show ?thesis by blast
qed

lemma main_start_port_zero:
  assumes "start_socket senv \<noteq> INVALID_SOCKET" and "start_pton senv ''0.0.0.0'' \<noteq> None"
    and "0 \<le> start_bind senv"
  obtains srv where "main_start fs env senv [''--port'', ''0''] = Inr (''start'', srv)"
    and "\<not> config_validate (the_config srv)"
proof -
  let ?c = "setDefaults\<lparr>listen_port := 0\<rparr>"
  let ?srv = "NtpServer_init ?c (setup_logger ?c Logger_init)"
  obtain srv where s: "server_start senv ?srv = (True, srv)"
    using start_default [of ?c senv "setup_logger ?c Logger_init"] assms
    by (auto simp: tls_settings_missing_def setDefaults_def)
  have "server_inv ?srv" by (rule server_inv_init) (simp add: setDefaults_def)
  from server_start_inv [OF this s] have "the_config srv = ?c"
    by (simp add: the_config_def NtpServer_init_def)
  with s that [of srv] show ?thesis by (simp add: main_start_def port_zero_parsed port_zero_invalid)
qed

lemma example_start_ok:
  "start_socket example_start \<noteq> INVALID_SOCKET" "start_pton example_start ''0.0.0.0'' \<noteq> None"
  "0 \<le> start_bind example_start"
  by (simp_all add: example_start_def INVALID_SOCKET_def)

text \<open>
  C22. Whatever the command line, the file and the environment say, a server that \<open>main\<close> brings up
  runs one of the known commands and satisfies the server's invariant, from which every property of
  the packet handler follows. But \<open>main\<close> does not validate the configuration: \<open>--port 0\<close>, which
  validation rejects, is started.
\<close>
theorem main_starts_invariant:
  assumes "main_start fs env senv args = Inr (command, srv)"
    and "start_socket senv' \<noteq> INVALID_SOCKET" and "start_pton senv' ''0.0.0.0'' \<noteq> None"
    and "0 \<le> start_bind senv'"
  shows "runs_server command \<and> running srv \<and> server_inv srv
    \<and> (\<exists>srv'. main_start fs env senv' [''--port'', ''0''] = Inr (''start'', srv')
         \<and> running srv' \<and> \<not> config_validate (the_config srv'))"
  using main_start_inv [OF assms(1)] main_start_port_zero [OF assms(2-4)]
    main_start_inv [of fs env senv' "[''--port'', ''0'']" "''start''"]
  by metis

theorem main_starts_invariant_witness:
  "\<exists>srv. main_start Map.empty (\<lambda>_. None) example_start [''--port'', ''0''] = Inr (''start'', srv)
     \<and> server_inv srv"
proof -
  obtain srv where m: "main_start Map.empty (\<lambda>_. None) example_start [''--port'', ''0''] =
      Inr (''start'', srv)"
    by (rule main_start_port_zero [OF example_start_ok])
  from main_starts_invariant [OF m example_start_ok] m show ?thesis by blast
qed

end
