(* ===== verification/SettingTypes.thy ===== *)
theory SettingTypes
  imports Parser Daemon
begin

text \<open>
  The types of the settings. The C++ members that are enums or have a range of their own are
  numbers in the model, as the code casts integers into them; \<open>well_typed\<close> says that such a member
  holds one of its enumerators (and the stratum a stratum). Every way a setting is written is
  followed here: the configuration file, the command line of the library and of the executable,
  the three parsers, and the environment, the only one that does not check.
\<close>

text \<open>The enumerators of the four enums, as the headers list them.\<close>

definition LogLevel_values :: "LogLevel list" where
  "LogLevel_values =
     [LOG_LEVEL_DEBUG, LOG_LEVEL_INFO, LOG_LEVEL_WARNING, LOG_LEVEL_ERROR, LOG_LEVEL_FATAL]"

definition AuthAlgorithm_values :: "AuthAlgorithm list" where
  "AuthAlgorithm_values = [AUTH_NONE, AUTH_MD5, AUTH_SHA1, AUTH_SHA256]"

definition UpstreamSelectionAlgorithm_values :: "UpstreamSelectionAlgorithm list" where
  "UpstreamSelectionAlgorithm_values =
     [UPSTREAM_ROUND_ROBIN, UPSTREAM_RANDOM, UPSTREAM_LEAST_ERRORS]"

definition DegradationMode_values :: "DegradationMode list" where
  "DegradationMode_values = [DEGRADATION_NORMAL, DEGRADATION_REDUCED_FUNCTIONALITY,
     DEGRADATION_PRIORITIZE_TRUSTED]"

lemma enum_ranges [simp]:
  "set LogLevel_values = {0..4}" "set AuthAlgorithm_values = {0..3}"
  "set UpstreamSelectionAlgorithm_values = {0..2}" "set DegradationMode_values = {0..2}"
  by (auto simp: LogLevel_values_def AuthAlgorithm_values_def
      UpstreamSelectionAlgorithm_values_def DegradationMode_values_def)

definition well_typed :: "NtpConfig \<Rightarrow> bool" where
  "well_typed c \<longleftrightarrow>
     log_level c \<in> set LogLevel_values \<and>
     authentication_algorithm c \<in> set AuthAlgorithm_values \<and>
     degradation_mode c \<in> set DegradationMode_values \<and>
     upstream_selection_algorithm c \<in> set UpstreamSelectionAlgorithm_values \<and>
     cfg_stratum c \<le> 15"

lemma setDefaults_well_typed: "well_typed setDefaults"
  by (simp add: well_typed_def setDefaults_def)

section \<open>Settings by name\<close>

lemma well_typed_branches [chain_intros]:
  "well_typed c' \<Longrightarrow> well_typed (snd (b, c'))"
  "well_typed c \<Longrightarrow> (\<And>i. well_typed (f i)) \<Longrightarrow> well_typed (snd (with_int v f c))"
  "well_typed c \<Longrightarrow> (\<And>w. well_typed (g w)) \<Longrightarrow> well_typed (snd (with_ul v g c))"
  "well_typed c \<Longrightarrow> (\<And>i. well_typed (f i)) \<Longrightarrow> well_typed (snd (if_int v f c))"
  "well_typed c \<Longrightarrow> (\<And>w. well_typed (h w)) \<Longrightarrow> well_typed (snd (if_uint v h c))"
  "well_typed c \<Longrightarrow> (\<And>w. well_typed (g w)) \<Longrightarrow> well_typed (snd (if_ul v g c))"
  by (simp_all add: with_int_def with_ul_def if_int_def if_uint_def if_ul_def
      split: sum.split option.split)

lemma keys_well_typed: "well_typed c \<Longrightarrow> well_typed (authentication_keys_from items c)"
proof (unfold authentication_keys_from_def, induction items arbitrary: c)
  case (Cons item items)
  have "well_typed (snd (parseAuthenticationKeySpec item c))"
    using Cons.prems
    by (simp add: parseAuthenticationKeySpec_def Let_def well_typed_def split: option.split sum.split)
  with Cons.IH show ?case by simp
qed simp

lemma groups_well_typed:
  assumes "well_typed c"
  shows "pred_option (\<lambda>r. well_typed (snd r)) (arg_net k v c)"
    and "pred_option (\<lambda>r. well_typed (snd r)) (arg_logging k v c)"
    and "pred_option (\<lambda>r. well_typed (snd r)) (arg_security k v c)"
    and "pred_option (\<lambda>r. well_typed (snd r)) (arg_channels k v c)"
    and "pred_option (\<lambda>r. well_typed (snd r)) (arg_resilience k v c)"
  unfolding setting_groups
  by (intro chain_intros keys_well_typed assms;
      use assms in \<open>simp add: well_typed_def small_stratum\<close>)+

lemma kv_groups_well_typed:
  assumes "well_typed c"
  shows "pred_option (\<lambda>r. well_typed (snd r)) (kv_net k v c)"
    and "pred_option (\<lambda>r. well_typed (snd r)) (kv_logging k v c)"
    and "pred_option (\<lambda>r. well_typed (snd r)) (kv_security k v c)"
    and "pred_option (\<lambda>r. well_typed (snd r)) (kv_channels k v c)"
    and "pred_option (\<lambda>r. well_typed (snd r)) (kv_resilience k v c)"
  unfolding kv_groups
  by (intro chain_intros assms; use assms in \<open>simp add: well_typed_def small_stratum\<close>)+

lemma setting_well_typed:
  assumes "well_typed c"
  shows "well_typed (snd (parseCommandLineArg key value c))"
  by (rule parseCommandLineArg_pred) (simp_all add: groups_well_typed assms)

lemma parseKeyValue_well_typed:
  assumes "well_typed c"
  shows "well_typed (snd (parseKeyValue key value c))"
proof -
  have "well_typed (snd (case r of None \<Rightarrow> (False, c) | Some x \<Rightarrow> x))"
    if "pred_option (\<lambda>r. well_typed (snd r)) r" for r :: "(bool \<times> NtpConfig) option"
    using that assms by (cases r) simp_all
  then show ?thesis
    unfolding parseKeyValue_def Let_def
    by (simp add: or_else_pred kv_groups_well_typed [OF assms])
qed

section \<open>Files, arguments and parsers\<close>

lemma lines_well_typed:
  assumes "well_typed c"
  shows "well_typed (config_line ln c)" "well_typed (command_line_arg arg c)"
    "well_typed (ini_line ln c)" "well_typed (json_line ln c)" "well_typed (yaml_line ln c)"
  using assms
  by (simp_all add: config_line_def command_line_arg_def ini_line_def json_line_def yaml_line_def
      Let_def setting_well_typed parseKeyValue_well_typed split: option.split)

lemma files_well_typed:
  assumes "well_typed c"
  shows "well_typed (snd (parseConfigFile files name c))" "well_typed (fold command_line_arg args c)"
  using assms
  by (auto simp: parseConfigFile_def intro: fold_invariant lines_well_typed split: option.split)

lemma parsers_well_typed:
  assumes "well_typed c" "createParser format = Some parse"
  shows "well_typed (snd (parse content c))"
  using assms
  by (cases format) (auto simp: IniConfigParser_parseString_def JsonConfigParser_parseString_def
      YamlConfigParser_parseString_def intro: fold_invariant lines_well_typed)

section \<open>The environment\<close>

definition enum_setting :: "(string \<Rightarrow> string option) \<Rightarrow> string \<Rightarrow> int \<Rightarrow> int" where
  "enum_setting env name old = (case env name of None \<Rightarrow> old
     | Some v \<Rightarrow> (case stoi v of Inl _ \<Rightarrow> old | Inr i \<Rightarrow> i))"

text \<open>Every enum the environment sets, when its value is a number, is an enumerator.\<close>

definition env_typed :: "(string \<Rightarrow> string option) \<Rightarrow> bool" where
  "env_typed env \<longleftrightarrow>
     enum_setting env ''SIMPLE_NTPD_LOG_LEVEL'' 0 \<in> set LogLevel_values \<and>
     enum_setting env ''SIMPLE_NTPD_AUTH_ALGORITHM'' 0 \<in> set AuthAlgorithm_values \<and>
     enum_setting env ''SIMPLE_NTPD_DEGRADATION_MODE'' 0
       \<in> set DegradationMode_values \<and>
     enum_setting env ''SIMPLE_NTPD_UPSTREAM_SELECTION_ALGORITHM'' 0
       \<in> set UpstreamSelectionAlgorithm_values"

lemma apply_enum_setting:
  "(\<And>i c. g (upd i c) = i) \<Longrightarrow> g (apply_enum env name upd c) = enum_setting env name (g c)"
  by (simp add: apply_enum_def enum_setting_def split: option.split sum.split)

lemma enum_setting_range:
  "old \<in> {0..hi} \<Longrightarrow> enum_setting env name old \<in> {0..hi} \<longleftrightarrow> enum_setting env name 0 \<in> {0..hi}"
  by (auto simp: enum_setting_def split: option.split sum.split)

lemmas other_log_level = step_other [where g = log_level]
lemmas other_algorithm = step_other [where g = authentication_algorithm]
lemmas other_mode = step_other [where g = degradation_mode]
lemmas other_selection = step_other [where g = upstream_selection_algorithm]

lemma env_enums:
  "log_level (applyEnvironmentOverrides env c) =
     enum_setting env ''SIMPLE_NTPD_LOG_LEVEL'' (log_level c)"
  "authentication_algorithm (applyEnvironmentOverrides env c) =
     enum_setting env ''SIMPLE_NTPD_AUTH_ALGORITHM'' (authentication_algorithm c)"
  "degradation_mode (applyEnvironmentOverrides env c) =
     enum_setting env ''SIMPLE_NTPD_DEGRADATION_MODE'' (degradation_mode c)"
  "upstream_selection_algorithm (applyEnvironmentOverrides env c) =
     enum_setting env ''SIMPLE_NTPD_UPSTREAM_SELECTION_ALGORITHM'' (upstream_selection_algorithm c)"
     apply (simp add: env_lists other_log_level apply_enum_setting [where g = log_level])
    apply (simp add: env_lists other_algorithm apply_enum_setting [where g = authentication_algorithm])
   apply (simp add: env_lists other_mode apply_enum_setting [where g = degradation_mode])
  apply (simp add: env_lists other_selection
      apply_enum_setting [where g = upstream_selection_algorithm])
  done

lemma env_well_typed:
  "well_typed c \<Longrightarrow> well_typed (applyEnvironmentOverrides env c) \<longleftrightarrow> env_typed env"
  unfolding well_typed_def env_typed_def env_enums env_stratum enum_ranges
  using enum_setting_range by metis

section \<open>Loading, the executable, reloading\<close>

lemma loadFromFile_well_typed:
  assumes "env_typed env" "well_typed c" "loadFromFile files env name c = (ok, c')"
  shows "well_typed c'"
proof -
  have "well_typed (snd (parseConfigFile files name c))" by (rule files_well_typed [OF assms(2)])
  moreover have "well_typed (c1\<lparr>last_config_file := name\<rparr>)" if "well_typed c1" for c1
    using that by (simp add: well_typed_def)
  ultimately show ?thesis
    using assms(1,3) by (auto simp: loadFromFile_def Let_def env_well_typed split: prod.splits if_splits)
qed

lemma value_option_well_typed:
  assumes "env_typed env" "well_typed c" "value_option files env arg v c = Inr c'"
  shows "well_typed c'"
  using assms loadFromFile_well_typed [OF assms(1,2), of files v]
  by (auto simp: value_option_def Let_def split: if_splits prod.splits sum.splits)
     (auto simp: well_typed_def small_stratum)

lemma plain_argument_well_typed:
  assumes "plain_argument arg r = Inr r'" "well_typed (snd r)"
  shows "well_typed (snd r')"
proof -
  have "inr_all (\<lambda>r. well_typed (snd r)) (plain_argument arg r)"
    unfolding plain_argument_def Let_def case_prod_beta
    by (intro inr_all_intros; use assms(2) in \<open>simp add: well_typed_def\<close>)
  with assms(1) show ?thesis by (simp add: inr_all_def)
qed

lemma parse_arguments_well_typed:
  assumes "env_typed env"
  shows "parse_arguments files env args r = Inr r' \<Longrightarrow> well_typed (snd r) \<Longrightarrow> well_typed (snd r')"
proof (induction args arbitrary: r rule: length_induct)
  case (1 args)
  show ?case
  proof (cases args)
    case Nil
    with 1 show ?thesis by simp
  next
    case (Cons arg rest)
    show ?thesis
    proof (cases "takes_value arg")
      case True
      with 1(2) Cons obtain v rest' c where rest: "rest = v # rest'"
        and v: "value_option files env arg v (snd r) = Inr c"
        and p: "parse_arguments files env rest' (fst r, c) = Inr r'"
        by (auto simp: result_simps split: list.splits)
      have "well_typed (snd (fst r, c))" using value_option_well_typed [OF assms 1(3) v] by simp
      with 1(1) [rule_format, of rest' "(fst r, c)"] p show ?thesis by (simp add: Cons rest)
    next
      case False
      with 1(2) Cons obtain r1 where v: "plain_argument arg r = Inr r1"
        and p: "parse_arguments files env rest r1 = Inr r'"
        by (auto simp: result_simps)
      from plain_argument_well_typed [OF v 1(3)] 1(1) [rule_format, of rest r1] p show ?thesis
        by (simp add: Cons)
    qed
  qed
qed

lemma reload_well_typed:
  assumes "env_typed env" "\<forall>c \<in> set (configs srv). well_typed c"
  shows "\<forall>c \<in> set (configs (snd (reloadConfig files env srv))). well_typed c"
proof -
  obtain ok srv' where r: "reloadConfig files env srv = (ok, srv')" by fastforce
  from r show ?thesis
  proof (cases rule: reload_cases)
    case kept
    with r assms(2) show ?thesis by simp
  next
    case (replaced c new)
    then have "c \<in> set (configs srv)" by (auto simp: config_of_def deref_def split: if_splits)
    with assms(2) have "well_typed c" by blast
    from loadFromFile_well_typed [OF assms(1) this replaced(4)] assms(2) replaced(6) r
    show ?thesis by auto
  qed
qed

section \<open>Property\<close>

text \<open>
  C25. Settings keep their types. From a well-typed configuration the configuration file, the
  command line of the library and each of the three parsers lead to a well-typed one, whatever they
  say; the environment does so exactly when every number it gives for an enum is one of its
  enumerators; and under such an environment the arguments of the executable and every reload
  of the server's configuration keep the types as well.
\<close>

theorem settings_well_typed:
  assumes "well_typed c"
  shows "well_typed (snd (parseConfigFile files name c)) \<and> well_typed (fold command_line_arg args c) \<and>
    (\<forall>format parse. createParser format = Some parse \<longrightarrow> well_typed (snd (parse content c))) \<and>
    (well_typed (applyEnvironmentOverrides env c) \<longleftrightarrow> env_typed env) \<and>
    (env_typed env \<longrightarrow>
      (\<forall>command r. parse_arguments files env args (command, c) = Inr r \<longrightarrow> well_typed (snd r)) \<and>
      (\<forall>srv. (\<forall>d \<in> set (configs srv). well_typed d) \<longrightarrow>
         (\<forall>d \<in> set (configs (snd (reloadConfig files env srv))). well_typed d)))"
proof (intro conjI allI impI)
  show "well_typed (snd (parseConfigFile files name c))" "well_typed (fold command_line_arg args c)"
    by (rule files_well_typed [OF assms])+
  show "well_typed (applyEnvironmentOverrides env c) \<longleftrightarrow> env_typed env"
    by (rule env_well_typed [OF assms])
qed (use assms in \<open>auto intro: parsers_well_typed parse_arguments_well_typed
       dest: reload_well_typed\<close>)

theorem settings_well_typed_witness:
  "well_typed (snd (parseConfigFile (\<lambda>_. Some ''log_level=7'') ''ntpd.conf'' setDefaults)) \<and>
   \<not> well_typed (applyEnvironmentOverrides
     (\<lambda>name. if name = ''SIMPLE_NTPD_LOG_LEVEL'' then Some ''7'' else None) setDefaults)"
proof -
  let ?env = "\<lambda>name. if name = ''SIMPLE_NTPD_LOG_LEVEL'' then Some ''7'' else None"
  have "enum_setting ?env ''SIMPLE_NTPD_LOG_LEVEL'' 0 = 7" by code_simp
  then have "\<not> env_typed ?env" by (simp add: env_typed_def)
  with settings_well_typed [OF setDefaults_well_typed, of "\<lambda>_. Some ''log_level=7''" "''ntpd.conf''"]
  show ?thesis by blast
qed

end
