(* ===== verification/LoggerFront.thy ===== *)
theory LoggerFront
  imports LogFiles
begin

text \<open>
  The public face of the logger (\<open>utils/logger.cpp\<close>): the time stamp of a message, the methods
  named after the levels, and \<open>NtpConnection::logActivity\<close>, which chooses among them. The clock, the
  conversion to local time and the thread identifier are arguments.
\<close>

section \<open>The time stamp\<close>

record tm =
  tm_year :: int
  tm_mon :: int
  tm_mday :: int
  tm_hour :: int
  tm_min :: int
  tm_sec :: int

text \<open>\<open>std::setw(n)\<close> with \<open>std::setfill('0')\<close>.\<close>

definition padded :: "nat \<Rightarrow> int \<Rightarrow> string" where
  "padded n i = (let s = to_string i in replicate (n - length s) CHR ''0'' @ s)"

text \<open>The clock counts nanoseconds; both conversions truncate towards zero.\<close>

definition getCurrentTimestamp :: "(int \<Rightarrow> tm) \<Rightarrow> int \<Rightarrow> string" where
  "getCurrentTimestamp localtime now =
     (let time_t = now sdiv 1000000000; ms = (now sdiv 1000000) smod 1000; t = localtime time_t
      in to_string (tm_year t + 1900) @ ''-'' @ padded 2 (tm_mon t + 1) @ ''-'' @
         padded 2 (tm_mday t) @ '' '' @ padded 2 (tm_hour t) @ '':'' @ padded 2 (tm_min t) @ '':'' @
         padded 2 (tm_sec t) @ ''.'' @ padded 3 ms)"

lemma to_string_nat_length: "n < 10 ^ Suc k \<Longrightarrow> length (to_string_nat n) \<le> Suc k"
proof (induction k arbitrary: n)
  case 0
  then show ?case by (simp add: to_string_nat_def base_digits.simps [of 10 n])
next
  case (Suc k)
  show ?case
  proof (cases "n < 10")
    case True
    then show ?thesis by (simp add: to_string_nat_def base_digits.simps [of 10 n])
  next
    case False
    have "n div 10 < 10 ^ Suc k" using Suc.prems by (simp add: div_less_iff_less_mult mult.commute)
    from Suc.IH [OF this] False show ?thesis
      by (simp add: to_string_nat_def base_digits.simps [of 10 n])
  qed
qed

lemma padded_length: "0 \<le> i \<Longrightarrow> i < 10 ^ Suc k \<Longrightarrow> length (padded (Suc k) i) = Suc k"
  using to_string_nat_length [of "nat i" k]
  by (simp add: padded_def to_string_def Let_def nat_less_iff)

text \<open>Since the epoch, with fields in their ranges, all but the year has a fixed width.\<close>

lemma timestamp_length:
  assumes "0 \<le> now" "t = localtime (now sdiv 1000000000)"
    "tm_mon t \<in> {0..11}" "tm_mday t \<in> {1..31}"
    "tm_hour t \<in> {0..23}" "tm_min t \<in> {0..59}" "tm_sec t \<in> {0..60}"
  shows "length (getCurrentTimestamp localtime now) = length (to_string (tm_year t + 1900)) + 19"
proof -
  have two: "length (padded 2 i) = 2" if "i \<in> {0..60}" for i
    using padded_length [of i 1] that by (simp add: numeral_2_eq_2)
  have ms: "(now sdiv 1000000) smod 1000 \<in> {0..999}"
  proof -
    have "now sdiv 1000000 = now div 1000000"
      using assms(1) by (cases "now = 0") (simp_all add: signed_divide_int_def)
    moreover have "x smod 1000 = x mod 1000" if "0 \<le> x" for x :: int
      using that by (cases "x = 0") (simp_all add: signed_modulo_int_def)
    ultimately show ?thesis using assms(1) by (simp add: pos_imp_zdiv_nonneg_iff)
  qed
  have three: "length (padded 3 ((now sdiv 1000000) smod 1000)) = 3"
    using padded_length [of "(now sdiv 1000000) smod 1000" 2] ms by (simp add: numeral_3_eq_3)
  show ?thesis using assms two three by (simp add: getCurrentTimestamp_def Let_def)
qed

section \<open>Methods by level\<close>

text \<open>The two values every message needs besides its own: the time stamp and the thread.\<close>

type_synonym log_call = "Logger \<Rightarrow> log_world \<Rightarrow> log_world"

record log_env =
  can_write :: "string \<Rightarrow> bool"
  stamp :: string
  thread_id :: string

definition Logger_log :: "log_env \<Rightarrow> LogLevel \<Rightarrow> string \<Rightarrow> string \<Rightarrow> int \<Rightarrow> log_call" where
  "Logger_log env level message file ln = logger_log (can_write env) (stamp env) (thread_id env) level message file ln"

definition Logger_debug :: "log_env \<Rightarrow> string \<Rightarrow> string \<Rightarrow> int \<Rightarrow> log_call" where
  "Logger_debug env message file ln = Logger_log env LOG_LEVEL_DEBUG message file ln"

definition Logger_info :: "log_env \<Rightarrow> string \<Rightarrow> string \<Rightarrow> int \<Rightarrow> log_call" where
  "Logger_info env message file ln = Logger_log env LOG_LEVEL_INFO message file ln"

definition Logger_warning :: "log_env \<Rightarrow> string \<Rightarrow> string \<Rightarrow> int \<Rightarrow> log_call" where
  "Logger_warning env message file ln = Logger_log env LOG_LEVEL_WARNING message file ln"

definition Logger_error :: "log_env \<Rightarrow> string \<Rightarrow> string \<Rightarrow> int \<Rightarrow> log_call" where
  "Logger_error env message file ln = Logger_log env LOG_LEVEL_ERROR message file ln"

definition Logger_fatal :: "log_env \<Rightarrow> string \<Rightarrow> string \<Rightarrow> int \<Rightarrow> log_call" where
  "Logger_fatal env message file ln = Logger_log env LOG_LEVEL_FATAL message file ln"

text \<open>The logger pointer of a connection may be null; the methods are called without a source.\<close>

definition logActivity ::
    "log_env \<Rightarrow> string \<Rightarrow> LogLevel \<Rightarrow> Logger option \<Rightarrow> log_world \<Rightarrow> log_world" where
  "logActivity env message level logger w = (case logger of None \<Rightarrow> w
     | Some lg \<Rightarrow>
         if level = LOG_LEVEL_DEBUG then Logger_debug env message [] 0 lg w
         else if level = LOG_LEVEL_INFO then Logger_info env message [] 0 lg w
         else if level = LOG_LEVEL_WARNING then Logger_warning env message [] 0 lg w
         else if level = LOG_LEVEL_ERROR then Logger_error env message [] 0 lg w
         else if level = LOG_LEVEL_FATAL then Logger_fatal env message [] 0 lg w
         else w)"

lemmas level_methods = Logger_debug_def Logger_info_def Logger_warning_def Logger_error_def Logger_fatal_def Logger_log_def

lemma logActivity_log:
  "logActivity env message level (Some lg) w =
     (if level \<in> {LOG_LEVEL_DEBUG..LOG_LEVEL_FATAL} then Logger_log env level message [] 0 lg w else w)"
proof -
  have "level \<in> {0..4} \<longleftrightarrow> level = 0 \<or> level = 1 \<or> level = 2 \<or> level = 3 \<or> level = 4" by auto
  then show ?thesis by (auto simp: logActivity_def level_methods)
qed

text \<open>A level above every enumerator, as the environment can set, silences the logger.\<close>

lemma level_silences:
  "logger_level lg > LOG_LEVEL_FATAL \<Longrightarrow> level \<le> LOG_LEVEL_FATAL \<Longrightarrow>
     Logger_log env level message file ln lg w = w"
  by (simp add: Logger_log_def logger_log_def)

section \<open>The Windows console\<close>

text \<open>
  The Windows build of \<open>outputToConsole\<close>: the text attribute of the level, the line, and the
  attribute of ordinary text again. The attributes are the bits of the Windows console.
\<close>

datatype console_call = SetConsoleTextAttribute u16 | Console_line string

definition FOREGROUND_BLUE :: u16 where "FOREGROUND_BLUE = 1"

definition FOREGROUND_GREEN :: u16 where "FOREGROUND_GREEN = 2"

definition FOREGROUND_RED :: u16 where "FOREGROUND_RED = 4"

definition FOREGROUND_INTENSITY :: u16 where "FOREGROUND_INTENSITY = 8"

definition windows_color :: "LogLevel \<Rightarrow> u16" where
  "windows_color level =
     (if level = LOG_LEVEL_DEBUG then FOREGROUND_INTENSITY
      else if level = LOG_LEVEL_INFO then FOREGROUND_GREEN OR FOREGROUND_INTENSITY
      else if level = LOG_LEVEL_WARNING then FOREGROUND_RED OR FOREGROUND_GREEN OR FOREGROUND_INTENSITY
      else if level = LOG_LEVEL_ERROR then FOREGROUND_RED OR FOREGROUND_INTENSITY
      else if level = LOG_LEVEL_FATAL then FOREGROUND_RED OR FOREGROUND_BLUE OR FOREGROUND_INTENSITY
      else FOREGROUND_RED OR FOREGROUND_GREEN OR FOREGROUND_BLUE)"

definition outputToConsole_windows :: "LogLevel \<Rightarrow> string \<Rightarrow> console_call list" where
  "outputToConsole_windows level message =
     [SetConsoleTextAttribute (windows_color level), Console_line message,
      SetConsoleTextAttribute (FOREGROUND_RED OR FOREGROUND_GREEN OR FOREGROUND_BLUE)]"

text \<open>As on the other systems, the five levels and other numbers have different colours.\<close>

lemma windows_color_inj:
  "level \<in> {0 .. 5} \<Longrightarrow> level' \<in> {0 .. 5} \<Longrightarrow> windows_color level = windows_color level' \<longleftrightarrow> level = level'"
proof -
  have six: "k = 0 \<or> k = 1 \<or> k = 2 \<or> k = 3 \<or> k = 4 \<or> k = 5" if "k \<in> {0 .. 5}" for k :: int
    using that by auto
  assume "level \<in> {0 .. 5}" "level' \<in> {0 .. 5}"
  from six [OF this(1)] six [OF this(2)] show ?thesis
    by (elim disjE) (simp_all add: windows_color_def FOREGROUND_BLUE_def FOREGROUND_GREEN_def
        FOREGROUND_RED_def FOREGROUND_INTENSITY_def)
qed

end
