(* ===== verification/Workers.thy ===== *)
theory Workers
  imports ServerControl
begin

text \<open>
  The worker threads of \<open>core/server.cpp\<close> as interleaved steps: \<open>startWorkerThreads\<close> creates
  the threads one by one and sets \<open>workers_running_\<close> afterwards, every thread runs
  \<open>workerThreadFunction\<close>, whose loop tests that flag, and \<open>stopWorkerThreads\<close> clears the flag and
  joins the threads. The body of the loop is the receive loop of the server's control theory; here
  it is one phase of a thread.
\<close>

datatype worker = Testing | Processing | Exited

datatype pool_phase = Creating nat | Started | Stopping | Stopped

record pool =
  pool_phase :: pool_phase
  pool_flag :: bool
  pool_workers :: "worker list"

definition pool_init :: pool where
  "pool_init = \<lparr>pool_phase = Creating 0, pool_flag = False, pool_workers = []\<rparr>"

text \<open>One step of the starting thread, of a worker, or of the stopping thread.\<close>

inductive pool_step :: "nat \<Rightarrow> pool \<Rightarrow> pool \<Rightarrow> bool" for n where
  create: "pool_phase p = Creating i \<Longrightarrow> i < n \<Longrightarrow>
    pool_step n p (p\<lparr>pool_phase := Creating (Suc i), pool_workers := pool_workers p @ [Testing]\<rparr>)"
| publish: "pool_phase p = Creating n \<Longrightarrow>
    pool_step n p (p\<lparr>pool_phase := Started, pool_flag := True\<rparr>)"
| enter: "j < length (pool_workers p) \<Longrightarrow> pool_workers p ! j = Testing \<Longrightarrow> pool_flag p \<Longrightarrow>
    pool_step n p (p\<lparr>pool_workers := (pool_workers p)[j := Processing]\<rparr>)"
| leave: "j < length (pool_workers p) \<Longrightarrow> pool_workers p ! j = Testing \<Longrightarrow> \<not> pool_flag p \<Longrightarrow>
    pool_step n p (p\<lparr>pool_workers := (pool_workers p)[j := Exited]\<rparr>)"
| again: "j < length (pool_workers p) \<Longrightarrow> pool_workers p ! j = Processing \<Longrightarrow>
    pool_step n p (p\<lparr>pool_workers := (pool_workers p)[j := Testing]\<rparr>)"
| stop: "pool_phase p = Started \<Longrightarrow>
    pool_step n p (p\<lparr>pool_phase := Stopping, pool_flag := False\<rparr>)"
| join: "pool_phase p = Stopping \<Longrightarrow> \<forall>w \<in> set (pool_workers p). w = Exited \<Longrightarrow>
    pool_step n p (p\<lparr>pool_phase := Stopped, pool_workers := []\<rparr>)"

inductive_cases pool_stepE: "pool_step n p p'"

inductive_simps pool_step_started:
  "pool_step n \<lparr>pool_phase = Started, pool_flag = f, pool_workers = ws\<rparr> p'"

abbreviation reaches :: "nat \<Rightarrow> pool \<Rightarrow> pool \<Rightarrow> bool" where
  "reaches n \<equiv> (pool_step n)\<^sup>*\<^sup>*"

section \<open>Invariant\<close>

text \<open>The flag tells the phase, and the number of threads is what has been created.\<close>

definition pool_inv :: "nat \<Rightarrow> pool \<Rightarrow> bool" where
  "pool_inv n p \<longleftrightarrow> (pool_flag p \<longleftrightarrow> pool_phase p = Started)
   \<and> (case pool_phase p of
        Creating i \<Rightarrow> i \<le> n \<and> length (pool_workers p) = i \<and> Processing \<notin> set (pool_workers p)
      | Started \<Rightarrow> length (pool_workers p) = n
      | Stopping \<Rightarrow> length (pool_workers p) = n
      | Stopped \<Rightarrow> pool_workers p = [])"

lemma pool_inv_init: "pool_inv n pool_init"
  by (simp add: pool_inv_def pool_init_def)

lemma notin_update: "x \<notin> set ws \<Longrightarrow> y \<noteq> x \<Longrightarrow> x \<notin> set (ws[j := y])"
  using set_update_subset_insert [of ws j y] by blast

lemma pool_inv_step: "pool_step n p p' \<Longrightarrow> pool_inv n p \<Longrightarrow> pool_inv n p'"
  by (induction rule: pool_step.induct)
     (auto simp: pool_inv_def notin_update split: pool_phase.splits)

lemma pool_inv_reaches: "reaches n p p' \<Longrightarrow> pool_inv n p \<Longrightarrow> pool_inv n p'"
  by (induction rule: rtranclp_induct) (auto intro: pool_inv_step)

section \<open>Stopping terminates\<close>

text \<open>After the flag is cleared every step brings a worker nearer to its end.\<close>

fun remaining :: "worker \<Rightarrow> nat" where
  "remaining Processing = 2"
| "remaining Testing = 1"
| "remaining Exited = 0"

definition pool_measure :: "pool \<Rightarrow> nat" where
  "pool_measure p = sum_list (map remaining (pool_workers p))
     + (if pool_phase p = Stopping then 1 else 0)"

lemma sum_list_update_less:
  assumes "j < length ws" "remaining y < remaining (ws ! j)"
  shows "sum_list (map remaining (ws[j := y])) < sum_list (map remaining ws)"
  using assms
  by (induction ws arbitrary: j) (auto split: nat.splits simp: less_Suc_eq_0_disj)

lemma stopping_step:
  assumes "pool_step n p p'" "pool_phase p = Stopping" "\<not> pool_flag p"
  shows "pool_measure p' < pool_measure p \<and> (pool_phase p' = Stopping \<or> pool_phase p' = Stopped)
    \<and> \<not> pool_flag p'"
  using assms
proof cases
  case (leave j)
  then show ?thesis using assms(2,3) sum_list_update_less [of j "pool_workers p" Exited]
    by (simp add: pool_measure_def)
next
  case (again j)
  then show ?thesis using assms(2,3) sum_list_update_less [of j "pool_workers p" Testing]
    by (simp add: pool_measure_def)
qed (auto simp: pool_measure_def)

lemma stopping_progress:
  assumes "pool_phase p = Stopping" "\<not> pool_flag p"
  shows "\<exists>p'. pool_step n p p'"
proof (cases "\<forall>w \<in> set (pool_workers p). w = Exited")
  case True
  with assms(1) show ?thesis by (blast intro: join)
next
  case False
  then obtain j where j: "j < length (pool_workers p)" "pool_workers p ! j \<noteq> Exited"
    by (metis in_set_conv_nth)
  then show ?thesis
    using assms(2) by (cases "pool_workers p ! j") (blast intro: leave again)+
qed

text \<open>Nothing moves in a stopped pool, so a run from a stopping pool only goes down.\<close>

lemma stopped_stuck: "pool_phase p = Stopped \<Longrightarrow> pool_inv n p \<Longrightarrow> \<not> pool_step n p p'"
  by (auto simp: pool_inv_def elim!: pool_stepE)

lemma stopping_run:
  assumes "(pool_step n ^^ k) p p'" and "pool_phase p = Stopping" and "pool_inv n p"
  shows "k + pool_measure p' \<le> pool_measure p \<and> pool_inv n p'
    \<and> (pool_phase p' = Stopping \<or> pool_phase p' = Stopped)"
  using assms
proof (induction k arbitrary: p')
  case 0
  then show ?case by simp
next
  case (Suc k)
  from Suc.prems(1) obtain q where q: "(pool_step n ^^ k) p q" "pool_step n q p'" by auto
  note ih = Suc.IH [OF q(1) Suc.prems(2,3)]
  with q(2) have phase: "pool_phase q = Stopping" using stopped_stuck by blast
  with ih have "\<not> pool_flag q" by (simp add: pool_inv_def)
  from stopping_step [OF q(2) phase this] ih pool_inv_step [OF q(2)] show ?case by auto
qed

lemma pool_measure_bound:
  assumes "pool_inv n p" and "pool_phase p = Stopping"
  shows "pool_measure p \<le> 2 * n + 1"
proof -
  have "sum_list (map remaining ws) \<le> 2 * length ws" for ws
  proof (induction ws)
    case (Cons w ws)
    then show ?case by (cases w) simp_all
  qed simp
  from this [of "pool_workers p"] show ?thesis using assms by (simp add: pool_measure_def pool_inv_def)
qed

section \<open>The start race\<close>

text \<open>Every worker tests the flag before the starting thread sets it.\<close>

definition dead_pool :: "nat \<Rightarrow> pool" where
  "dead_pool n = \<lparr>pool_phase = Started, pool_flag = True, pool_workers = replicate n Exited\<rparr>"

lemma create_and_leave:
  "i \<le> n \<Longrightarrow> reaches n pool_init
     \<lparr>pool_phase = Creating i, pool_flag = False, pool_workers = replicate i Exited\<rparr>"
proof (induction i)
  case 0
  then show ?case by (simp add: pool_init_def)
next
  case (Suc i)
  let ?p = "\<lparr>pool_phase = Creating i, pool_flag = False, pool_workers = replicate i Exited\<rparr>"
  let ?q = "\<lparr>pool_phase = Creating (Suc i), pool_flag = False,
    pool_workers = replicate i Exited @ [Testing]\<rparr>"
  have "pool_step n ?p ?q" using create [of ?p i n] Suc.prems by simp
  moreover have "pool_step n ?q
      \<lparr>pool_phase = Creating (Suc i), pool_flag = False, pool_workers = replicate (Suc i) Exited\<rparr>"
    using leave [of i ?q n]
    by (simp add: nth_append list_update_append replicate_append_same)
  ultimately show ?case using Suc by (meson Suc_leD rtranclp.rtrancl_into_rtrancl)
qed

lemma dead_pool_reachable: "reaches n pool_init (dead_pool n)"
proof -
  let ?p = "\<lparr>pool_phase = Creating n, pool_flag = False, pool_workers = replicate n Exited\<rparr>"
  have "pool_step n ?p (dead_pool n)" using publish [of ?p n] by (simp add: dead_pool_def)
  with create_and_leave [of n n] show ?thesis by (meson le_refl rtranclp.rtrancl_into_rtrancl)
qed

lemma dead_pool_step: "pool_step n (dead_pool n) p' \<Longrightarrow> pool_phase p' = Stopping"
  by (auto simp: dead_pool_def pool_step_started)

text \<open>
  C18. Stopping terminates under every schedule: once \<open>stopWorkerThreads\<close> has cleared the flag, no
  run of the pool is longer than two steps per worker and the join, and a run can only end with all
  threads joined.
\<close>
theorem stop_terminates:
  assumes "reaches n pool_init p" and "pool_phase p = Stopping" and "(pool_step n ^^ k) p p'"
  shows "k \<le> 2 * n + 1
    \<and> ((\<forall>p''. \<not> pool_step n p' p'') \<longrightarrow> pool_phase p' = Stopped \<and> pool_workers p' = [])"
proof -
  have inv: "pool_inv n p" by (rule pool_inv_reaches [OF assms(1) pool_inv_init])
  note run = stopping_run [OF assms(3,2) inv]
  have "pool_phase p' = Stopped \<and> pool_workers p' = []" if "\<forall>p''. \<not> pool_step n p' p''"
    using run that stopping_progress [of p' n] by (auto simp: pool_inv_def)
  moreover have "k \<le> 2 * n + 1" using run pool_measure_bound [OF inv assms(2)] by linarith
  ultimately show ?thesis by blast
qed

definition stopping_pool :: "nat \<Rightarrow> pool" where
  "stopping_pool n = \<lparr>pool_phase = Stopping, pool_flag = False, pool_workers = replicate n Exited\<rparr>"

lemma stopping_pool_reachable: "reaches n pool_init (stopping_pool n)"
  using dead_pool_reachable [of n] stop [of "dead_pool n" n]
  by (auto simp: dead_pool_def stopping_pool_def elim: rtranclp.rtrancl_into_rtrancl)

theorem stop_terminates_witness:
  "(pool_step 2 ^^ 1) (stopping_pool 2) \<lparr>pool_phase = Stopped, pool_flag = False, pool_workers = []\<rparr>
   \<and> (1 :: nat) \<le> 2 * 2 + 1"
proof -
  have "(pool_step 2 ^^ 1) (stopping_pool 2)
      \<lparr>pool_phase = Stopped, pool_flag = False, pool_workers = []\<rparr>"
    using join [of "stopping_pool 2" 2] by (simp add: stopping_pool_def eq_OO)
  with stop_terminates [OF stopping_pool_reachable _ this] show ?thesis
    by (simp add: stopping_pool_def)
qed

text \<open>
  C19. The workers. In every reachable state there are as many threads as were created, at most
  the configured number, and the flag is set exactly while the pool is started. But the flag is set only after the threads exist, so a schedule
  in which every one of them tests it first is possible, for any number of workers: the server then
  counts as started with no thread left, and nothing but a stop can happen.
\<close>
theorem worker_pool:
  assumes "reaches n pool_init p"
  shows "length (pool_workers p) \<le> n \<and> (pool_flag p \<longleftrightarrow> pool_phase p = Started)
    \<and> reaches n pool_init (dead_pool n)
    \<and> (\<forall>w \<in> set (pool_workers (dead_pool n)). w = Exited)
    \<and> (\<forall>p'. pool_step n (dead_pool n) p' \<longrightarrow> pool_phase p' = Stopping)"
proof -
  have inv: "pool_inv n p" by (rule pool_inv_reaches [OF assms pool_inv_init])
  then have "length (pool_workers p) \<le> n \<and> (pool_flag p \<longleftrightarrow> pool_phase p = Started)"
    by (auto simp: pool_inv_def split: pool_phase.splits)
  then show ?thesis
    using dead_pool_reachable dead_pool_step by (auto simp: dead_pool_def)
qed

theorem worker_pool_witness:
  "reaches 4 pool_init (dead_pool 4) \<and> pool_phase (dead_pool 4) = Started"
  using worker_pool [of 4 pool_init] by (simp add: dead_pool_def)

end
