(* ===== verification/StopRace.thy ===== *)
theory StopRace
  imports Workers
begin

text \<open>
  Stopping the server while its workers answer requests. \<open>NtpServer::stop\<close> of \<open>core/server.cpp\<close>
  resets the pointer to the synchronisation manager before it stops the workers, and
  \<open>processPacket\<close> tests that pointer and then follows it, without a lock. One step is one test or one
  use of the pointer, or one assignment of the stopping thread.
\<close>

section \<open>Workers and the stopping thread\<close>

text \<open>
  Where a worker is: at the test of its loop, among its datagrams, after the test of the pointer
  for the stratum, between \<open>isSynced\<close> and \<open>effectiveStratum\<close>, before and after the test for the
  clock offset, out of its loop, or following a null pointer, which ends the process.
\<close>

datatype reply_at = Loop_test | Receiving | Stratum_tested | Stratum_synced | Offset_test
  | Offset_tested | Loop_left | Null_dereference

fun reply_next :: "NtpServer \<Rightarrow> reply_at \<Rightarrow> reply_at list" where
  "reply_next srv Loop_test = [if workers_running srv then Receiving else Loop_left]"
| "reply_next srv Receiving =
     [Loop_test, if upstream_sync srv \<noteq> None then Stratum_tested else Offset_test]"
| "reply_next srv Stratum_tested = (case upstream_sync srv of None \<Rightarrow> [Null_dereference]
     | Some u \<Rightarrow> [if isSynced u then Stratum_synced else Offset_test])"
| "reply_next srv Stratum_synced = (case upstream_sync srv of None \<Rightarrow> [Null_dereference]
     | Some u \<Rightarrow> [Offset_test])"
| "reply_next srv Offset_test = [if upstream_sync srv \<noteq> None then Offset_tested else Receiving]"
| "reply_next srv Offset_tested = (case upstream_sync srv of None \<Rightarrow> [Null_dereference]
     | Some u \<Rightarrow> [Receiving])"
| "reply_next srv Loop_left = []"
| "reply_next srv Null_dereference = []"

datatype stop_at = Stop_test | Stop_sync | Stop_flag | Stop_join | Stop_joined

text \<open>
  The stopping thread; \<open>Stop_sync\<close> is also the stop of the synchronisation thread, which the reset
  follows. The join waits until every worker has left its loop.
\<close>

inductive shutdown_step ::
    "stop_at \<times> reply_at list \<times> NtpServer \<Rightarrow> stop_at \<times> reply_at list \<times> NtpServer \<Rightarrow> bool" where
  worker: "Null_dereference \<notin> set ts \<Longrightarrow> j < length ts \<Longrightarrow> r \<in> set (reply_next srv (ts ! j)) \<Longrightarrow>
     shutdown_step (st, ts, srv) (st, ts[j := r], srv)"
| stop_begins: "Null_dereference \<notin> set ts \<Longrightarrow> running srv \<Longrightarrow>
     shutdown_step (Stop_test, ts, srv) (Stop_sync, ts, srv\<lparr>running := False\<rparr>)"
| sync_reset: "Null_dereference \<notin> set ts \<Longrightarrow>
     shutdown_step (Stop_sync, ts, srv) (Stop_flag, ts, srv\<lparr>upstream_sync := None\<rparr>)"
| flag_cleared: "Null_dereference \<notin> set ts \<Longrightarrow>
     shutdown_step (Stop_flag, ts, srv) (Stop_join, ts, srv\<lparr>workers_running := False\<rparr>)"
| joined: "\<forall>t \<in> set ts. t = Loop_left \<Longrightarrow>
     shutdown_step (Stop_join, ts, srv) (Stop_joined, ts, srv\<lparr>worker_count := 0\<rparr>)"

inductive_cases shutdown_stepE: "shutdown_step p p'"

abbreviation shuts :: "stop_at \<times> reply_at list \<times> NtpServer \<Rightarrow> stop_at \<times> reply_at list \<times> NtpServer \<Rightarrow> bool"
where "shuts \<equiv> shutdown_step\<^sup>*\<^sup>*"

section \<open>Invariant\<close>

definition stop_inv :: "NtpServer \<Rightarrow> stop_at \<times> reply_at list \<times> NtpServer \<Rightarrow> bool" where
  "stop_inv srv0 p \<longleftrightarrow> (case p of (st, ts, srv) \<Rightarrow>
     upstream_sync srv = (if st \<in> {Stop_test, Stop_sync} then upstream_sync srv0 else None) \<and>
     (set ts \<inter> {Stratum_tested, Stratum_synced, Offset_tested, Null_dereference} \<noteq> {} \<longrightarrow>
        upstream_sync srv0 \<noteq> None) \<and>
     (Null_dereference \<in> set ts \<longrightarrow> st \<in> {Stop_flag, Stop_join}) \<and>
     (st = Stop_joined \<longrightarrow> (\<forall>t \<in> set ts. t = Loop_left)))"

lemma reply_next_pointer:
  assumes "r \<in> set (reply_next srv t)"
    "r \<in> {Stratum_tested, Stratum_synced, Offset_tested, Null_dereference}"
  shows "upstream_sync srv \<noteq> None \<or> t \<in> {Stratum_tested, Stratum_synced, Offset_tested}"
    "r = Null_dereference \<Longrightarrow> upstream_sync srv = None"
    "r = Null_dereference \<Longrightarrow> t \<in> {Stratum_tested, Stratum_synced, Offset_tested}"
  using assms by (cases t; auto split: option.splits if_splits)+

lemma stop_inv_step:
  assumes "shutdown_step p p'" "stop_inv srv0 p"
  shows "stop_inv srv0 p'"
  using assms(1)
proof cases
  case (worker ts j r srv st)
  have t: "ts ! j \<in> set ts" using worker by simp
  have sub: "set (ts[j := r]) \<subseteq> insert r (set ts)" by (rule set_update_subset_insert)
  note nx = reply_next_pointer [OF worker(5)]
  have old: "upstream_sync srv = (if st \<in> {Stop_test, Stop_sync} then upstream_sync srv0 else None)"
    "set ts \<inter> {Stratum_tested, Stratum_synced, Offset_tested, Null_dereference} \<noteq> {} \<longrightarrow>
       upstream_sync srv0 \<noteq> None"
    and ended: "st = Stop_joined \<longrightarrow> (\<forall>t \<in> set ts. t = Loop_left)"
    using assms(2) worker(1) by (simp_all add: stop_inv_def)
  have j: "st \<noteq> Stop_joined"
    using ended t worker(5) by (metis empty_iff list.set(1) reply_next.simps(7))
  have r: "upstream_sync srv0 \<noteq> None"
    if x: "r \<in> {Stratum_tested, Stratum_synced, Offset_tested, Null_dereference}"
  proof (cases "upstream_sync srv = None")
    case True
    with nx(1) [OF x] have "ts ! j \<in> {Stratum_tested, Stratum_synced, Offset_tested}" by blast
    with t old(2) show ?thesis by blast
  next
    case False
    with old(1) show ?thesis by metis
  qed
  have n: "st \<in> {Stop_flag, Stop_join}" if x: "r = Null_dereference"
  proof -
    have "upstream_sync srv = None" "upstream_sync srv0 \<noteq> None" using nx(2) r x by simp_all
    with old(1) have "st \<notin> {Stop_test, Stop_sync}" by metis
    with j show ?thesis by (cases st) simp_all
  qed
  have "set (ts[j := r]) \<inter> {Stratum_tested, Stratum_synced, Offset_tested, Null_dereference} \<noteq> {} \<longrightarrow>
      upstream_sync srv0 \<noteq> None"
    using sub r old(2) by blast
  moreover have "Null_dereference \<in> set (ts[j := r]) \<longrightarrow> st \<in> {Stop_flag, Stop_join}"
    using sub n worker(3) by blast
  ultimately show ?thesis using old(1) worker(2) j by (simp add: stop_inv_def)
qed (use assms(2) in \<open>auto simp: stop_inv_def split: if_splits\<close>)

lemma stop_inv_run: "shuts p p' \<Longrightarrow> stop_inv srv0 p \<Longrightarrow> stop_inv srv0 p'"
  by (induction rule: rtranclp_induct) (auto intro: stop_inv_step)

text \<open>The stopping thread alone, as \<open>server_stop\<close> has it.\<close>

lemma stop_alone:
  assumes "running srv" "\<forall>t \<in> set ts. t = Loop_left"
  shows "shuts (Stop_test, ts, srv)
    (Stop_joined, ts, stopWorkerThreads (srv\<lparr>running := False, upstream_sync := None\<rparr>))"
proof -
  have n: "Null_dereference \<notin> set ts" using assms(2) by auto
  let ?a = "srv\<lparr>running := False\<rparr>"
  let ?b = "?a\<lparr>upstream_sync := None\<rparr>"
  let ?c = "?b\<lparr>workers_running := False\<rparr>"
  have "shutdown_step (Stop_test, ts, srv) (Stop_sync, ts, ?a)" using n assms(1) by (rule stop_begins)
  moreover have "shutdown_step (Stop_sync, ts, ?a) (Stop_flag, ts, ?b)" using n by (rule sync_reset)
  moreover have "shutdown_step (Stop_flag, ts, ?b) (Stop_join, ts, ?c)" using n by (rule flag_cleared)
  moreover have "shutdown_step (Stop_join, ts, ?c) (Stop_joined, ts, ?c\<lparr>worker_count := 0\<rparr>)"
    using assms(2) by (rule joined)
  ultimately show ?thesis
    by (simp add: stopWorkerThreads_def converse_rtranclp_into_rtranclp)
qed

section \<open>The race\<close>

text \<open>One worker tests the pointer, the stopping thread resets it, the worker follows it.\<close>

lemma null_reached:
  assumes "running srv" "workers_running srv" "upstream_sync srv \<noteq> None"
  shows "shuts (Stop_test, replicate (Suc n) Loop_test, srv)
    (Stop_flag, Null_dereference # replicate n Loop_test,
     srv\<lparr>running := False, upstream_sync := None\<rparr>)"
proof -
  let ?ws = "replicate n Loop_test" and ?a = "srv\<lparr>running := False\<rparr>"
  let ?b = "?a\<lparr>upstream_sync := None\<rparr>"
  have w: "shutdown_step (st, t # ?ws, s) (st, r # ?ws, s)"
    if "r \<in> set (reply_next s t)" "t \<noteq> Null_dereference" for st t r s
    using worker [of "t # ?ws" 0 r s st] that by simp
  have "shutdown_step (Stop_test, Loop_test # ?ws, srv) (Stop_test, Receiving # ?ws, srv)"
    using assms(2) by (intro w) simp_all
  moreover have "shutdown_step (Stop_test, Receiving # ?ws, srv) (Stop_test, Stratum_tested # ?ws, srv)"
    using assms(3) by (intro w) simp_all
  moreover have "shutdown_step (Stop_test, Stratum_tested # ?ws, srv) (Stop_sync, Stratum_tested # ?ws, ?a)"
    using assms(1) by (intro stop_begins) simp_all
  moreover have "shutdown_step (Stop_sync, Stratum_tested # ?ws, ?a) (Stop_flag, Stratum_tested # ?ws, ?b)"
    by (intro sync_reset) simp_all
  moreover have "shutdown_step (Stop_flag, Stratum_tested # ?ws, ?b) (Stop_flag, Null_dereference # ?ws, ?b)"
    by (intro w) simp_all
  ultimately show ?thesis
    by (simp add: converse_rtranclp_into_rtranclp)
qed

text \<open>
  C27. Stopping while the workers answer. A worker can follow the null pointer only after
  \<open>stop\<close> has reset the pointer and before it has joined the workers, and only in a server that had
  upstream servers; but in a running server with an upstream synchronisation and at least one worker
  a schedule does so: the worker tests the pointer, \<open>stop\<close> resets it, the worker uses it.
\<close>
theorem stop_race:
  assumes "shuts (Stop_test, replicate n Loop_test, srv) (st, ts, srv')"
  shows "(Null_dereference \<in> set ts \<longrightarrow> upstream_sync srv \<noteq> None \<and> st \<in> {Stop_flag, Stop_join})
    \<and> (st = Stop_joined \<longrightarrow> (\<forall>t \<in> set ts. t = Loop_left))
    \<and> (0 < n \<and> running srv \<and> workers_running srv \<and> upstream_sync srv \<noteq> None \<longrightarrow>
       (\<exists>ts srv'. shuts (Stop_test, replicate n Loop_test, srv) (Stop_flag, ts, srv') \<and>
          Null_dereference \<in> set ts))"
proof -
  have "stop_inv srv (Stop_test, replicate n Loop_test, srv)" by (auto simp: stop_inv_def)
  with stop_inv_run [OF assms] have "stop_inv srv (st, ts, srv')" by blast
  then have "(Null_dereference \<in> set ts \<longrightarrow> upstream_sync srv \<noteq> None \<and> st \<in> {Stop_flag, Stop_join})
      \<and> (st = Stop_joined \<longrightarrow> (\<forall>t \<in> set ts. t = Loop_left))"
    by (auto simp: stop_inv_def)
  moreover have "\<exists>ts srv'. shuts (Stop_test, replicate n Loop_test, srv) (Stop_flag, ts, srv') \<and>
      Null_dereference \<in> set ts"
    if c: "0 < n \<and> running srv \<and> workers_running srv \<and> upstream_sync srv \<noteq> None"
  proof -
    from c obtain k where "n = Suc k" using gr0_implies_Suc by blast
    with c null_reached [of srv k] show ?thesis by (metis list.set_intros(1))
  qed
  ultimately show ?thesis by blast
qed

definition answering_server :: NtpServer where
  "answering_server = (NtpServer_init setDefaults Logger_init)\<lparr>running := True, workers_running := True,
     upstream_sync := Some UpstreamSyncManager_init\<rparr>"

theorem stop_race_witness:
  "\<exists>ts srv. shuts (Stop_test, replicate 4 Loop_test, answering_server) (Stop_flag, ts, srv) \<and>
     Null_dereference \<in> set ts"
proof -
  have "shuts (Stop_test, replicate 4 Loop_test, answering_server)
      (Stop_test, replicate 4 Loop_test, answering_server)" by simp
  from stop_race [OF this] show ?thesis by (simp add: answering_server_def)
qed

end
