(* ===== verification/Races.thy ===== *)
theory Races
  imports Workers
begin

text \<open>
  What the worker threads of \<open>core/server.cpp\<close> share without a lock, one access a step.

  \<^item> The self-healing part of \<open>processIncomingPackets\<close> tests \<open>restart_count_\<close> against its limit and
    then adds to it, with two atomic operations: other workers run between them.
  \<^item> The counters of \<open>stats_\<close> are plain integers. No writer takes \<open>stats_mutex_\<close>, which only
    \<open>getStats\<close> locks, so an increment is a load and a store. The steps interleave these; the C++
    standard promises even less for such a data race.
\<close>

section \<open>Restarting the socket\<close>

datatype heal_at = Heal_free | Heal_passed | Heal_counted

type_synonym healers = "heal_at list \<times> NtpServer"

text \<open>
  A worker whose receive failed: the test, the count, and the new socket. One that does not pass the
  test leaves the receive loop and changes nothing.
\<close>

definition heal_allowed :: "NtpServer \<Rightarrow> bool" where
  "heal_allowed srv = (case config_of srv of None \<Rightarrow> False
     | Some c \<Rightarrow> enable_self_healing c \<and> restart_count srv < service_restart_limit c)"

definition heal_count :: "NtpServer \<Rightarrow> NtpServer" where
  "heal_count srv = srv\<lparr>restart_count := restart_count srv + 1\<rparr>"

definition heal_reopen ::
    "(string \<Rightarrow> u32 option) \<Rightarrow> int \<Rightarrow> int \<Rightarrow> NtpServer \<Rightarrow> bool \<times> NtpServer" where
  "heal_reopen pton sock bind_rc srv =
     (let (ok, srv) = initializeSocket sock (closeSocket srv)
      in (ok \<and> bindSocket pton bind_rc srv, srv))"

lemma heal_socket_steps:
  "heal_socket pton sock bind_rc srv =
     (if heal_allowed srv then heal_reopen pton sock bind_rc (heal_count srv) else (False, srv))"
  by (simp add: heal_socket_def heal_allowed_def heal_count_def heal_reopen_def Let_def
      split: option.splits)

inductive heal_step :: "healers \<Rightarrow> healers \<Rightarrow> bool" where
  passes: "j < length ts \<Longrightarrow> ts ! j = Heal_free \<Longrightarrow> heal_allowed srv \<Longrightarrow>
     heal_step (ts, srv) (ts[j := Heal_passed], srv)"
| counts: "j < length ts \<Longrightarrow> ts ! j = Heal_passed \<Longrightarrow>
     heal_step (ts, srv) (ts[j := Heal_counted], heal_count srv)"
| reopens: "j < length ts \<Longrightarrow> ts ! j = Heal_counted \<Longrightarrow>
     heal_step (ts, srv) (ts[j := Heal_free], snd (heal_reopen pton sock bind_rc srv))"

inductive_cases heal_stepE: "heal_step p p'"

abbreviation heals :: "healers \<Rightarrow> healers \<Rightarrow> bool" where
  "heals \<equiv> heal_step\<^sup>*\<^sup>*"

definition passed :: "heal_at list \<Rightarrow> nat" where
  "passed ts = length (filter (\<lambda>t. t = Heal_passed) ts)"

definition heal_limit :: "NtpServer \<Rightarrow> nat" where
  "heal_limit srv = (case config_of srv of None \<Rightarrow> 0 | Some c \<Rightarrow> unat (service_restart_limit c))"

text \<open>
  With \<open>n\<close> workers: the configuration in force is not changed, and restarts counted or about to be
  counted stay within the bound.
\<close>

definition heal_bound_of :: "nat \<Rightarrow> NtpServer \<Rightarrow> nat" where
  "heal_bound_of n srv = max (unat (restart_count srv)) (heal_limit srv + n - 1)"

definition heal_inv :: "nat \<Rightarrow> NtpServer \<Rightarrow> healers \<Rightarrow> bool" where
  "heal_inv n srv0 p \<longleftrightarrow> length (fst p) = n \<and> config_of (snd p) = config_of srv0 \<and>
     unat (restart_count srv0) \<le> unat (restart_count (snd p)) \<and>
     unat (restart_count (snd p)) + passed (fst p) \<le> heal_bound_of n srv0"

lemma passed_update:
  assumes "j < length ts"
  shows "passed (ts[j := t]) + (if ts ! j = Heal_passed then 1 else 0) =
    passed ts + (if t = Heal_passed then 1 else 0)"
  using assms unfolding passed_def
proof (induction ts arbitrary: j)
  case (Cons a ts)
  show ?case
  proof (cases j)
    case (Suc i)
    with Cons.IH [of i] Cons.prems show ?thesis by (auto split: if_splits)
  qed simp
qed simp

lemma heal_reopen_simps [simp]:
  "restart_count (snd (heal_reopen pton sock rc srv)) = restart_count srv"
  "config_of (snd (heal_reopen pton sock rc srv)) = config_of srv"
  by (simp_all add: heal_reopen_def initializeSocket_def Let_def config_of_def)

lemma heal_allowed_limit:
  "heal_allowed srv \<Longrightarrow> unat (restart_count srv) < heal_limit srv"
  by (auto simp: heal_allowed_def heal_limit_def word_less_nat_alt split: option.splits)

lemma heal_step_inv:
  assumes "heal_step p p'" "heal_inv n srv0 p" "heal_bound_of n srv0 < 2 ^ 32"
  shows "heal_inv n srv0 p'"
  using assms(1)
proof cases
  case (passes j ts srv)
  have "passed (ts[j := Heal_passed]) = passed ts + 1"
    using passed_update [of j ts Heal_passed] passes by simp
  moreover have "passed (ts[j := Heal_passed]) \<le> n"
    using assms(2) passes by (simp add: heal_inv_def passed_def) (metis length_filter_le length_list_update)
  moreover have "unat (restart_count srv) < heal_limit srv0"
    using heal_allowed_limit [OF passes(5)] assms(2) passes by (simp add: heal_inv_def heal_limit_def)
  ultimately have "unat (restart_count srv) + passed (ts[j := Heal_passed]) \<le> heal_bound_of n srv0"
    by (simp add: heal_bound_of_def)
  with assms(2) passes show ?thesis by (simp add: heal_inv_def)
next
  case (counts j ts srv)
  have p: "passed ts = passed (ts[j := Heal_counted]) + 1"
    using passed_update [of j ts Heal_counted] counts by simp
  have "unat (restart_count srv) + 1 \<le> heal_bound_of n srv0"
    using assms(2) p counts by (simp add: heal_inv_def)
  then have "unat (restart_count srv + 1) = unat (restart_count srv) + 1"
    using assms(3) by (intro unat_inc) simp
  with assms(2) counts p show ?thesis by (simp add: heal_inv_def heal_count_def config_of_def)
next
  case (reopens j ts pton sock bind_rc srv)
  then have "passed (ts[j := Heal_free]) = passed ts"
    using passed_update [of j ts Heal_free] by simp
  with assms(2) reopens show ?thesis by (simp add: heal_inv_def)
qed

lemma heals_inv:
  "heals p p' \<Longrightarrow> heal_inv n srv0 p \<Longrightarrow> heal_bound_of n srv0 < 2 ^ 32 \<Longrightarrow> heal_inv n srv0 p'"
  by (induction rule: rtranclp_induct) (auto intro: heal_step_inv)

text \<open>The schedule that reaches the bound: one worker restarts alone as long as it leaves room,
  then every worker passes the test before any of them counts.\<close>

lemma heal_alone:
  assumes "heal_allowed srv" "n > 0"
  shows "heals (replicate n Heal_free, srv)
    (replicate n Heal_free, snd (heal_socket pton sock rc srv))"
proof -
  let ?free = "replicate n Heal_free"
  have "heal_step (?free, srv) (?free[0 := Heal_passed], srv)"
    using assms by (intro passes) simp_all
  moreover have "heal_step (?free[0 := Heal_passed], srv)
      (?free[0 := Heal_passed, 0 := Heal_counted], heal_count srv)"
    using assms by (intro counts) simp_all
  moreover have "heal_step (?free[0 := Heal_passed, 0 := Heal_counted], heal_count srv)
      (?free[0 := Heal_passed, 0 := Heal_counted, 0 := Heal_free],
       snd (heal_reopen pton sock rc (heal_count srv)))"
    using assms by (intro reopens) simp_all
  moreover have "?free[0 := Heal_free] = ?free" using assms by (intro nth_equalityI) (auto simp: nth_list_update)
  ultimately show ?thesis
    using assms(1) unfolding heal_socket_steps list_update_overwrite
    by (simp add: converse_rtranclp_into_rtranclp)
qed

lemma heal_socket_allowed:
  assumes "heal_allowed srv"
  shows "config_of (snd (heal_socket pton sock rc srv)) = config_of srv"
    "unat (restart_count (snd (heal_socket pton sock rc srv))) = unat (restart_count srv) + 1"
proof -
  have "heal_limit srv < 2 ^ 32"
    using unsigned_less [where ?'b = 32 and ?'a = nat] by (simp add: heal_limit_def split: option.splits)
  then have "unat (restart_count srv) + 1 < 2 ^ 32" using heal_allowed_limit [OF assms] by simp
  then have "unat (restart_count srv + 1) = unat (restart_count srv) + 1" by (intro unat_inc) simp
  with assms show "unat (restart_count (snd (heal_socket pton sock rc srv))) = unat (restart_count srv) + 1"
    by (simp add: heal_socket_steps heal_count_def)
  show "config_of (snd (heal_socket pton sock rc srv)) = config_of srv"
    using assms by (simp add: heal_socket_steps) (simp add: heal_count_def config_of_def)
qed

lemma heal_to_limit:
  assumes "heal_allowed srv" "n > 0"
  shows "\<exists>srv'. heals (replicate n Heal_free, srv) (replicate n Heal_free, srv') \<and>
    heal_allowed srv' \<and> config_of srv' = config_of srv \<and>
    unat (restart_count srv') + 1 = heal_limit srv"
  using assms(1)
proof (induction "heal_limit srv - unat (restart_count srv)" arbitrary: srv rule: less_induct)
  case less
  note lt = heal_allowed_limit [OF less.prems]
  show ?case
  proof (cases "unat (restart_count srv) + 1 = heal_limit srv")
    case True
    with less.prems show ?thesis by blast
  next
    case False
    let ?t = "snd (heal_socket (\<lambda>_. None) 0 0 srv)"
    note t = heal_socket_allowed [OF less.prems, of "\<lambda>_. None" 0 0]
    have lim: "heal_limit ?t = heal_limit srv" using t(1) by (simp add: heal_limit_def)
    have "heal_allowed ?t"
      using less.prems t lim lt False
      by (auto simp: heal_allowed_def heal_limit_def word_less_nat_alt split: option.splits)
    with less.hyps [of ?t] t lim lt heal_alone [OF less.prems assms(2)] show ?thesis
      by (metis (no_types, lifting) Suc_eq_plus1 diff_less_mono2 lessI rtranclp_trans)
  qed
qed

lemma all_pass:
  assumes "heal_allowed srv"
  shows "heals (replicate i Heal_passed @ replicate k Heal_free, srv)
    (replicate (i + k) Heal_passed, srv)"
proof (induction k arbitrary: i)
  case (Suc k)
  have "heal_step (replicate i Heal_passed @ replicate (Suc k) Heal_free, srv)
      ((replicate i Heal_passed @ replicate (Suc k) Heal_free)[i := Heal_passed], srv)"
    using assms by (intro passes) (simp_all add: nth_append)
  then have "heal_step (replicate i Heal_passed @ replicate (Suc k) Heal_free, srv)
      (replicate (Suc i) Heal_passed @ replicate k Heal_free, srv)"
    by (simp add: list_update_append replicate_app_Cons_same)
  with Suc [of "Suc i"] show ?case by (simp add: converse_rtranclp_into_rtranclp)
qed simp

lemma all_count:
  "heals (replicate i Heal_counted @ replicate k Heal_passed, srv)
    (replicate (i + k) Heal_counted, (heal_count ^^ k) srv)"
proof (induction k arbitrary: i srv)
  case (Suc k)
  have "heal_step (replicate i Heal_counted @ replicate (Suc k) Heal_passed, srv)
      ((replicate i Heal_counted @ replicate (Suc k) Heal_passed)[i := Heal_counted], heal_count srv)"
    by (intro counts) (simp_all add: nth_append)
  then have "heal_step (replicate i Heal_counted @ replicate (Suc k) Heal_passed, srv)
      (replicate (Suc i) Heal_counted @ replicate k Heal_passed, heal_count srv)"
    by (simp add: list_update_append replicate_app_Cons_same)
  with Suc [of "Suc i" "heal_count srv"] show ?case
    by (simp add: converse_rtranclp_into_rtranclp funpow_swap1)
qed simp

lemma heal_count_many: "restart_count ((heal_count ^^ k) srv) = restart_count srv + of_nat k"
  by (induction k arbitrary: srv) (simp_all add: heal_count_def)

lemma heals_attain:
  assumes "heal_allowed srv" "n > 0" "heal_bound_of n srv < 2 ^ 32"
  shows "\<exists>ts srv'. heals (replicate n Heal_free, srv) (ts, srv') \<and>
    unat (restart_count srv') = heal_limit srv + n - 1"
proof -
  obtain s where s: "heals (replicate n Heal_free, srv) (replicate n Heal_free, s)"
    "heal_allowed s" "unat (restart_count s) + 1 = heal_limit srv"
    using heal_to_limit [OF assms(1,2)] by blast
  have run: "heals (replicate n Heal_free, srv) (replicate n Heal_counted, (heal_count ^^ n) s)"
    using s(1) all_pass [OF s(2), of 0 n] all_count [of 0 n s] by (auto intro: rtranclp_trans)
  have le: "unat (restart_count s) + n < 2 ^ 32" using s(3) assms(3) using assms(2)
    unfolding heal_bound_of_def by linarith
  then have "unat (restart_count s + of_nat n) = unat (restart_count s) + n"
    by (simp add: unat_word_ariths unat_of_nat)
  with run s(3) show ?thesis by (intro exI conjI) (auto simp: heal_count_many)
qed

text \<open>
  C28. The limit on restarts of the socket under any interleaving of \<open>n\<close> workers that begin outside
  the self-healing part: the test and the count are two operations, so the counter can pass the
  limit, by at most the number of workers less one, and a schedule that does so exists whenever
  a restart is allowed at all. With one worker the limit holds.
\<close>

theorem restart_race:
  assumes "heals (replicate n Heal_free, srv) (ts, srv')" "heal_bound_of n srv < 2 ^ 32"
  shows "unat (restart_count srv') \<le> max (unat (restart_count srv)) (heal_limit srv + n - 1) \<and>
    (n > 0 \<and> heal_allowed srv \<longrightarrow> (\<exists>ts'' srv''.
       heals (replicate n Heal_free, srv) (ts'', srv'') \<and>
       unat (restart_count srv'') = heal_limit srv + n - 1))"
proof -
  have "heal_inv n srv (replicate n Heal_free, srv)"
    by (simp add: heal_inv_def passed_def heal_bound_of_def)
  with heals_inv [OF assms(1) _ assms(2)] have "heal_inv n srv (ts, srv')" by blast
  then have "unat (restart_count srv') \<le> heal_bound_of n srv" by (simp add: heal_inv_def)
  with heals_attain [OF _ _ assms(2)] show ?thesis by (simp add: heal_bound_of_def)
qed

definition healing_server :: NtpServer where
  "healing_server = NtpServer_init
     (setDefaults\<lparr>enable_self_healing := True, service_restart_limit := 1\<rparr>) Logger_init"

theorem restart_race_witness:
  "heal_limit healing_server = 1 \<and> (\<exists>ts srv.
     heals (replicate 4 Heal_free, healing_server) (ts, srv) \<and> unat (restart_count srv) = 4)"
proof -
  have lim: "heal_limit healing_server = 1" and zero: "restart_count healing_server = 0"
    and ok: "heal_allowed healing_server"
    by (simp_all add: healing_server_def heal_limit_def heal_allowed_def config_of_def deref_def
        NtpServer_init_def)
  have "heals (replicate 4 Heal_free, healing_server) (replicate 4 Heal_free, healing_server)" by simp
  from restart_race [OF this] lim zero ok show ?thesis by (simp add: heal_bound_of_def)
qed

section \<open>Counting without a lock\<close>

text \<open>
  A worker that adds one to a counter: it has so many increments to do, and between the load and
  the store it holds the value it read. The shared counter is \<open>total_errors\<close> of the server.
\<close>

record counting =
  to_count :: nat
  loaded :: "u64 option"

type_synonym counters = "counting list \<times> NtpServer"

definition store_errors :: "u64 \<Rightarrow> NtpServer \<Rightarrow> NtpServer" where
  "store_errors v = upd_stats (\<lambda>st. st\<lparr>total_errors := v + 1\<rparr>)"

inductive count_step :: "counters \<Rightarrow> counters \<Rightarrow> bool" where
  loads: "j < length ts \<Longrightarrow> ts ! j = \<lparr>to_count = Suc k, loaded = None\<rparr> \<Longrightarrow>
     count_step (ts, srv)
       (ts[j := \<lparr>to_count = Suc k, loaded = Some (total_errors (server_stats srv))\<rparr>], srv)"
| stores: "j < length ts \<Longrightarrow> ts ! j = \<lparr>to_count = Suc k, loaded = Some v\<rparr> \<Longrightarrow>
     count_step (ts, srv) (ts[j := \<lparr>to_count = k, loaded = None\<rparr>], store_errors v srv)"

inductive_cases count_stepE: "count_step p p'"

abbreviation counts_to :: "counters \<Rightarrow> counters \<Rightarrow> bool" where
  "counts_to \<equiv> count_step\<^sup>*\<^sup>*"

lemma store_loaded: "store_errors (total_errors (server_stats srv)) srv = count_error srv"
  by (simp add: store_errors_def count_error_def upd_stats_def)

lemma store_errors_simps [simp]:
  "total_errors (server_stats (store_errors v srv)) = v + 1"
  "store_errors v (store_errors w srv) = store_errors v srv"
  by (simp_all add: store_errors_def upd_stats_def)

definition outstanding :: "counting list \<Rightarrow> nat" where
  "outstanding ts = sum_list (map to_count ts)"

text \<open>No value that is in the counter or held by a worker exceeds what has been counted.\<close>

definition count_inv :: "nat \<Rightarrow> counters \<Rightarrow> bool" where
  "count_inv most p \<longleftrightarrow>
     unat (total_errors (server_stats (snd p))) + outstanding (fst p) \<le> most \<and>
     (\<forall>t \<in> set (fst p). \<forall>v. loaded t = Some v \<longrightarrow> unat v + outstanding (fst p) \<le> most)"

lemma outstanding_update:
  assumes "j < length ts"
  shows "outstanding (ts[j := t]) + to_count (ts ! j) = outstanding ts + to_count t"
  using assms unfolding outstanding_def
proof (induction ts arbitrary: j)
  case (Cons a ts)
  show ?case
  proof (cases j)
    case (Suc i)
    with Cons.IH [of i] Cons.prems show ?thesis by simp
  qed simp
qed simp

lemma count_step_inv:
  assumes "count_step p p'" "count_inv most p" "most < 2 ^ 64"
  shows "count_inv most p'"
  using assms(1)
proof cases
  case (loads j ts k srv)
  have "outstanding (ts[j := \<lparr>to_count = Suc k, loaded = Some (total_errors (server_stats srv))\<rparr>]) =
      outstanding ts"
    using outstanding_update [of j ts "\<lparr>to_count = Suc k, loaded = Some (total_errors (server_stats srv))\<rparr>"]
      loads by simp
  with loads assms(2) show ?thesis
    by (auto simp: count_inv_def dest!: set_update_subset_insert [THEN subsetD])
next
  case (stores j ts k v srv)
  have o: "outstanding (ts[j := \<lparr>to_count = k, loaded = None\<rparr>]) + 1 = outstanding ts"
    using outstanding_update [of j ts "\<lparr>to_count = k, loaded = None\<rparr>"] stores by simp
  have "unat v + outstanding ts \<le> most"
    using assms(2) stores nth_mem [of j ts] by (auto simp: count_inv_def)
  with o assms(3) have "unat (v + 1) + outstanding (ts[j := \<lparr>to_count = k, loaded = None\<rparr>]) \<le> most"
    by (subst unat_inc) auto
  with stores o assms(2) show ?thesis
    by (fastforce simp: count_inv_def dest!: set_update_subset_insert [THEN subsetD])
qed

lemma counts_to_inv:
  "counts_to p p' \<Longrightarrow> count_inv most p \<Longrightarrow> most < 2 ^ 64 \<Longrightarrow> count_inv most p'"
  by (induction rule: rtranclp_induct) (auto intro: count_step_inv)

text \<open>Every worker loads before any of them stores: the counter is one further at the end.\<close>

lemma all_load:
  assumes "e = total_errors (server_stats srv)"
  shows "counts_to (replicate i \<lparr>to_count = 1, loaded = Some e\<rparr> @ replicate k \<lparr>to_count = 1, loaded = None\<rparr>, srv)
    (replicate (i + k) \<lparr>to_count = 1, loaded = Some e\<rparr>, srv)"
proof (induction k arbitrary: i)
  case (Suc k)
  let ?l = "\<lparr>to_count = 1, loaded = Some e\<rparr>" and ?n = "\<lparr>to_count = 1, loaded = None\<rparr>"
  have "count_step (replicate i ?l @ replicate (Suc k) ?n, srv)
      ((replicate i ?l @ replicate (Suc k) ?n)[i := \<lparr>to_count = Suc 0, loaded = Some e\<rparr>], srv)"
    unfolding assms by (intro loads) (simp_all add: nth_append)
  then have "count_step (replicate i ?l @ replicate (Suc k) ?n, srv)
      (replicate (Suc i) ?l @ replicate k ?n, srv)"
    by (simp add: list_update_append replicate_app_Cons_same)
  with Suc [of "Suc i"] show ?case by (simp add: converse_rtranclp_into_rtranclp)
qed simp

lemma all_store:
  "counts_to (replicate i \<lparr>to_count = 0, loaded = None\<rparr> @ replicate (Suc k) \<lparr>to_count = 1, loaded = Some e\<rparr>, srv)
    (replicate (i + Suc k) \<lparr>to_count = 0, loaded = None\<rparr>, store_errors e srv)"
proof (induction k arbitrary: i srv)
  case 0
  let ?l = "\<lparr>to_count = 1, loaded = Some e\<rparr>" and ?d = "\<lparr>to_count = 0, loaded = None\<rparr>"
  have "count_step (replicate i ?d @ [?l], srv) ((replicate i ?d @ [?l])[i := ?d], store_errors e srv)"
    by (intro stores [where k = 0]) (simp_all add: nth_append)
  then show ?case by (simp add: list_update_append replicate_append_same r_into_rtranclp)
next
  case (Suc k)
  let ?l = "\<lparr>to_count = 1, loaded = Some e\<rparr>" and ?d = "\<lparr>to_count = 0, loaded = None\<rparr>"
  have "count_step (replicate i ?d @ replicate (Suc (Suc k)) ?l, srv)
      ((replicate i ?d @ replicate (Suc (Suc k)) ?l)[i := ?d], store_errors e srv)"
    by (intro stores [where k = 0]) (simp_all add: nth_append)
  then have "count_step (replicate i ?d @ replicate (Suc (Suc k)) ?l, srv)
      (replicate (Suc i) ?d @ replicate (Suc k) ?l, store_errors e srv)"
    by (simp add: list_update_append replicate_app_Cons_same)
  with Suc [of "Suc i" "store_errors e srv"] show ?case
    by (simp add: converse_rtranclp_into_rtranclp)
qed

text \<open>
  C37. The error counter under any interleaving of workers that each still have some errors to
  count and hold nothing: it never shows more than has been counted, and as soon as there is an
  error to count for \<open>n\<close> workers each, it may end up one higher instead of \<open>n\<close> higher, as after a
  single \<open>count_error\<close>.
\<close>

theorem lost_updates:
  assumes "counts_to (map (\<lambda>k. \<lparr>to_count = k, loaded = None\<rparr>) ks, srv) (ts, srv')"
    "unat (total_errors (server_stats srv)) + sum_list ks < 2 ^ 64"
  shows "unat (total_errors (server_stats srv')) + outstanding ts \<le>
      unat (total_errors (server_stats srv)) + sum_list ks \<and>
    (n > 0 \<longrightarrow> counts_to (replicate n \<lparr>to_count = 1, loaded = None\<rparr>, srv)
       (replicate n \<lparr>to_count = 0, loaded = None\<rparr>, count_error srv))"
proof -
  let ?most = "unat (total_errors (server_stats srv)) + sum_list ks"
  have "count_inv ?most (map (\<lambda>k. \<lparr>to_count = k, loaded = None\<rparr>) ks, srv)"
    by (auto simp: count_inv_def outstanding_def comp_def)
  with counts_to_inv [OF assms(1) _ assms(2)] have "count_inv ?most (ts, srv')" by blast
  then have bound: "unat (total_errors (server_stats srv')) + outstanding ts \<le> ?most"
    by (simp add: count_inv_def)
  have "counts_to (replicate n \<lparr>to_count = 1, loaded = None\<rparr>, srv)
      (replicate n \<lparr>to_count = 0, loaded = None\<rparr>, count_error srv)" if pos: "n > 0"
  proof -
    obtain k where n: "n = Suc k" using pos gr0_implies_Suc by blast
    let ?e = "total_errors (server_stats srv)"
    have load: "counts_to (replicate n \<lparr>to_count = 1, loaded = None\<rparr>, srv)
        (replicate n \<lparr>to_count = 1, loaded = Some ?e\<rparr>, srv)"
      using all_load [OF refl, where i = 0 and k = n and srv = srv] unfolding replicate_0 append_Nil add_0 .
    have store: "counts_to (replicate n \<lparr>to_count = 1, loaded = Some ?e\<rparr>, srv)
        (replicate n \<lparr>to_count = 0, loaded = None\<rparr>, count_error srv)"
      using all_store [of 0 k ?e srv] unfolding n store_loaded replicate_0 append_Nil add_0 .
    from load store show ?thesis by (rule rtranclp_trans)
  qed
  with bound show ?thesis by simp
qed

theorem lost_updates_witness:
  "counts_to (replicate 3 \<lparr>to_count = 1, loaded = None\<rparr>, healing_server)
     (replicate 3 \<lparr>to_count = 0, loaded = None\<rparr>, count_error healing_server)
   \<and> total_errors (server_stats (count_error healing_server)) = 1"
proof -
  have zero: "total_errors (server_stats healing_server) = 0"
    by (simp add: healing_server_def NtpServer_init_def NtpServerStats_init_def)
  have run: "counts_to (map (\<lambda>k. \<lparr>to_count = k, loaded = None\<rparr>) [], healing_server) ([], healing_server)"
    by simp
  have "counts_to (replicate 3 \<lparr>to_count = 1, loaded = None\<rparr>, healing_server)
     (replicate 3 \<lparr>to_count = 0, loaded = None\<rparr>, count_error healing_server)"
    using lost_updates [OF run, of 3] zero by simp
  with zero show ?thesis by (simp add: count_error_def upd_stats_def)
qed

end
