(* ===== verification/Lifecycle.thy ===== *)
theory Lifecycle
  imports Daemon
begin

text \<open>
  The running daemon: the main loop and the signal handlers of \<open>src/main/production.cpp\<close> together
  with what the threads of the server do meanwhile. One event is one signal, one test of the main
  loop, one round of a worker, of the configuration watcher or of the upstream synchronisation, or a
  change of a file by somebody else; any sequence of events is a schedule.

  \<^item> The synchronisation thread keeps the configuration pointer it was created with.
  \<^item> An exception that leaves a worker thread ends the process (\<open>std::terminate\<close>).
  \<^item> A handler is one event. What it meets when it interrupts a thread that holds a lock, or joins
    the thread it runs on, is in \<open>SignalContext\<close>.
\<close>

section \<open>State and events\<close>

datatype daemon_exit = Exit_status int | Terminated cpp_exn

record daemon =
  d_server :: NtpServer
  d_files :: files
  d_shutdown :: bool
  d_sync_config :: nat
  d_sent :: "u8 list list"
  d_exit :: "daemon_exit option"

definition daemon_init :: "NtpServer \<Rightarrow> files \<Rightarrow> daemon" where
  "daemon_init srv fs = \<lparr>d_server = srv, d_files = fs, d_shutdown = False,
     d_sync_config = config_ptr srv, d_sent = [], d_exit = None\<rparr>"

datatype daemon_event =
    Terminate_signal
  | Hangup_signal "string \<Rightarrow> string option"
  | Main_loop
  | Worker_round "recv_event list"
  | Watch_round "int option" "string \<Rightarrow> string option"
  | Sync_round "nat \<Rightarrow> query_env" time_point
  | File_change string "string option"

definition stop_daemon :: "(string \<Rightarrow> bool) \<Rightarrow> daemon \<Rightarrow> daemon" where
  "stop_daemon writable d =
     (let (srv, fs) = server_stop writable (d_server d, d_files d)
      in d\<lparr>d_server := srv, d_files := fs\<rparr>)"

definition signalHandler :: "(string \<Rightarrow> bool) \<Rightarrow> daemon \<Rightarrow> daemon" where
  "signalHandler writable d =
     (if d_shutdown d then d\<lparr>d_exit := Some (Exit_status 1)\<rparr>
      else stop_daemon writable (d\<lparr>d_shutdown := True\<rparr>))"

definition hangupHandler :: "(string \<Rightarrow> string option) \<Rightarrow> daemon \<Rightarrow> daemon" where
  "hangupHandler env d = d\<lparr>d_server := snd (reloadConfig (d_files d) env (d_server d))\<rparr>"

text \<open>One test of \<open>while (isRunning() && !g_shutdown_requested)\<close> and what follows the loop.\<close>

definition main_loop :: "(string \<Rightarrow> bool) \<Rightarrow> daemon \<Rightarrow> daemon" where
  "main_loop writable d =
     (if running (d_server d) \<and> \<not> d_shutdown d then d
      else (stop_daemon writable d)\<lparr>d_exit := Some (Exit_status 0)\<rparr>)"

definition worker_event :: "recv_event list \<Rightarrow> daemon \<Rightarrow> daemon" where
  "worker_event evs d =
     (if \<not> workers_running (d_server d) then d
      else (case worker_round evs (d_server d) of
              Inl x \<Rightarrow> d\<lparr>d_exit := Some (Terminated x)\<rparr>
            | Inr (replies, srv) \<Rightarrow> d\<lparr>d_server := srv, d_sent := d_sent d @ replies\<rparr>))"

definition watch_event :: "int option \<Rightarrow> (string \<Rightarrow> string option) \<Rightarrow> daemon \<Rightarrow> daemon" where
  "watch_event t env d =
     (if \<not> config_watch_running (d_server d) then d
      else d\<lparr>d_server := watch_round t (d_files d) env (d_server d)\<rparr>)"

definition sync_event :: "(nat \<Rightarrow> query_env) \<Rightarrow> time_point \<Rightarrow> daemon \<Rightarrow> daemon" where
  "sync_event envs now d =
     (case upstream_sync (d_server d) of
        None \<Rightarrow> d
      | Some m \<Rightarrow>
          if \<not> sync_running m then d
          else d\<lparr>d_server := (d_server d)\<lparr>upstream_sync :=
                 Some (snd (syncOnce envs now (deref (configs (d_server d)) (d_sync_config d)) m))\<rparr>\<rparr>)"

definition daemon_step :: "(string \<Rightarrow> bool) \<Rightarrow> daemon_event \<Rightarrow> daemon \<Rightarrow> daemon" where
  "daemon_step writable ev d =
     (if d_exit d \<noteq> None then d
      else (case ev of
              Terminate_signal \<Rightarrow> signalHandler writable d
            | Hangup_signal env \<Rightarrow> hangupHandler env d
            | Main_loop \<Rightarrow> main_loop writable d
            | Worker_round evs \<Rightarrow> worker_event evs d
            | Watch_round t env \<Rightarrow> watch_event t env d
            | Sync_round envs now \<Rightarrow> sync_event envs now d
            | File_change name content \<Rightarrow> d\<lparr>d_files := (d_files d)(name := content)\<rparr>))"

definition daemon_run :: "(string \<Rightarrow> bool) \<Rightarrow> daemon_event list \<Rightarrow> daemon \<Rightarrow> daemon" where
  "daemon_run writable = fold (daemon_step writable)"

text \<open>A one-shot command: its report, then the stop and the exit.\<close>

definition run_command ::
    "(u64 \<Rightarrow> int \<Rightarrow> string) \<Rightarrow> resource_usage option \<Rightarrow> int \<Rightarrow> (string \<Rightarrow> string option) \<Rightarrow>
     (string \<Rightarrow> bool) \<Rightarrow> string \<Rightarrow> daemon \<Rightarrow> string \<times> daemon" where
  "run_command show_throughput usage now env writable command d =
     (case one_shot show_throughput usage now (d_files d) env command (d_server d) of
        None \<Rightarrow> ([], d)
      | Some (report, srv) \<Rightarrow>
          (report, (stop_daemon writable (d\<lparr>d_server := srv\<rparr>))\<lparr>d_exit := Some (Exit_status 0)\<rparr>))"

section \<open>What every step keeps\<close>

lemma server_stop_stopped:
  "server_stop writable (srv, fs) = (if running srv then server_stop writable (srv, fs) else (srv, fs))"
  by (simp add: server_stop_def)

lemma server_stop_inv:
  assumes "server_inv srv"
  shows "server_inv (fst (server_stop writable (srv, fs)))"
proof (cases "running srv")
  case True
  let ?srv = "stopConfigWatcher (stopWorkerThreads (srv\<lparr>running := False, upstream_sync := None\<rparr>))"
  have "server_inv ?srv"
    by (rule server_inv_cong [OF assms]) (simp_all add: stopConfigWatcher_def stopWorkerThreads_def)
  from cleanup_inv(1) [OF this] have "server_inv (closeSocket (cleanupConnections ?srv))"
    by (rule server_inv_cong) simp_all
  with True show ?thesis by (simp add: server_stop_def Let_def)
next
  case False
  with assms show ?thesis by (simp add: server_stop_def)
qed

lemma watch_round_inv:
  assumes "server_inv srv"
  shows "server_inv (watch_round t fs env srv)"
proof -
  have "server_inv (srv\<lparr>config_mtime := m\<rparr>)" for m
    by (rule server_inv_cong [OF assms]) simp_all
  then show ?thesis
    using assms reload_inv [where fs = fs and env = env]
    by (auto simp: watch_round_def split: option.split) (metis prod.collapse)
qed

text \<open>The invariant of the daemon: that of its server, and all it ever sent was well formed.\<close>

definition daemon_inv :: "daemon \<Rightarrow> bool" where
  "daemon_inv d \<longleftrightarrow> server_inv (d_server d) \<and> (\<forall>r \<in> set (d_sent d). valid_reply r)"

lemma stop_daemon_fields [simp]:
  "d_server (stop_daemon writable d) = fst (server_stop writable (d_server d, d_files d))"
  "d_files (stop_daemon writable d) = snd (server_stop writable (d_server d, d_files d))"
  "d_shutdown (stop_daemon writable d) = d_shutdown d"
  "d_sent (stop_daemon writable d) = d_sent d"
  "d_exit (stop_daemon writable d) = d_exit d"
  by (simp_all add: stop_daemon_def case_prod_beta)

lemma worker_event_inv: "daemon_inv d \<Longrightarrow> daemon_inv (worker_event evs d)"
  using worker_round_inv [of "d_server d" evs]
  by (auto simp: worker_event_def daemon_inv_def split: sum.split)

lemma sync_event_inv: "daemon_inv d \<Longrightarrow> daemon_inv (sync_event envs now d)"
  by (auto simp: sync_event_def daemon_inv_def split: option.split
      intro: server_inv_cong [where srv = "d_server d"])

lemma daemon_step_inv: "daemon_inv d \<Longrightarrow> daemon_inv (daemon_step writable ev d)"
  using server_stop_inv [of "d_server d" writable "d_files d"] worker_event_inv [of d] sync_event_inv [of d]
    watch_round_inv [of "d_server d"] reload_inv [of "d_server d" "d_files d"]
  by (cases ev)
     (auto simp: daemon_step_def signalHandler_def main_loop_def hangupHandler_def watch_event_def
        daemon_inv_def, metis prod.collapse)

lemma daemon_run_inv: "daemon_inv d \<Longrightarrow> daemon_inv (daemon_run writable evs d)"
  unfolding daemon_run_def by (induction evs arbitrary: d) (simp_all add: daemon_step_inv)

section \<open>Shutting down\<close>

text \<open>After the first termination signal: everything is stopped, and stays so.\<close>

definition shut_down :: "NtpServer \<Rightarrow> bool" where
  "shut_down srv \<longleftrightarrow> \<not> running srv \<and> \<not> workers_running srv \<and> \<not> config_watch_running srv
   \<and> worker_count srv = 0 \<and> upstream_sync srv = None \<and> server_socket srv = INVALID_SOCKET"

lemma server_stop_shut_down:
  "running srv \<Longrightarrow> shut_down (fst (server_stop writable (srv, fs)))"
  by (simp add: server_stop_def Let_def shut_down_def stopWorkerThreads_def stopConfigWatcher_def
      cleanupConnections_def upd_stats_def closeSocket_def)

lemma shut_down_reload: "shut_down srv \<Longrightarrow> shut_down (snd (reloadConfig fs env srv))"
  by (auto simp: reloadConfig_def shut_down_def Let_def split: option.split prod.split)

definition ends :: "daemon_event \<Rightarrow> bool" where
  "ends ev \<longleftrightarrow> (case ev of Terminate_signal \<Rightarrow> True | Main_loop \<Rightarrow> True | _ \<Rightarrow> False)"

definition ending_status :: "daemon_event \<Rightarrow> int" where
  "ending_status ev = (case ev of Terminate_signal \<Rightarrow> 1 | _ \<Rightarrow> 0)"

lemma shutting_down_step:
  assumes "shut_down (d_server d)" and "d_shutdown d" and "d_exit d = None"
  shows "d_sent (daemon_step writable ev d) = d_sent d
    \<and> shut_down (d_server (daemon_step writable ev d)) \<and> d_shutdown (daemon_step writable ev d)
    \<and> d_exit (daemon_step writable ev d) =
        (if ends ev then Some (Exit_status (ending_status ev)) else None)
    \<and> ((\<forall>name content. ev \<noteq> File_change name content) \<longrightarrow>
        d_files (daemon_step writable ev d) = d_files d)"
proof -
  have stop: "server_stop writable (d_server d, fs) = (d_server d, fs)" for fs
    using assms(1) by (simp add: server_stop_def shut_down_def)
  show ?thesis
    using assms shut_down_reload [OF assms(1)]
    by (cases ev)
       (simp_all add: daemon_step_def signalHandler_def main_loop_def hangupHandler_def
          watch_event_def worker_event_def sync_event_def ends_def ending_status_def stop,
        auto simp: shut_down_def)
qed

lemma exited_step: "d_exit d \<noteq> None \<Longrightarrow> daemon_run writable evs d = d"
  unfolding daemon_run_def by (induction evs) (auto simp: daemon_step_def)

lemma shutting_down_run:
  assumes "shut_down (d_server d)" and "d_shutdown d" and "d_exit d = None"
  shows "d_sent (daemon_run writable evs d) = d_sent d \<and> shut_down (d_server (daemon_run writable evs d))
    \<and> d_exit (daemon_run writable evs d) =
        map_option (\<lambda>ev. Exit_status (ending_status ev)) (List.find ends evs)
    \<and> ((\<forall>name content. File_change name content \<notin> set evs) \<longrightarrow>
        d_files (daemon_run writable evs d) = d_files d)"
  using assms
proof (induction evs arbitrary: d)
  case Nil
  then show ?case by (simp add: daemon_run_def)
next
  case (Cons ev evs)
  let ?d = "daemon_step writable ev d"
  note step = shutting_down_step [OF Cons.prems, of writable ev]
  have run: "daemon_run writable (ev # evs) d = daemon_run writable evs ?d"
    by (simp add: daemon_run_def)
  show ?case
  proof (cases "ends ev")
    case True
    with step have "daemon_run writable evs ?d = ?d" by (intro exited_step) simp
    with step True run show ?thesis by auto
  next
    case False
    with step have "d_exit ?d = None" by simp
    with Cons.IH [of ?d] step False run show ?thesis by auto
  qed
qed

section \<open>Properties\<close>

text \<open>
  C7. However the daemon was started, and whatever signals, datagrams, clock readings, upstream
  answers, file changes and thread schedules follow: the server's invariant holds in every state, and
  every datagram ever sent is a valid server packet of 48 bytes.
\<close>
theorem daemon_safe:
  assumes "main_start fs env senv args = Inr (command, srv)"
    and "d = daemon_run writable evs (daemon_init srv fs)"
  shows "server_inv (d_server d) \<and> (\<forall>r \<in> set (d_sent d). valid_reply r)"
proof -
  have "server_inv srv" using main_start_inv [OF assms(1)] by blast
  then have "daemon_inv (daemon_init srv fs)" by (simp add: daemon_inv_def daemon_init_def)
  from daemon_run_inv [OF this] show ?thesis by (simp add: assms(2) daemon_inv_def)
qed

theorem daemon_safe_witness:
  "\<exists>srv. main_start Map.empty (\<lambda>_. None) example_start [''--port'', ''0''] = Inr (''start'', srv)
     \<and> server_inv (d_server (daemon_run (\<lambda>_. True) [Worker_round [], Terminate_signal, Main_loop]
         (daemon_init srv Map.empty)))"
proof -
  obtain srv where m: "main_start Map.empty (\<lambda>_. None) example_start [''--port'', ''0''] =
      Inr (''start'', srv)"
    by (rule main_start_port_zero [OF example_start_ok])
  from daemon_safe [OF m refl] m show ?thesis by blast
qed



end
