(* ===== verification/Console.thy ===== *)
theory Console
  imports Lifecycle
begin

text \<open>
  What \<open>src/main/production.cpp\<close> prints on its console: the help and version texts, the message of
  every early exit of \<open>parseCommandLine\<close>, and the signals whose handlers \<open>main\<close> installs. The
  help text is checked against the parser: the options it lists are the options that are accepted.
\<close>

section \<open>Help and version\<close>

definition usage_lines :: "string list" where
  "usage_lines = [
     '''',
     ''Usage: simple-ntpd [OPTIONS] [COMMAND] [ARGS...]'',
     '''',
     ''Options:'',
     ''  --help, -h           Show this help message'',
     ''  --version, -v        Show version information'',
     ''  --config, -c FILE    Use specified configuration file'',
     ''  --verbose, -V        Enable verbose logging'',
     ''  --daemon, -d         Run as daemon'',
     ''  --foreground, -f     Run in foreground'',
     ''  --test-config        Test configuration file'',
     ''  --validate           Validate configuration'',
     ''  --listen ADDR        Listen on specific address'',
     ''  --port PORT          Listen on specific port'',
     ''  --stratum LEVEL      Set stratum level (1-15)'',
     ''  --reference-id ID    Set reference identifier'',
     '''',
     ''Commands:'',
     ''  start                Start the NTP server'',
     ''  stop                 Stop the NTP server'',
     ''  restart              Restart the NTP server'',
     ''  status               Show server status'',
     ''  reload               Reload configuration'',
     ''  metrics              Print Prometheus metrics'',
     ''  health               Run health checks'',
     ''  test                 Test server configuration'',
     ''  stats                Show server statistics'',
     ''  connections          List active connections'',
     '''',
     ''Examples:'',
     ''  simple-ntpd start --config /etc/simple-ntpd/config.conf'',
     ''  simple-ntpd start --listen 0.0.0.0 --port 123 --stratum 2'',
     ''  simple-ntpd --daemon start'',
     ''  simple-ntpd status'']"

definition printUsage :: string where
  "printUsage = concat (map line usage_lines)"

definition printVersion :: string where
  "printVersion =
     line ''simple-ntpd v1.0.0'' @
     line ''Simple NTP Daemon for Linux, macOS, and Windows'' @
     line ''Copyright (c) 2024 BLBurns <contact@blburns.com>'' @
     line ''Licensed under Apache License 2.0''"

section \<open>Early exits\<close>

datatype stream = Cout | Cerr

definition requires :: "string \<Rightarrow> string" where
  "requires arg =
     (if arg = ''--config'' \<or> arg = ''-c'' then ''Error: --config requires a file path''
      else if arg = ''--listen'' then ''Error: --listen requires an address''
      else if arg = ''--port'' then ''Error: --port requires a port number''
      else if arg = ''--stratum'' then ''Error: --stratum requires a level''
      else ''Error: --reference-id requires an identifier'')"

text \<open>The stream and the text of each exit, in the order they are written.\<close>

fun exit_output :: "cli_exit \<Rightarrow> (stream \<times> string) list" where
  "exit_output Help = [(Cout, printUsage)]"
| "exit_output Version = [(Cout, printVersion)]"
| "exit_output (Load_failed name) =
     [(Cerr, line (''Error: Failed to load configuration file: '' @ name))]"
| "exit_output (Argument_missing arg) = [(Cerr, line (requires arg))]"
| "exit_output (Invalid_port v) = [(Cerr, line (''Error: Invalid port number: '' @ v))]"
| "exit_output Stratum_out_of_range =
     [(Cerr, line ''Error: Stratum must be between 1 and 15'')]"
| "exit_output (Invalid_stratum v) = [(Cerr, line (''Error: Invalid stratum level: '' @ v))]"
| "exit_output Config_valid = [(Cout, line ''Configuration is valid'')]"
| "exit_output Config_invalid = [(Cerr, line ''Configuration validation failed'')]"
| "exit_output (Unknown_option arg) =
     [(Cerr, line (''Error: Unknown option: '' @ arg)), (Cout, printUsage)]"
| "exit_output (Unknown_command c) =
     [(Cerr, line (''Error: Unknown command: '' @ c)), (Cout, printUsage)]"
| "exit_output (Needs_running_daemon c) =
     [(Cout, line ((if c = ''stop'' then ''Stop'' else ''Restart'') @
        '' requires a running daemon instance (use service manager)''))]"
| "exit_output Test_passed = [(Cout, line ''Configuration test passed'')]"
| "exit_output Test_failed = [(Cerr, line ''Configuration test failed'')]"

text \<open>\<open>main\<close> returns 0 after any of them, also after those written to the error stream.\<close>

lemma exit_status:
  "parseCommandLine fs env args setDefaults = Inl e \<Longrightarrow> main_start fs env senv args = Inl 0"
  by (simp add: main_start_def)

section \<open>The help text and the parser\<close>

definition words :: "string \<Rightarrow> string list" where
  "words s = filter (\<lambda>w. w \<noteq> []) (concat (map (getlines CHR '' '') (getlines CHR '','' s)))"

text \<open>The words before the column of the explanations, for the lines that list an option.\<close>

definition listed_options :: "string list" where
  "listed_options = filter (\<lambda>w. hd w = CHR ''-'')
     (concat (map (\<lambda>l. words (take 22 l))
        (filter (\<lambda>l. take 3 l = ''  -'') usage_lines)))"

definition known_options :: "string list" where
  "known_options = [''--help'', ''-h'', ''--version'', ''-v'', ''--config'', ''-c'', ''--verbose'', ''-V'',
     ''--daemon'', ''-d'', ''--foreground'', ''-f'', ''--test-config'', ''--validate'', ''--listen'',
     ''--port'', ''--stratum'', ''--reference-id'']"

lemma listed_options_eq: "listed_options = known_options"
  by code_simp

lemma option_accepted:
  assumes "arg \<noteq> []" "hd arg = CHR ''-''"
  shows "takes_value arg \<or> plain_argument arg r \<noteq> Inl (Unknown_option arg) \<longleftrightarrow>
    arg \<in> set listed_options"
  using assms
  by (cases r) (auto simp: listed_options_eq known_options_def takes_value_def plain_argument_def)

text \<open>Likewise for the commands, which stand first on their lines, before the examples.\<close>

definition listed_commands :: "string list" where
  "listed_commands = map (\<lambda>l. hd (words (take 22 l)))
     (filter (\<lambda>l. take 2 l = ''  '' \<and> take 3 l \<noteq> ''  -'')
        (takeWhile (\<lambda>l. l \<noteq> ''Examples:'') usage_lines))"

lemma listed_commands_eq: "listed_commands = [''start'', ''stop'', ''restart'', ''status'', ''reload'',
    ''metrics'', ''health'', ''test'', ''stats'', ''connections'']"
  by code_simp

lemma command_accepted:
  assumes "c \<noteq> []" "hd c \<noteq> CHR ''-''"
  shows "parseCommandLine fs env [c] config \<noteq> Inl (Unknown_command c) \<longleftrightarrow> c \<in> set listed_commands"
proof -
  have ne: "hd s = CHR ''-'' \<Longrightarrow> c \<noteq> s" for s using assms(2) by blast
  have "\<not> takes_value c" by (simp add: takes_value_def ne)
  moreover have "plain_argument c ([], config) = Inr (c, config)"
    using assms(2) by (simp add: plain_argument_def ne)
  ultimately have "parseCommandLine fs env [c] config =
      (if runs_server c then Inr (c, config)
       else if c = ''stop'' \<or> c = ''restart'' then Inl (Needs_running_daemon c)
       else if c = ''test'' then Inl (if config_validate config then Test_passed else Test_failed)
       else Inl (Unknown_command c))"
    using assms(1) by (simp add: parseCommandLine_def)
  moreover have "c \<in> set listed_commands \<longleftrightarrow> runs_server c \<or> c = ''stop'' \<or> c = ''restart'' \<or> c = ''test''"
    by (simp add: listed_commands_eq runs_server_def disj_ac)
  ultimately show ?thesis by (simp split: if_split)
qed

section \<open>The other executables\<close>

text \<open>The entry points of the enterprise and the datacenter editions do nothing.\<close>

definition enterprise_main :: "string list \<Rightarrow> int" where
  "enterprise_main argv = 0"

definition datacenter_main :: "string list \<Rightarrow> int" where
  "datacenter_main argv = 0"

section \<open>Signals\<close>

datatype posix_signal = SIGINT | SIGTERM | SIGQUIT | SIGHUP

text \<open>The handler of each signal, as the event of the daemon's life it is.\<close>

fun initializeSignalHandlers :: "(string \<Rightarrow> string option) \<Rightarrow> posix_signal \<Rightarrow> daemon_event" where
  "initializeSignalHandlers env SIGINT = Terminate_signal"
| "initializeSignalHandlers env SIGTERM = Terminate_signal"
| "initializeSignalHandlers env SIGQUIT = Terminate_signal"
| "initializeSignalHandlers env SIGHUP = Hangup_signal env"

end
