(* ===== verification/Exchange.thy ===== *)
theory Exchange
  imports Server
begin

text \<open>
  Client and server together: a request of \<open>queryUpstreamServer\<close> handled by the packet handler of
  another daemon, and its reply taken in by the client.
\<close>

section \<open>The request\<close>

lemma client_request_wire: "in_wire_range (createClientRequest now)"
  by (simp add: in_wire_range_def createClientRequest_def NtpPacket_init_def NTP_VERSION_def)

lemma client_request_parsed:
  "parseFromData (serializeToData (createClientRequest now)) q = (True, createClientRequest now)"
  using parse_wire_range [OF client_request_wire, of now "[]" q] by simp

lemma client_request_accepted: "client_request_bytes (serializeToData (createClientRequest now))"
proof -
  have "48 \<le> length (serializeToData (createClientRequest now))" by simp
  moreover have "isValid (createClientRequest now)" "mode (createClientRequest now) = 3"
    by (simp_all add: isValid_iff createClientRequest_def NtpPacket_init_def NTP_VERSION_def)
  ultimately show ?thesis
    using parse_request(2) [of "serializeToData (createClientRequest now)"]
    by (simp only: client_request_parsed snd_conv NtpMode_value.simps simp_thms)
qed

section \<open>The server's corrected clock\<close>

definition clock_correction :: "NtpServer \<Rightarrow> int" where
  "clock_correction srv = (case upstream_sync srv of None \<Rightarrow> 0 | Some m \<Rightarrow> clockOffsetUs m)"

lemma corrected_time:
  assumes "first_era t" and "first_era (t + 1000 * us)"
  shows "0 \<le> t + 1000 * us - toSystemTime (shift_timestamp us (fromSystemTime t))"
    and "t + 1000 * us - toSystemTime (shift_timestamp us (fromSystemTime t)) \<le> 2000"
proof -
  let ?u = "toSystemTime (fromSystemTime t) + 1000 * us"
  have e: "0 \<le> t - toSystemTime (fromSystemTime t)" "t - toSystemTime (fromSystemTime t) \<le> 1000"
    using first_era_error [of t] assms(1) by (simp_all add: first_era_def)
  with assms(2) have "0 \<le> ?u" "?u < 2085978496000000000" by (auto simp: first_era_def)
  from first_era_error [OF this] e
  show "0 \<le> t + 1000 * us - toSystemTime (shift_timestamp us (fromSystemTime t))"
    and "t + 1000 * us - toSystemTime (shift_timestamp us (fromSystemTime t)) \<le> 2000"
    unfolding shift_timestamp_def by linarith+
qed

text \<open>The receive and transmit time of a reply, as instants of the corrected clock.\<close>

lemma corrected_reply:
  assumes "first_era rx" "first_era tx"
    and "first_era (rx + 1000 * clock_correction srv)" "first_era (tx + 1000 * clock_correction srv)"
    and "p = correct_clock (upstream_sync srv) (createServerResponse q st rid rx tx rf)"
  shows "0 \<le> rx + 1000 * clock_correction srv - toSystemTime (receive_ts p)"
    "rx + 1000 * clock_correction srv - toSystemTime (receive_ts p) \<le> 2000"
    "0 \<le> tx + 1000 * clock_correction srv - toSystemTime (transmit_ts p)"
    "tx + 1000 * clock_correction srv - toSystemTime (transmit_ts p) \<le> 2000"
proof -
  have plain: "0 \<le> t - toSystemTime (fromSystemTime t) \<and> t - toSystemTime (fromSystemTime t) \<le> 2000"
    if "first_era t" for t
    using first_era_error [of t] that by (auto simp: first_era_def)
  show "0 \<le> rx + 1000 * clock_correction srv - toSystemTime (receive_ts p)"
    "rx + 1000 * clock_correction srv - toSystemTime (receive_ts p) \<le> 2000"
    "0 \<le> tx + 1000 * clock_correction srv - toSystemTime (transmit_ts p)"
    "tx + 1000 * clock_correction srv - toSystemTime (transmit_ts p) \<le> 2000"
    using corrected_time [OF assms(1,3)] corrected_time [OF assms(2,4)] plain [OF assms(1)]
      plain [OF assms(2)]
    by (auto simp: assms(5) correct_clock_def clock_correction_def Let_def createServerResponse_fields
        split: option.splits)
qed

section \<open>What the client measures\<close>

text \<open>Measuring with instants that are each a little too early.\<close>

lemma measured_offset:
  assumes "T2 = T1 + d1 + theta" "T3 = T2 + p" "T4 = T1 + d1 + p + d2" "0 \<le> d1" "0 \<le> d2"
    and "0 \<le> T1 - toSystemTime t1" "T1 - toSystemTime t1 \<le> 1000"
    and "0 \<le> T2 - toSystemTime t2" "T2 - toSystemTime t2 \<le> 2000"
    and "0 \<le> T3 - toSystemTime t3" "T3 - toSystemTime t3 \<le> 2000"
    and "0 \<le> T4 - toSystemTime t4" "T4 - toSystemTime t4 \<le> 1000"
  shows "\<bar>1000 * calculateOffset t1 t2 t3 t4 - theta\<bar> \<le> (d1 + d2) div 2 + 3001"
    and "\<bar>1000 * calculateRoundTripDelay t1 t2 t3 t4 - (d1 + d2)\<bar> \<le> 4000"
proof -
  let ?x = "(toSystemTime t2 - toSystemTime t1) + (toSystemTime t3 - toSystemTime t4)"
  let ?d = "(toSystemTime t4 - toSystemTime t1) - (toSystemTime t3 - toSystemTime t2)"
  have x: "\<bar>?x - (2 * theta + d1 - d2)\<bar> \<le> 4000" and d: "\<bar>?d - (d1 + d2)\<bar> \<le> 3000"
    using assms by linarith+
  show "\<bar>1000 * calculateOffset t1 t2 t3 t4 - theta\<bar> \<le> (d1 + d2) div 2 + 3001"
    unfolding calculateOffset_def Let_def
    using x sdiv_error [of 2 ?x] sdiv_error [of 1000 "?x sdiv 2"] assms(4,5) by linarith
  show "\<bar>1000 * calculateRoundTripDelay t1 t2 t3 t4 - (d1 + d2)\<bar> \<le> 4000"
    unfolding calculateRoundTripDelay_def Let_def
    using d sdiv_error [of 1000 ?d] by linarith
qed

section \<open>Properties\<close>

text \<open>
  C4. A daemon that synchronises with another daemon measures its clock. The request it sends is one
  the other accepts; when that answers and the answer arrives, the query succeeds, takes over the
  stratum the server announces, and the offset it computes is the true difference \<open>theta\<close> of the
  server's corrected clock and the client's, up to half the network time and about three
  microseconds of rounding; the delay is the network time, up to four. All instants are in the first
  NTP era; \<open>d1\<close> and \<open>d2\<close> are the times on the network, \<open>p\<close> the time the server takes.
\<close>
theorem exchange_measures_clock:
  assumes inv: "server_inv srv"
    and request: "data = serializeToData (createClientRequest (request_time env))"
    and handled: "processPacket penv ip port data srv = Inr (Some r, srv')"
    and answer: "socket_ok env" "resolved env = Some res" "send_to_any 48 res" "reply env = Some r"
    and c: "c = 1000 * clock_correction srv"
    and era: "first_era (request_time env)" "first_era (reply_time env)" "first_era (rx_time penv)"
      "first_era (tx_time penv)" "first_era (rx_time penv + c)" "first_era (tx_time penv + c)"
    and times: "rx_time penv + c = request_time env + d1 + theta"
      "tx_time penv = rx_time penv + p" "reply_time env = request_time env + d1 + p + d2"
    and d: "0 \<le> d1" "0 \<le> d2"
    and result: "result = queryUpstreamServer env host"
  shows "client_request_bytes data \<and> success result \<and> result_stratum result = response_stratum srv
    \<and> \<bar>1000 * offset_us result - theta\<bar> \<le> (d1 + d2) div 2 + 3001
    \<and> \<bar>1000 * delay_us result - (d1 + d2)\<bar> \<le> 4000"
proof -
  define resp where "resp = reply_packet penv data srv"
  have r: "r = serializeToData resp" and fields: "isValid resp" "mode resp = 4" "in_wire_range resp"
      "stratum resp = response_stratum srv"
    using packet_reply_bytes [OF inv handled]
    by (simp_all add: resp_def reply_packet_def createServerResponse_fields)
  have "parseFromData (take 48 r) NtpPacket_init = (True, resp)"
    using parse_wire_range [OF fields(3), of "[]"] by (simp add: r)
  then have "answers env resp"
    using answer fields by (auto simp: answers_def r pred_option_def)
  note q = query_answered [OF this, of host]
  have plain: "0 \<le> t - toSystemTime (fromSystemTime t)" "t - toSystemTime (fromSystemTime t) \<le> 1000"
    if "first_era t" for t
    using first_era_error [of t] that by (auto simp: first_era_def)
  note m = measured_offset [OF times(1) _ times(3) d plain [OF era(1)]
      corrected_reply(1,2) [OF era(3,4) era(5,6) [unfolded c] resp_def [unfolded reply_packet_def], folded c]
      corrected_reply(3,4) [OF era(3,4) era(5,6) [unfolded c] resp_def [unfolded reply_packet_def], folded c]
      plain [OF era(2)]]
  have "tx_time penv + c = rx_time penv + c + p" using times(2) by simp
  from m [OF this] show ?thesis
    by (simp add: result q fields request client_request_accepted)
qed

lemma example_answers:
  assumes "client_request_bytes data"
  shows "\<exists>r srv'. processPacket (example_packet_env\<lparr>rx_time := a, tx_time := b\<rparr>) ''10.0.0.1'' 4000 data
    example_server = Inr (Some r, srv')"
  using assms
  by (simp add: processPacket_def isClientAllowed_def config_of_def deref_def example_server_def
      NtpServer_init_def setDefaults_def isRateLimitExceeded_def isDdosAnomaly_def
      getOrCreateConnection_def handle_datagram_def Let_def handlePacket_eq countRequest_def
      authentication_enabled_def answer_request_def parse_request(1) client_request_bytes_def
      case_prod_beta isActive_def setTrusted_def NtpConnection_init_def example_packet_env_def)

theorem exchange_measures_clock_witness:
  "\<exists>r srv'. processPacket
      (example_packet_env\<lparr>rx_time := 1700000005001000000, tx_time := 1700000005001100000\<rparr>)
      ''10.0.0.1'' 4000 (serializeToData (createClientRequest 1700000000000000000)) example_server
      = Inr (Some r, srv')
    \<and> \<bar>1000 * offset_us (queryUpstreamServer (example_env\<lparr>request_time := 1700000000000000000,
        reply := Some r, reply_time := 1700000000002100000\<rparr>) ''a'') - 5000000000\<bar> \<le> 1003001"
proof -
  let ?penv = "example_packet_env\<lparr>rx_time := 1700000005001000000, tx_time := 1700000005001100000\<rparr>"
  let ?data = "serializeToData (createClientRequest 1700000000000000000)"
  obtain r srv' where h: "processPacket ?penv ''10.0.0.1'' 4000 ?data example_server = Inr (Some r, srv')"
    using example_answers [OF client_request_accepted] by blast
  let ?env = "example_env\<lparr>request_time := 1700000000000000000, reply := Some r,
      reply_time := 1700000000002100000\<rparr>"
  have inv: "server_inv example_server"
    by (simp add: example_server_def server_inv_init setDefaults_def)
  have c: "clock_correction example_server = 0"
    by (simp add: clock_correction_def example_server_def NtpServer_init_def)
  have "\<bar>1000 * offset_us (queryUpstreamServer ?env ''a'') - 5000000000\<bar> \<le> 1003001"
    using exchange_measures_clock [OF inv _ h, of ?env "[(False, 0), (True, 48)]" 0 1000000 5000000000
        100000 1000000 "queryUpstreamServer ?env ''a''" "''a''"]
    by (simp add: c first_era_def example_env_def)
  with h show ?thesis by blast
qed

end
