(* ===== verification/WindowsService.thy ===== *)
theory WindowsService
  imports CppStd
begin

text \<open>
  The Windows service wrapper (\<open>src/deployment/windows/simple-ntpd-service.cpp\<close>).

  \<^item> The global variables of the file are the record \<open>service\<close>; every call of
    \<open>SetServiceStatus\<close> is kept in \<open>reported\<close>, in order: it is what the service control manager
    (SCM) is told.
  \<^item> The Windows calls are arguments: whether \<open>RegisterServiceCtrlHandler\<close> succeeds, the error of
    \<open>CreateEvent\<close>, the handles, the error codes and the answers of the SCM. Their constants have
    the documented values.
  \<^item> The functions are here as they run alone; the theory ServiceThreads interleaves the threads.
\<close>

section \<open>Constants of the Windows headers\<close>

definition SERVICE_STOPPED :: u32 where "SERVICE_STOPPED = 1"
definition SERVICE_START_PENDING :: u32 where "SERVICE_START_PENDING = 2"
definition SERVICE_STOP_PENDING :: u32 where "SERVICE_STOP_PENDING = 3"
definition SERVICE_RUNNING :: u32 where "SERVICE_RUNNING = 4"

definition SERVICE_CONTROL_STOP :: u32 where "SERVICE_CONTROL_STOP = 1"
definition SERVICE_CONTROL_INTERROGATE :: u32 where "SERVICE_CONTROL_INTERROGATE = 4"
definition SERVICE_ACCEPT_STOP :: u32 where "SERVICE_ACCEPT_STOP = 1"

definition SERVICE_WIN32_OWN_PROCESS :: u32 where "SERVICE_WIN32_OWN_PROCESS = 0x10"
definition NO_ERROR :: u32 where "NO_ERROR = 0"

definition SERVICE_STOP_ACCESS :: u32 where "SERVICE_STOP_ACCESS = 0x20"
definition DELETE_ACCESS :: u32 where "DELETE_ACCESS = 0x10000"

lemmas service_state_defs =
  SERVICE_STOPPED_def SERVICE_START_PENDING_def SERVICE_STOP_PENDING_def SERVICE_RUNNING_def

lemma service_states_distinct [simp]:
  "SERVICE_STOPPED \<noteq> SERVICE_START_PENDING" "SERVICE_STOPPED \<noteq> SERVICE_STOP_PENDING"
  "SERVICE_STOPPED \<noteq> SERVICE_RUNNING" "SERVICE_START_PENDING \<noteq> SERVICE_STOP_PENDING"
  "SERVICE_START_PENDING \<noteq> SERVICE_RUNNING" "SERVICE_STOP_PENDING \<noteq> SERVICE_RUNNING"
  "SERVICE_START_PENDING \<noteq> SERVICE_STOPPED" "SERVICE_STOP_PENDING \<noteq> SERVICE_STOPPED"
  "SERVICE_RUNNING \<noteq> SERVICE_STOPPED" "SERVICE_STOP_PENDING \<noteq> SERVICE_START_PENDING"
  "SERVICE_RUNNING \<noteq> SERVICE_START_PENDING" "SERVICE_RUNNING \<noteq> SERVICE_STOP_PENDING"
  by (simp_all add: service_state_defs)

section \<open>The state of the service\<close>

record service_status =
  dwServiceType :: u32
  dwCurrentState :: u32
  dwControlsAccepted :: u32
  dwWin32ExitCode :: u32
  dwServiceSpecificExitCode :: u32
  dwCheckPoint :: u32
  dwWaitHint :: u32

text \<open>
  \<open>g_StatusHandle\<close> and \<open>g_ServiceThread\<close> say whether the pointer is set; \<open>g_ServiceStopEvent\<close> is
  None while there is no event, and else whether the event is signalled. \<open>next_check_point\<close> is the
  static counter of \<open>ReportSvcStatus\<close>.
\<close>

record service =
  g_ServiceStatus :: service_status
  g_StatusHandle :: bool
  g_ServiceStopEvent :: "bool option"
  g_ServiceThread :: bool
  g_ServiceRunning :: bool
  next_check_point :: u32
  reported :: "service_status list"
  debug_output :: "string list"

definition service_init :: service where
  "service_init = \<lparr>g_ServiceStatus = \<lparr>dwServiceType = 0, dwCurrentState = 0,
       dwControlsAccepted = 0, dwWin32ExitCode = 0, dwServiceSpecificExitCode = 0,
       dwCheckPoint = 0, dwWaitHint = 0\<rparr>,
     g_StatusHandle = False, g_ServiceStopEvent = None, g_ServiceThread = False,
     g_ServiceRunning = False, next_check_point = 1, reported = [], debug_output = []\<rparr>"

definition ReportSvcStatus :: "u32 \<Rightarrow> u32 \<Rightarrow> u32 \<Rightarrow> service \<Rightarrow> service" where
  "ReportSvcStatus state exit_code wait_hint g =
     (let st = (g_ServiceStatus g)\<lparr>dwCurrentState := state, dwWin32ExitCode := exit_code,
            dwWaitHint := wait_hint,
            dwControlsAccepted :=
              (if state = SERVICE_START_PENDING then 0 else SERVICE_ACCEPT_STOP)\<rparr>;
          fixed = state = SERVICE_RUNNING \<or> state = SERVICE_STOPPED;
          st = st\<lparr>dwCheckPoint := (if fixed then 0 else next_check_point g)\<rparr>
      in g\<lparr>g_ServiceStatus := st,
           next_check_point := (if fixed then next_check_point g else next_check_point g + 1),
           reported := reported g @ [st]\<rparr>)"

definition StartNtpDaemon :: "service \<Rightarrow> service" where
  "StartNtpDaemon g = g\<lparr>debug_output := debug_output g @ [''Starting NTP daemon...\<newline>'']\<rparr>"

definition StopNtpDaemon :: "service \<Rightarrow> service" where
  "StopNtpDaemon g = g\<lparr>debug_output := debug_output g @ [''Stopping NTP daemon...\<newline>'']\<rparr>"

text \<open>\<open>SetEvent\<close> signals the manual-reset event; without an event the call fails.\<close>

definition SetEvent :: "service \<Rightarrow> service" where
  "SetEvent g = g\<lparr>g_ServiceStopEvent := map_option (\<lambda>_. True) (g_ServiceStopEvent g)\<rparr>"

section \<open>The service functions, run alone\<close>

text \<open>
  The results of the two calls of \<open>ServiceMain\<close> that can fail. While it waits for the stop event
  the other threads run: \<open>during\<close> is what they do to the globals until the event is signalled.
\<close>

record service_env =
  handler_registered :: bool
  event_error :: "u32 option"

definition ServiceMain :: "service_env \<Rightarrow> (service \<Rightarrow> service) \<Rightarrow> service \<Rightarrow> service" where
  "ServiceMain env during g =
     (let g = g\<lparr>g_StatusHandle := handler_registered env\<rparr> in
      if \<not> g_StatusHandle g then g
      else
        let g = g\<lparr>g_ServiceStatus := (g_ServiceStatus g)\<lparr>
              dwServiceType := SERVICE_WIN32_OWN_PROCESS, dwServiceSpecificExitCode := 0\<rparr>\<rparr>;
            g = ReportSvcStatus SERVICE_START_PENDING NO_ERROR 3000 g in
        case event_error env of
          Some e \<Rightarrow> ReportSvcStatus SERVICE_STOPPED e 0 (g\<lparr>g_ServiceStopEvent := None\<rparr>)
        | None \<Rightarrow>
            let g = g\<lparr>g_ServiceStopEvent := Some False\<rparr>;
                g = ReportSvcStatus SERVICE_RUNNING NO_ERROR 0 g;
                g = StartNtpDaemon g;
                g = g\<lparr>g_ServiceThread := True\<rparr>;
                g = during g;
                g = StopNtpDaemon g
            in ReportSvcStatus SERVICE_STOPPED NO_ERROR 0 g)"

definition ServiceCtrlHandler :: "u32 \<Rightarrow> service \<Rightarrow> service" where
  "ServiceCtrlHandler dwCtrl g =
     (let g = (if dwCtrl = SERVICE_CONTROL_STOP
               then (SetEvent (ReportSvcStatus SERVICE_STOP_PENDING NO_ERROR 0 g))
                      \<lparr>g_ServiceRunning := False\<rparr>
               else g)
      in ReportSvcStatus (dwCurrentState (g_ServiceStatus g)) NO_ERROR 0 g)"

section \<open>Installing and removing the service\<close>

text \<open>
  The answers of the SCM: a handle is a number, None a null handle. \<open>ControlService h c\<close> is the
  state of the service when the call succeeds, \<open>QueryServiceStatus h\<close> what the successive calls
  return. \<open>last_error\<close> is the error code of the call that failed; every path reads it at most once.
\<close>

record scm =
  GetModuleFileName :: "string option"
  OpenSCManager :: "nat option"
  CreateService :: "nat \<Rightarrow> string \<Rightarrow> nat option"
  OpenService :: "nat \<Rightarrow> u32 \<Rightarrow> nat option"
  ControlService :: "nat \<Rightarrow> u32 \<Rightarrow> u32 option"
  QueryServiceStatus :: "nat \<Rightarrow> u32 option list"
  DeleteService :: "nat \<Rightarrow> bool"
  last_error :: u32

record console =
  sc_handles :: "nat list"
  printed :: string

definition open_handle :: "nat \<Rightarrow> console \<Rightarrow> console" where
  "open_handle h c = c\<lparr>sc_handles := h # sc_handles c\<rparr>"

definition CloseServiceHandle :: "nat \<Rightarrow> console \<Rightarrow> console" where
  "CloseServiceHandle h c = c\<lparr>sc_handles := remove1 h (sc_handles c)\<rparr>"

definition tprint :: "string \<Rightarrow> console \<Rightarrow> console" where
  "tprint s c = c\<lparr>printed := printed c @ s\<rparr>"

definition tprint_error :: "string \<Rightarrow> scm \<Rightarrow> console \<Rightarrow> console" where
  "tprint_error what env c =
     tprint (what @ '' ('' @ to_string (sint (last_error env)) @ '')\<newline>'') c"

definition InstallService :: "scm \<Rightarrow> console \<Rightarrow> console" where
  "InstallService env c =
     (case GetModuleFileName env of
        None \<Rightarrow> tprint_error ''Cannot install service'' env c
      | Some szPath \<Rightarrow>
          (case OpenSCManager env of
             None \<Rightarrow> tprint_error ''OpenSCManager failed'' env c
           | Some schSCManager \<Rightarrow>
               let c = open_handle schSCManager c in
               (case CreateService env schSCManager szPath of
                  None \<Rightarrow> CloseServiceHandle schSCManager
                    (tprint_error ''CreateService failed'' env c)
                | Some schService \<Rightarrow>
                    let c = open_handle schService c;
                        c = tprint ''Service installed successfully\<newline>'' c;
                        c = CloseServiceHandle schService c
                    in CloseServiceHandle schSCManager c)))"

text \<open>
  The loop that waits for a pending stop to end: the last known state, and whether the loop ended
  within the answers given.
\<close>

fun wait_stopped :: "u32 option list \<Rightarrow> u32 \<Rightarrow> console \<Rightarrow> (u32 \<times> console) option" where
  "wait_stopped [] st c = None"
| "wait_stopped (None # answers) st c = Some (st, c)"
| "wait_stopped (Some st' # answers) st c =
     (if st' = SERVICE_STOP_PENDING then wait_stopped answers st' (tprint ''.'' c)
      else Some (st', c))"

definition stop_installed :: "scm \<Rightarrow> nat \<Rightarrow> console \<Rightarrow> console option" where
  "stop_installed env h c =
     (case ControlService env h SERVICE_CONTROL_STOP of
        None \<Rightarrow> Some c
      | Some st \<Rightarrow> map_option
          (\<lambda>(st, c). tprint (''\<newline>SimpleNtpd'' @
             (if st = SERVICE_STOPPED then '' stopped.\<newline>'' else '' failed to stop.\<newline>'')) c)
          (wait_stopped (QueryServiceStatus env h) st (tprint ''Stopping SimpleNtpd.'' c)))"

definition UninstallService :: "scm \<Rightarrow> console \<Rightarrow> console option" where
  "UninstallService env c =
     (case OpenSCManager env of
        None \<Rightarrow> Some (tprint_error ''OpenSCManager failed'' env c)
      | Some schSCManager \<Rightarrow>
          let c = open_handle schSCManager c in
          (case OpenService env schSCManager DELETE_ACCESS of
             None \<Rightarrow> Some (CloseServiceHandle schSCManager
                (tprint_error ''OpenService failed'' env c))
           | Some schService \<Rightarrow> map_option
               (\<lambda>c. let c = (if DeleteService env schService
                            then tprint ''Service removed successfully\<newline>'' c
                            else tprint_error ''DeleteService failed'' env c);
                        c = CloseServiceHandle schService c
                    in CloseServiceHandle schSCManager c)
               (stop_installed env schService (open_handle schService c))))"

text \<open>
  The program: \<open>lstrcmpi\<close> compares without regard to case, and \<open>dispatcher\<close> is
  \<open>StartServiceCtrlDispatcher\<close>, which returns when the service has stopped, or None when it fails.
\<close>

definition service_tmain ::
  "(string \<Rightarrow> string \<Rightarrow> int) \<Rightarrow> scm \<Rightarrow> (service \<Rightarrow> service option) \<Rightarrow> string list \<Rightarrow>
   service \<times> console \<Rightarrow> (int \<times> service \<times> console) option" where
  "service_tmain lstrcmpi env dispatcher argv = (\<lambda>(g, c).
     if length argv > 1 then
       if lstrcmpi (argv ! 1) ''install'' = 0 then Some (0, g, InstallService env c)
       else if lstrcmpi (argv ! 1) ''uninstall'' = 0 then
         map_option (\<lambda>c. (0, g, c)) (UninstallService env c)
       else if lstrcmpi (argv ! 1) ''run'' = 0 then
         (let c = tprint ''Running NTP daemon in console mode...\<newline>'' c;
              g = StartNtpDaemon g;
              c = tprint ''Press any key to stop...\<newline>'' c;
              g = StopNtpDaemon g
          in Some (0, g, c))
       else Some (1, g, tprint (''Usage: '' @ argv ! 0 @ '' [install|uninstall|run]\<newline>'' @
         ''  install   - Install the service\<newline>'' @
         ''  uninstall - Uninstall the service\<newline>'' @
         ''  run       - Run in console mode\<newline>'') c)
     else (case dispatcher g of
         None \<Rightarrow> Some (sint (last_error env), g, c)
       | Some g' \<Rightarrow> Some (0, g', c)))"

lemma console_simps [simp]:
  "sc_handles (tprint s c) = sc_handles c" "sc_handles (tprint_error w env c) = sc_handles c"
  "sc_handles (open_handle h c) = h # sc_handles c"
  "sc_handles (CloseServiceHandle h c) = remove1 h (sc_handles c)"
  "printed (open_handle h c) = printed c" "printed (CloseServiceHandle h c) = printed c"
  "printed (tprint s c) = printed c @ s"
  by (simp_all add: tprint_def tprint_error_def open_handle_def CloseServiceHandle_def)

lemma wait_stopped_handles:
  "wait_stopped answers st c = Some (st', c') \<Longrightarrow>
     sc_handles c' = sc_handles c \<and> (None \<notin> set answers \<longrightarrow> st' \<noteq> SERVICE_STOP_PENDING)"
  by (induction answers st c rule: wait_stopped.induct) (auto split: if_splits)

lemma wait_stopped_waits:
  "wait_stopped answers st c = None \<longleftrightarrow> (\<forall>a \<in> set answers. a = Some SERVICE_STOP_PENDING)"
  by (induction answers st c rule: wait_stopped.induct) auto

lemma InstallService_handles: "sc_handles (InstallService env c) = sc_handles c"
  by (simp add: InstallService_def Let_def split: option.splits)

lemma stop_installed_handles:
  "stop_installed env h c = Some c' \<Longrightarrow> sc_handles c' = sc_handles c"
  by (auto simp: stop_installed_def dest: wait_stopped_handles split: option.splits)

lemma UninstallService_handles:
  "UninstallService env c = Some c' \<Longrightarrow> sc_handles c' = sc_handles c"
  by (auto simp: UninstallService_def Let_def dest!: stop_installed_handles split: option.splits)

lemma service_tmain_handles:
  "service_tmain lstrcmpi env dispatcher argv (g, c) = Some (code, g', c') \<Longrightarrow>
     sc_handles c' = sc_handles c"
  by (auto simp: service_tmain_def Let_def InstallService_handles
      dest: UninstallService_handles split: if_splits option.splits)

text \<open>
  Removing the service does not return exactly when the SCM accepts the stop and then reports a
  pending stop for ever, here for all the answers given.
\<close>

lemma UninstallService_waits:
  "UninstallService env c = None \<longleftrightarrow>
     (\<exists>m h. OpenSCManager env = Some m \<and> OpenService env m DELETE_ACCESS = Some h \<and>
        ControlService env h SERVICE_CONTROL_STOP \<noteq> None \<and>
        (\<forall>a \<in> set (QueryServiceStatus env h). a = Some SERVICE_STOP_PENDING))"
  by (auto simp: UninstallService_def stop_installed_def Let_def wait_stopped_waits
      split: option.splits)

text \<open>
  Removing the service asks for the right to delete it only, so the SCM refuses the control that
  would stop it: the loop that waits for the stop is never entered, and nothing is said about it.
\<close>

lemma uninstall_never_stops:
  assumes denied: "\<And>m a h. OpenService env m a = Some h \<Longrightarrow> a AND SERVICE_STOP_ACCESS = 0 \<Longrightarrow>
      ControlService env h SERVICE_CONTROL_STOP = None"
    and opened: "OpenSCManager env = Some m" "OpenService env m DELETE_ACCESS = Some h"
  shows "UninstallService env c = Some (if DeleteService env h
      then tprint ''Service removed successfully\<newline>'' c
      else tprint_error ''DeleteService failed'' env c)"
proof -
  have "DELETE_ACCESS AND SERVICE_STOP_ACCESS = 0"
    by (simp add: DELETE_ACCESS_def SERVICE_STOP_ACCESS_def)
  with denied [OF opened(2)] have "ControlService env h SERVICE_CONTROL_STOP = None" by simp
  then show ?thesis
    by (simp add: UninstallService_def stop_installed_def opened Let_def open_handle_def
        CloseServiceHandle_def tprint_def tprint_error_def)
qed

end
