(* ===== verification/ServiceThreads.thy ===== *)
theory ServiceThreads
  imports WindowsService "HOL-Library.Sublist"
begin

text \<open>
  The threads of the Windows service: \<open>ServiceMain\<close>, the control handler, which the SCM calls, and
  the worker. \<open>service_step\<close> interleaves them, one statement or one call of \<open>ReportSvcStatus\<close> a step;
  that two calls of \<open>ReportSvcStatus\<close> can overlap is not modelled. The invariant describes what the
  SCM has been told at every point of every interleaving.
\<close>

section \<open>The three threads together\<close>

text \<open>
  Where each thread is. \<open>Main_no_event\<close> holds the error of \<open>CreateEvent\<close>, \<open>Handler_switch\<close> the
  control code, and \<open>Handler_report\<close> the state the handler read for its last call.
\<close>

datatype main_at = Main_register | Main_init | Main_create_event | Main_no_event u32
  | Main_running | Main_start | Main_spawn | Main_wait | Main_stop | Main_stopped | Main_done

datatype handler_at = Handler_idle | Handler_switch u32 | Handler_signal | Handler_clear
  | Handler_read | Handler_report u32

datatype worker_at = Worker_none | Worker_begin | Worker_test | Worker_wait | Worker_done

fun main_step :: "service_env \<Rightarrow> main_at \<Rightarrow> service \<Rightarrow> (main_at \<times> service) option" where
  "main_step env Main_register g =
     Some (if handler_registered env then Main_init else Main_done,
           g\<lparr>g_StatusHandle := handler_registered env\<rparr>)"
| "main_step env Main_init g =
     Some (Main_create_event, ReportSvcStatus SERVICE_START_PENDING NO_ERROR 3000
       (g\<lparr>g_ServiceStatus := (g_ServiceStatus g)\<lparr>
            dwServiceType := SERVICE_WIN32_OWN_PROCESS, dwServiceSpecificExitCode := 0\<rparr>\<rparr>))"
| "main_step env Main_create_event g = (case event_error env of
       Some e \<Rightarrow> Some (Main_no_event e, g\<lparr>g_ServiceStopEvent := None\<rparr>)
     | None \<Rightarrow> Some (Main_running, g\<lparr>g_ServiceStopEvent := Some False\<rparr>))"
| "main_step env (Main_no_event e) g = Some (Main_done, ReportSvcStatus SERVICE_STOPPED e 0 g)"
| "main_step env Main_running g =
     Some (Main_start, ReportSvcStatus SERVICE_RUNNING NO_ERROR 0 g)"
| "main_step env Main_start g = Some (Main_spawn, StartNtpDaemon g)"
| "main_step env Main_spawn g = Some (Main_wait, g\<lparr>g_ServiceThread := True\<rparr>)"
| "main_step env Main_wait g =
     (if g_ServiceStopEvent g = Some True then Some (Main_stop, g) else None)"
| "main_step env Main_stop g = Some (Main_stopped, StopNtpDaemon g)"
| "main_step env Main_stopped g = Some (Main_done, ReportSvcStatus SERVICE_STOPPED NO_ERROR 0 g)"
| "main_step env Main_done g = None"

fun handler_step :: "handler_at \<Rightarrow> service \<Rightarrow> (handler_at \<times> service) option" where
  "handler_step Handler_idle g = None"
| "handler_step (Handler_switch c) g =
     Some (if c = SERVICE_CONTROL_STOP
           then (Handler_signal, ReportSvcStatus SERVICE_STOP_PENDING NO_ERROR 0 g)
           else (Handler_read, g))"
| "handler_step Handler_signal g = Some (Handler_clear, SetEvent g)"
| "handler_step Handler_clear g = Some (Handler_read, g\<lparr>g_ServiceRunning := False\<rparr>)"
| "handler_step Handler_read g = Some (Handler_report (dwCurrentState (g_ServiceStatus g)), g)"
| "handler_step (Handler_report st) g = Some (Handler_idle, ReportSvcStatus st NO_ERROR 0 g)"

fun worker_step :: "worker_at \<Rightarrow> service \<Rightarrow> (worker_at \<times> service) option" where
  "worker_step Worker_none g = None"
| "worker_step Worker_begin g = Some (Worker_test, g\<lparr>g_ServiceRunning := True\<rparr>)"
| "worker_step Worker_test g =
     Some (if g_ServiceRunning g then Worker_wait else Worker_done, g)"
| "worker_step Worker_wait g =
     Some (if g_ServiceStopEvent g = Some True then Worker_done else Worker_test, g)"
| "worker_step Worker_done g = None"

record service_threads =
  main_thread :: main_at
  handler_thread :: handler_at
  worker_thread :: worker_at
  globals :: service

definition threads_init :: service_threads where
  "threads_init = \<lparr>main_thread = Main_register, handler_thread = Handler_idle,
     worker_thread = Worker_none, globals = service_init\<rparr>"

text \<open>
  The SCM runs one control at a time, and refuses one (\<open>ERROR_SERVICE_CANNOT_ACCEPT_CTRL\<close>,
  \<open>ERROR_SERVICE_NOT_ACTIVE\<close>) for a service whose last report is not a running one.
\<close>

definition control_accepted :: "service \<Rightarrow> bool" where
  "control_accepted g \<longleftrightarrow> reported g \<noteq> [] \<and> dwCurrentState (last (reported g)) = SERVICE_RUNNING"

inductive service_step :: "service_env \<Rightarrow> service_threads \<Rightarrow> service_threads \<Rightarrow> bool"
  for env :: service_env where
  main_moves: "main_step env (main_thread s) (globals s) = Some (m', g') \<Longrightarrow>
     service_step env s (s\<lparr>main_thread := m', globals := g',
       worker_thread := (if main_thread s = Main_spawn then Worker_begin else worker_thread s)\<rparr>)"
| handler_moves: "handler_step (handler_thread s) (globals s) = Some (h', g') \<Longrightarrow>
     service_step env s (s\<lparr>handler_thread := h', globals := g'\<rparr>)"
| worker_moves: "worker_step (worker_thread s) (globals s) = Some (w', g') \<Longrightarrow>
     service_step env s (s\<lparr>worker_thread := w', globals := g'\<rparr>)"
| control: "handler_thread s = Handler_idle \<Longrightarrow> control_accepted (globals s) \<Longrightarrow>
     service_step env s (s\<lparr>handler_thread := Handler_switch c\<rparr>)"

inductive service_reach :: "service_env \<Rightarrow> service_threads \<Rightarrow> bool" for env :: service_env where
  reach_init: "service_reach env threads_init"
| reach_step: "service_reach env s \<Longrightarrow> service_step env s s' \<Longrightarrow> service_reach env s'"

inductive_cases service_stepE: "service_step env s s'"

subsection \<open>Schedules\<close>

datatype service_action = Run_main | Run_handler | Run_worker | Control u32

definition service_act :: "service_env \<Rightarrow> service_action \<Rightarrow> service_threads \<Rightarrow> service_threads option"
where
  "service_act env a s = (case a of
     Run_main \<Rightarrow> (case main_step env (main_thread s) (globals s) of None \<Rightarrow> None
       | Some (m', g') \<Rightarrow> Some (s\<lparr>main_thread := m', globals := g',
           worker_thread := (if main_thread s = Main_spawn then Worker_begin
                             else worker_thread s)\<rparr>))
   | Run_handler \<Rightarrow> (case handler_step (handler_thread s) (globals s) of None \<Rightarrow> None
       | Some (h', g') \<Rightarrow> Some (s\<lparr>handler_thread := h', globals := g'\<rparr>))
   | Run_worker \<Rightarrow> (case worker_step (worker_thread s) (globals s) of None \<Rightarrow> None
       | Some (w', g') \<Rightarrow> Some (s\<lparr>worker_thread := w', globals := g'\<rparr>))
   | Control c \<Rightarrow> if handler_thread s = Handler_idle \<and> control_accepted (globals s)
       then Some (s\<lparr>handler_thread := Handler_switch c\<rparr>) else None)"

fun service_run :: "service_env \<Rightarrow> service_action list \<Rightarrow> service_threads \<Rightarrow> service_threads option"
where
  "service_run env [] s = Some s"
| "service_run env (a # as) s = (case service_act env a s of None \<Rightarrow> None
     | Some s' \<Rightarrow> service_run env as s')"

lemma service_act_step: "service_act env a s = Some s' \<Longrightarrow> service_step env s s'"
proof (cases a)
  case Run_main
  assume "service_act env a s = Some s'"
  with Run_main obtain m' g' where "main_step env (main_thread s) (globals s) = Some (m', g')"
    "s' = s\<lparr>main_thread := m', globals := g',
       worker_thread := (if main_thread s = Main_spawn then Worker_begin else worker_thread s)\<rparr>"
    by (auto simp: service_act_def split: option.splits)
  then show ?thesis using main_moves by metis
qed (auto simp: service_act_def split: option.splits if_splits intro: service_step.intros)

lemma service_run_reach:
  "service_run env as s = Some s' \<Longrightarrow> service_reach env s \<Longrightarrow> service_reach env s'"
proof (induction as arbitrary: s)
  case (Cons a as)
  then obtain t where "service_act env a s = Some t" "service_run env as t = Some s'"
    by (auto split: option.splits)
  with Cons show ?case using reach_step service_act_step by metis
qed simp

text \<open>
  The functions above are the threads run alone: \<open>ServiceMain\<close> with nothing but \<open>during\<close> between
  the spawn and the end of the wait, the handler without interruption.
\<close>

fun main_alone :: "service_env \<Rightarrow> nat \<Rightarrow> main_at \<times> service \<Rightarrow> (main_at \<times> service) option" where
  "main_alone env 0 (m, g) = Some (m, g)"
| "main_alone env (Suc n) (m, g) = Option.bind (main_step env m g) (main_alone env n)"

fun handler_alone :: "nat \<Rightarrow> handler_at \<times> service \<Rightarrow> (handler_at \<times> service) option" where
  "handler_alone 0 (h, g) = Some (h, g)"
| "handler_alone (Suc n) (h, g) = Option.bind (handler_step h g) (handler_alone n)"

lemma main_alone_fails:
  "handler_registered env = False \<Longrightarrow>
     main_alone env 1 (Main_register, g) = Some (Main_done, ServiceMain env during g)"
  "handler_registered env \<Longrightarrow> event_error env = Some e \<Longrightarrow>
     main_alone env 4 (Main_register, g) = Some (Main_done, ServiceMain env during g)"
  by (simp_all add: ServiceMain_def Let_def eval_nat_numeral)

lemma main_alone_runs:
  assumes "handler_registered env" "event_error env = None"
  obtains g' where "main_alone env 6 (Main_register, g) = Some (Main_wait, g')"
    "\<And>during. g_ServiceStopEvent (during g') = Some True \<Longrightarrow>
       main_alone env 3 (Main_wait, during g') = Some (Main_done, ServiceMain env during g)"
  using assms by (simp add: ServiceMain_def Let_def eval_nat_numeral)

lemma handler_alone_runs:
  "handler_alone (if c = SERVICE_CONTROL_STOP then 5 else 3) (Handler_switch c, g) =
     Some (Handler_idle, ServiceCtrlHandler c g)"
  by (simp add: ServiceCtrlHandler_def Let_def eval_nat_numeral)

section \<open>What the SCM is told\<close>

definition told :: "service \<Rightarrow> u32 list" where
  "told g = map dwCurrentState (reported g)"

text \<open>A history that starts up, says that it is running, and ends with one of the given tails.\<close>

definition runs_then :: "u32 list list \<Rightarrow> u32 list \<Rightarrow> bool" where
  "runs_then tails h = (case h of a # b # r \<Rightarrow> a = SERVICE_START_PENDING \<and> b = SERVICE_RUNNING \<and>
      dropWhile (\<lambda>x. x = SERVICE_RUNNING) r \<in> set tails
    | _ \<Rightarrow> False)"

lemma dropWhile_snoc:
  "dropWhile P (r @ [x]) = (if dropWhile P r = [] then (if P x then [] else [x])
     else dropWhile P r @ [x])"
  by (induction r) auto

lemma runs_then_first: "runs_then [[]] [SERVICE_START_PENDING, SERVICE_RUNNING]"
  by (simp add: runs_then_def)

lemma runs_then_running:
  "runs_then [[]] h \<Longrightarrow> runs_then [[]] (h @ [SERVICE_RUNNING])"
  by (auto simp: runs_then_def dropWhile_snoc split: list.splits)

lemma runs_then_end:
  assumes "runs_then tails h" "\<And>t. t \<in> set tails \<Longrightarrow> t @ [x] \<in> set tails'"
    "x \<noteq> SERVICE_RUNNING"
  shows "runs_then tails' (h @ [x])"
proof -
  obtain a b r where h: "h = a # b # r"
    using assms(1) by (auto simp: runs_then_def split: list.splits)
  let ?d = "dropWhile (\<lambda>x. x = SERVICE_RUNNING) r"
  have "?d \<in> set tails" using assms(1) by (simp add: h runs_then_def)
  then have "?d @ [x] \<in> set tails'" using assms(2) by blast
  then show ?thesis using assms(1,3)
    by (auto simp: h runs_then_def dropWhile_snoc simp del: dropWhile_eq_Nil_conv)
qed

lemma runs_then_mono: "runs_then tails h \<Longrightarrow> set tails \<subseteq> set tails' \<Longrightarrow> runs_then tails' h"
  by (auto simp: runs_then_def split: list.splits)


abbreviation (input) PEND where "PEND \<equiv> SERVICE_STOP_PENDING"
abbreviation (input) STOPD where "STOPD \<equiv> SERVICE_STOPPED"

lemma runs_then_last:
  assumes "runs_then [t] h"
  shows "h \<noteq> []" "last h = (if t = [] then SERVICE_RUNNING else last t)"
proof -
  obtain r where h: "h = SERVICE_START_PENDING # SERVICE_RUNNING # r"
    and t: "dropWhile (\<lambda>x. x = SERVICE_RUNNING) r = t"
    using assms by (auto simp: runs_then_def split: list.splits)
  have r: "r = takeWhile (\<lambda>x. x = SERVICE_RUNNING) r @ t"
    using t takeWhile_dropWhile_id by metis
  have "t = [] \<Longrightarrow> \<forall>x \<in> set r. x = SERVICE_RUNNING" using t by (simp add: dropWhile_eq_Nil_conv)
  then have "t = [] \<Longrightarrow> r \<noteq> [] \<Longrightarrow> last r = SERVICE_RUNNING" by (meson last_in_set)
  moreover have "t \<noteq> [] \<Longrightarrow> last r = last t" by (subst r) simp
  moreover have "t \<noteq> [] \<Longrightarrow> r \<noteq> []" using t by auto
  ultimately show "h \<noteq> []" "last h = (if t = [] then SERVICE_RUNNING else last t)"
    by (simp_all add: h)
qed

lemma runs_then_Nil [simp]: "\<not> runs_then [] h"
  by (simp add: runs_then_def split: list.splits)

text \<open>What may follow the running reports, by where the handler is and whether main is done.\<close>

definition tails_at :: "bool \<Rightarrow> bool \<Rightarrow> handler_at \<Rightarrow> u32 list list" where
  "tails_at sig ended h = (case h of
     Handler_idle \<Rightarrow> if \<not> sig then [[]]
       else if ended then [[PEND, PEND, STOPD], [PEND, STOPD, PEND], [PEND, STOPD, STOPD]] else [[PEND, PEND]]
   | Handler_switch c \<Rightarrow> if sig then [] else [[]]
   | Handler_signal \<Rightarrow> if sig then [] else [[PEND]]
   | Handler_clear \<Rightarrow> if \<not> sig then [] else if ended then [[PEND, STOPD]] else [[PEND]]
   | Handler_read \<Rightarrow> if \<not> sig then [[]] else if ended then [[PEND, STOPD]] else [[PEND]]
   | Handler_report st \<Rightarrow>
       if \<not> sig then (if st = SERVICE_RUNNING then [[]] else [])
       else if ended then (if st \<in> {PEND, STOPD} then [[PEND, STOPD]] else [])
       else if st = PEND then [[PEND]] else [])"

definition signalled :: "service \<Rightarrow> bool" where
  "signalled g \<longleftrightarrow> g_ServiceStopEvent g = Some True"

text \<open>
  The invariant: before the service runs only \<open>ServiceMain\<close> acts; afterwards the history is the one
  \<open>tails_at\<close> allows, the thread object is held once the worker has been started, and
  \<open>g_ServiceStatus\<close> is what was reported last.
\<close>

definition service_inv :: "service_threads \<Rightarrow> bool" where
  "service_inv s \<longleftrightarrow>
     (let g = globals s; m = main_thread s;
          early = handler_thread s = Handler_idle \<and> worker_thread s = Worker_none \<and>
            \<not> g_ServiceThread g;
          runs = (g_ServiceStopEvent g \<noteq> None \<and>
            runs_then (tails_at (signalled g) (m = Main_done) (handler_thread s)) (told g));
          started = g_ServiceThread g \<and> worker_thread s \<noteq> Worker_none
      in (reported g \<noteq> [] \<longrightarrow> last (reported g) = g_ServiceStatus g) \<and>
         (case m of
            Main_register \<Rightarrow> early \<and> told g = [] \<and> g_ServiceStopEvent g = None
          | Main_init \<Rightarrow> early \<and> told g = [] \<and> g_ServiceStopEvent g = None
          | Main_create_event \<Rightarrow> early \<and> told g = [SERVICE_START_PENDING] \<and>
              g_ServiceStopEvent g = None
          | Main_no_event e \<Rightarrow> early \<and> told g = [SERVICE_START_PENDING] \<and> g_ServiceStopEvent g = None
          | Main_running \<Rightarrow> early \<and> told g = [SERVICE_START_PENDING] \<and>
              g_ServiceStopEvent g = Some False
          | Main_start \<Rightarrow> runs \<and> worker_thread s = Worker_none \<and> \<not> g_ServiceThread g
          | Main_spawn \<Rightarrow> runs \<and> worker_thread s = Worker_none \<and> \<not> g_ServiceThread g
          | Main_wait \<Rightarrow> runs \<and> started
          | Main_stop \<Rightarrow> runs \<and> started \<and> signalled g
          | Main_stopped \<Rightarrow> runs \<and> started \<and> signalled g
          | Main_done \<Rightarrow>
              early \<and> g_ServiceStopEvent g = None \<and>
                told g \<in> {[], [SERVICE_START_PENDING, SERVICE_STOPPED]} \<or>
              runs \<and> started \<and> signalled g))"

lemma ReportSvcStatus_simps [simp]:
  "told (ReportSvcStatus st e w g) = told g @ [st]"
  "dwCurrentState (g_ServiceStatus (ReportSvcStatus st e w g)) = st"
  "reported (ReportSvcStatus st e w g) \<noteq> []"
  "last (reported (ReportSvcStatus st e w g)) = g_ServiceStatus (ReportSvcStatus st e w g)"
  "g_ServiceStopEvent (ReportSvcStatus st e w g) = g_ServiceStopEvent g"
  "g_ServiceThread (ReportSvcStatus st e w g) = g_ServiceThread g"
  by (simp_all add: ReportSvcStatus_def told_def Let_def)

lemma service_globals_simps [simp]:
  "told (StartNtpDaemon g) = told g" "told (StopNtpDaemon g) = told g" "told (SetEvent g) = told g"
  "told (g_ServiceStopEvent_update f g) = told g" "told (g_ServiceThread_update f' g) = told g"
  "told (g_ServiceRunning_update f' g) = told g" "told (g_StatusHandle_update f' g) = told g"
  "told (g_ServiceStatus_update f'' g) = told g"
  by (simp_all add: told_def StartNtpDaemon_def StopNtpDaemon_def SetEvent_def)

lemma service_globals_more [simp]:
  "reported (StartNtpDaemon g) = reported g" "reported (StopNtpDaemon g) = reported g"
  "reported (SetEvent g) = reported g"
  "g_ServiceStatus (StartNtpDaemon g) = g_ServiceStatus g"
  "g_ServiceStatus (StopNtpDaemon g) = g_ServiceStatus g"
  "g_ServiceStatus (SetEvent g) = g_ServiceStatus g"
  "g_ServiceStopEvent (StartNtpDaemon g) = g_ServiceStopEvent g"
  "g_ServiceStopEvent (StopNtpDaemon g) = g_ServiceStopEvent g"
  "g_ServiceStopEvent (SetEvent g) = map_option (\<lambda>_. True) (g_ServiceStopEvent g)"
  "g_ServiceThread (StartNtpDaemon g) = g_ServiceThread g"
  "g_ServiceThread (StopNtpDaemon g) = g_ServiceThread g"
  "g_ServiceThread (SetEvent g) = g_ServiceThread g"
  by (simp_all add: StartNtpDaemon_def StopNtpDaemon_def SetEvent_def)

lemma signalled_simps [simp]:
  "signalled (ReportSvcStatus st e w g) = signalled g"
  "signalled (g_ServiceRunning_update f g) = signalled g"
  "signalled (StartNtpDaemon g) = signalled g" "signalled (StopNtpDaemon g) = signalled g"
  "signalled (g_ServiceThread_update f g) = signalled g"
  "g_ServiceStopEvent g \<noteq> None \<Longrightarrow> signalled (SetEvent g)"
  by (auto simp: signalled_def)

lemma inv_init: "service_inv threads_init"
  by (simp add: service_inv_def threads_init_def service_init_def told_def)

lemma tails_at_ended:
  "t \<in> set (tails_at True False h) \<Longrightarrow> t @ [STOPD] \<in> set (tails_at True True h)"
  by (auto simp: tails_at_def split: handler_at.splits if_splits)

lemma tails_at_idle: "tails_at False False Handler_idle = [[]]"
  by (simp add: tails_at_def)

lemma inv_main:
  assumes inv: "service_inv s"
    and step: "main_step env (main_thread s) (globals s) = Some (m', g')"
  shows "service_inv (s\<lparr>main_thread := m', globals := g',
    worker_thread := (if main_thread s = Main_spawn then Worker_begin else worker_thread s)\<rparr>)"
proof (cases "main_thread s")
  case Main_stopped
  with inv have "runs_then (tails_at True False (handler_thread s)) (told (globals s))"
    by (auto simp: service_inv_def Let_def)
  then have "runs_then (tails_at True True (handler_thread s)) (told (globals s) @ [STOPD])"
    by (rule runs_then_end) (simp_all add: tails_at_ended)
  with Main_stopped inv step show ?thesis by (auto simp: service_inv_def Let_def)
next
  case Main_running
  with assms show ?thesis by (auto simp: service_inv_def Let_def tails_at_idle runs_then_first signalled_def)
next
  case Main_wait
  with assms show ?thesis by (auto simp: service_inv_def Let_def signalled_def split: if_splits)
next
  case Main_create_event
  with assms show ?thesis
    by (cases "event_error env") (auto simp: service_inv_def Let_def)
qed (use assms in \<open>auto simp: service_inv_def Let_def split: if_splits\<close>)

lemma inv_worker:
  assumes "service_inv s" "worker_step (worker_thread s) (globals s) = Some (w', g')"
  shows "service_inv (s\<lparr>worker_thread := w', globals := g'\<rparr>)"
  using assms
  by (cases "worker_thread s"; cases "main_thread s")
     (auto simp: service_inv_def Let_def split: if_splits)

text \<open>A step of the handler in a running service, in terms of the history alone.\<close>

lemma handler_reports:
  assumes "runs_then (tails_at b ended (Handler_report st)) (told g)"
  shows "runs_then (tails_at b ended Handler_idle) (told g @ [st])"
proof (cases b)
  case False
  with assms show ?thesis by (auto simp: tails_at_def runs_then_running split: if_splits)
next
  case True
  with assms show ?thesis
    by (auto simp: tails_at_def split: if_splits intro: runs_then_end)
qed

lemma handler_reads:
  assumes "runs_then (tails_at b ended Handler_read) (told g)"
  shows "runs_then (tails_at b ended (Handler_report (last (told g)))) (told g)"
  using assms by (auto simp: tails_at_def runs_then_last split: if_splits)

lemma handler_tails:
  assumes step: "handler_step h g = Some (h', g')"
    and runs: "runs_then (tails_at (signalled g) ended h) (told g)" "g_ServiceStopEvent g \<noteq> None"
    and cur: "dwCurrentState (g_ServiceStatus g) = last (told g)"
    and ended: "ended \<Longrightarrow> signalled g"
  shows "runs_then (tails_at (signalled g') ended h') (told g')"
proof (cases h)
  case (Handler_switch c)
  with runs ended have b: "\<not> signalled g" "\<not> ended" and h: "runs_then [[]] (told g)"
    by (auto simp: tails_at_def split: if_splits)
  have "runs_then [[PEND]] (told g @ [PEND])" using h by (rule runs_then_end) simp_all
  with step Handler_switch b h show ?thesis by (auto simp: tails_at_def split: if_splits)
next
  case Handler_signal
  with runs step ended show ?thesis by (auto simp: tails_at_def split: if_splits)
next
  case Handler_clear
  with runs step show ?thesis by (auto simp: tails_at_def split: if_splits)
next
  case Handler_read
  with step cur have "h' = Handler_report (last (told g))" "g' = g" by auto
  with handler_reads [OF runs(1) [unfolded Handler_read]] show ?thesis by simp
next
  case (Handler_report st)
  with step have "h' = Handler_idle" "g' = ReportSvcStatus st NO_ERROR 0 g" by auto
  with handler_reports [OF runs(1) [unfolded Handler_report]] show ?thesis by simp
qed (use step in simp)

lemma handler_step_globals:
  assumes "handler_step h g = Some (h', g')"
  shows "g_ServiceThread g' = g_ServiceThread g" "signalled g \<Longrightarrow> signalled g'"
    "g_ServiceStopEvent g' \<noteq> None \<longleftrightarrow> g_ServiceStopEvent g \<noteq> None"
    "(reported g \<noteq> [] \<longrightarrow> last (reported g) = g_ServiceStatus g) \<Longrightarrow>
       reported g' \<noteq> [] \<longrightarrow> last (reported g') = g_ServiceStatus g'"
  using assms by (cases h; auto simp: signalled_def split: if_splits)+

text \<open>The invariant in the states where the handler can run, and its parts there.\<close>

definition service_runs :: "service_threads \<Rightarrow> bool" where
  "service_runs s \<longleftrightarrow> main_thread s \<in> {Main_start, Main_spawn, Main_wait, Main_stop, Main_stopped, Main_done} \<and>
     g_ServiceStopEvent (globals s) \<noteq> None"

lemma inv_runs:
  assumes "service_inv s" "service_runs s"
  shows "runs_then (tails_at (signalled (globals s)) (main_thread s = Main_done) (handler_thread s))
      (told (globals s))"
    "main_thread s = Main_done \<Longrightarrow> signalled (globals s)"
  using assms by (cases "main_thread s"; auto simp: service_inv_def service_runs_def Let_def)+

lemma inv_idle:
  "service_inv s \<Longrightarrow> \<not> service_runs s \<Longrightarrow> handler_thread s = Handler_idle"
  by (cases "main_thread s") (auto simp: service_inv_def service_runs_def Let_def)

lemma inv_current:
  "service_inv s \<Longrightarrow> told (globals s) \<noteq> [] \<Longrightarrow>
     dwCurrentState (g_ServiceStatus (globals s)) = last (told (globals s))"
  by (auto simp: service_inv_def Let_def told_def last_map)

lemma inv_handler:
  assumes inv: "service_inv s" and step: "handler_step (handler_thread s) (globals s) = Some (h', g')"
  shows "service_inv (s\<lparr>handler_thread := h', globals := g'\<rparr>)"
proof -
  have runs: "service_runs s" using inv_idle [OF inv] step by fastforce
  note r = inv_runs [OF inv runs] and g = handler_step_globals [OF step]
  have ev: "g_ServiceStopEvent (globals s) \<noteq> None" using runs by (simp add: service_runs_def)
  from r(1) have "told (globals s) \<noteq> []" by (auto simp: runs_then_def)
  with handler_tails [OF step r(1) ev _ r(2)] inv_current [OF inv]
  have "runs_then (tails_at (signalled g') (main_thread s = Main_done) h') (told g')" by blast
  with inv runs g ev show ?thesis
    by (cases "main_thread s") (auto simp: service_inv_def service_runs_def Let_def)
qed

lemma tails_idle_running:
  assumes "runs_then (tails_at b ended Handler_idle) h" "last h = SERVICE_RUNNING" "ended \<Longrightarrow> b"
  shows "\<not> b"
proof
  assume "b"
  then obtain t where "runs_then [t] h" "t \<in> {[PEND, PEND], [PEND, PEND, STOPD], [PEND, STOPD, PEND], [PEND, STOPD, STOPD]}"
    using assms(1) by (auto simp: tails_at_def runs_then_def split: list.splits if_splits)
  with runs_then_last(2) [of t h] assms(2) show False by auto
qed

lemma inv_control:
  assumes inv: "service_inv s" and idle: "handler_thread s = Handler_idle"
    and acc: "control_accepted (globals s)"
  shows "service_inv (s\<lparr>handler_thread := Handler_switch c\<rparr>)"
proof -
  have last: "last (told (globals s)) = SERVICE_RUNNING" and ne: "told (globals s) \<noteq> []"
    using acc by (auto simp: control_accepted_def told_def last_map)
  have runs: "service_runs s"
    using inv last ne
    by (cases "main_thread s") (auto simp: service_inv_def service_runs_def Let_def)
  note r = inv_runs [OF inv runs]
  have "\<not> signalled (globals s)" using tails_idle_running [OF r(1) [unfolded idle] last r(2)] .
  with inv r runs idle show ?thesis
    by (cases "main_thread s")
       (auto simp: service_inv_def service_runs_def Let_def tails_at_def split: if_splits)
qed

lemma service_reach_inv: "service_reach env s \<Longrightarrow> service_inv s"
  by (induction rule: service_reach.induct)
     (auto elim!: service_stepE intro: inv_init inv_main inv_handler inv_worker inv_control)

section \<open>Properties\<close>

text \<open>Every history the SCM can have been told when the service is over.\<close>

definition ended_history :: "u32 list \<Rightarrow> bool" where
  "ended_history h \<longleftrightarrow> h = [] \<or> h = [SERVICE_START_PENDING, SERVICE_STOPPED] \<or>
     runs_then [[PEND, PEND, STOPD], [PEND, STOPD, PEND], [PEND, STOPD, STOPD]] h"

lemma tails_at_complete:
  assumes "t \<in> set (tails_at sig ended h)"
  obtains e where "t @ e \<in> {[PEND, PEND, STOPD], [PEND, STOPD, PEND], [PEND, STOPD, STOPD]}"
    "t = [] \<Longrightarrow> hd e \<noteq> SERVICE_RUNNING" "e \<noteq> [] \<Longrightarrow> hd e \<noteq> SERVICE_RUNNING"
proof -
  have "t \<in> {[], [PEND], [PEND, PEND], [PEND, STOPD], [PEND, PEND, STOPD], [PEND, STOPD, PEND], [PEND, STOPD, STOPD]}"
    using assms by (auto simp: tails_at_def split: handler_at.splits if_splits)
  then consider "t @ [PEND, PEND, STOPD] = [PEND, PEND, STOPD]" | "t @ [PEND, STOPD] = [PEND, PEND, STOPD]" | "t @ [STOPD] = [PEND, PEND, STOPD]"
    | "t @ [STOPD] = [PEND, STOPD, STOPD]" | "t @ [] \<in> {[PEND, PEND, STOPD], [PEND, STOPD, PEND], [PEND, STOPD, STOPD]}" by auto
  then show ?thesis using that [of "[PEND, PEND, STOPD]"] that [of "[PEND, STOPD]"] that [of "[STOPD]"] that [of "[]"]
    by cases auto
qed

lemma dropWhile_append_stop:
  "e \<noteq> [] \<longrightarrow> \<not> Q (hd e) \<Longrightarrow> dropWhile Q (xs @ e) = dropWhile Q xs @ e"
  by (cases e) (auto simp: dropWhile_append)

lemma runs_then_prefix:
  assumes "runs_then (tails_at sig ended h) xs"
  shows "\<exists>full. prefix xs full \<and> ended_history full"
proof -
  obtain r where xs: "xs = SERVICE_START_PENDING # SERVICE_RUNNING # r"
    and t: "dropWhile (\<lambda>x. x = SERVICE_RUNNING) r \<in> set (tails_at sig ended h)"
    using assms by (auto simp: runs_then_def split: list.splits)
  obtain e where e: "dropWhile (\<lambda>x. x = SERVICE_RUNNING) r @ e \<in> {[PEND, PEND, STOPD], [PEND, STOPD, PEND], [PEND, STOPD, STOPD]}"
    "e \<noteq> [] \<longrightarrow> hd e \<noteq> SERVICE_RUNNING"
    using tails_at_complete [OF t] by metis
  then have "runs_then [[PEND, PEND, STOPD], [PEND, STOPD, PEND], [PEND, STOPD, STOPD]] (xs @ e)"
    by (simp add: xs runs_then_def dropWhile_append_stop)
  then have "ended_history (xs @ e)" by (simp add: ended_history_def)
  then show ?thesis by (metis prefixI)
qed

lemma service_told_prefix:
  assumes "service_inv s"
  shows "\<exists>full. prefix (told (globals s)) full \<and> ended_history full"
proof (cases "service_runs s")
  case True
  then show ?thesis using inv_runs(1) [OF assms] runs_then_prefix by blast
next
  case False
  with assms have "told (globals s) \<in>
      {[], [SERVICE_START_PENDING], [SERVICE_START_PENDING, SERVICE_STOPPED]}"
    by (cases "main_thread s") (auto simp: service_inv_def service_runs_def Let_def)
  then have "prefix (told (globals s)) [SERVICE_START_PENDING, SERVICE_STOPPED]" by auto
  then show ?thesis by (auto simp: ended_history_def)
qed

lemma service_told_end:
  assumes "service_inv s" "main_thread s = Main_done" "handler_thread s = Handler_idle"
  shows "ended_history (told (globals s))"
  using assms by (auto simp: service_inv_def Let_def tails_at_def ended_history_def)


text \<open>
  The schedule in which the handler is overtaken: the SCM is left with a pending stop, and accepts
  no further control.
\<close>

definition overtaken :: "service_action list" where
  "overtaken = replicate 6 Run_main @ [Control SERVICE_CONTROL_STOP] @ replicate 4 Run_handler @
     replicate 3 Run_main @ [Run_handler] @ replicate 3 Run_worker"

definition working_env :: service_env where
  "working_env = \<lparr>handler_registered = True, event_error = None\<rparr>"

lemma overtaken_run:
  "case service_run working_env overtaken threads_init of None \<Rightarrow> False
     | Some s \<Rightarrow> main_thread s = Main_done \<and> handler_thread s = Handler_idle \<and>
         worker_thread s = Worker_done \<and>
         told (globals s) = [SERVICE_START_PENDING, SERVICE_RUNNING, PEND, STOPD, PEND] \<and>
         control_accepted (globals s) = False"
  by code_simp


text \<open>How many steps are left once the stop event is signalled.\<close>

fun main_left :: "main_at \<Rightarrow> nat" where
  "main_left Main_done = 0"
| "main_left Main_stopped = 1"
| "main_left Main_stop = 2"
| "main_left Main_wait = 3"
| "main_left Main_spawn = 8"
| "main_left Main_start = 9"
| "main_left _ = 10"

fun handler_left :: "handler_at \<Rightarrow> nat" where
  "handler_left Handler_idle = 0"
| "handler_left (Handler_report st) = 1"
| "handler_left Handler_read = 2"
| "handler_left Handler_clear = 3"
| "handler_left Handler_signal = 4"
| "handler_left (Handler_switch c) = 5"

fun worker_left :: "worker_at \<Rightarrow> nat" where
  "worker_left Worker_begin = 3"
| "worker_left Worker_test = 2"
| "worker_left Worker_wait = 1"
| "worker_left _ = 0"

definition service_left :: "service_threads \<Rightarrow> nat" where
  "service_left s = main_left (main_thread s) + handler_left (handler_thread s) +
     worker_left (worker_thread s)"

lemma signalled_accepts_nothing:
  assumes "service_inv s" "signalled (globals s)" "handler_thread s = Handler_idle"
  shows "\<not> control_accepted (globals s)"
proof
  assume acc: "control_accepted (globals s)"
  with inv_control [OF assms(1,3)] have "service_inv (s\<lparr>handler_thread := Handler_switch 0\<rparr>)" .
  with assms(2) acc show False
    by (cases "main_thread s") (auto simp: service_inv_def Let_def tails_at_def)
qed

lemma signalled_threads:
  assumes "service_inv s" "signalled (globals s)"
  shows "main_thread s \<in> {Main_start, Main_spawn, Main_wait, Main_stop, Main_stopped, Main_done}"
    "handler_thread s \<noteq> Handler_switch c" "handler_thread s \<noteq> Handler_signal"
    "main_thread s \<notin> {Main_start, Main_spawn} \<longleftrightarrow> worker_thread s \<noteq> Worker_none"
  using assms
  by (cases "main_thread s"; auto simp: service_inv_def Let_def signalled_def tails_at_def)+

lemma service_left_step:
  assumes inv: "service_inv s" and sig: "signalled (globals s)" and step: "service_step env s s'"
  shows "service_left s' < service_left s \<and> signalled (globals s')"
  using step
proof (cases rule: service_step.cases)
  case (main_moves m' g')
  with sig signalled_threads [OF inv sig] show ?thesis
    by (cases "main_thread s") (auto simp: service_left_def signalled_def StartNtpDaemon_def
        StopNtpDaemon_def ReportSvcStatus_def Let_def split: if_splits)
next
  case (handler_moves h' g')
  with sig signalled_threads [OF inv sig] handler_step_globals(2) [OF handler_moves(2)]
  show ?thesis by (cases "handler_thread s") (auto simp: service_left_def)
next
  case (worker_moves w' g')
  with sig show ?thesis
    by (cases "worker_thread s") (auto simp: service_left_def signalled_def split: if_splits)
next
  case (control c)
  with signalled_accepts_nothing [OF inv sig] show ?thesis by simp
qed

lemma service_stuck:
  assumes inv: "service_inv s" and sig: "signalled (globals s)"
    and stuck: "\<And>s'. \<not> service_step env s s'"
  shows "main_thread s = Main_done \<and> handler_thread s = Handler_idle \<and>
    worker_thread s = Worker_done"
proof -
  have m: "main_step env (main_thread s) (globals s) = None"
    and h: "handler_step (handler_thread s) (globals s) = None"
    and w: "worker_step (worker_thread s) (globals s) = None"
    using stuck service_step.intros(1-3) by (metis not_None_eq surj_pair)+
  have "main_thread s = Main_done"
    using m sig signalled_threads(1) [OF inv sig] by (auto simp: signalled_def)
  moreover have "handler_thread s = Handler_idle" using h by (cases "handler_thread s") auto
  moreover have "worker_thread s = Worker_done"
    using w signalled_threads(4) [OF inv sig] calculation(1) by (cases "worker_thread s") auto
  ultimately show ?thesis by simp
qed

inductive service_steps :: "service_env \<Rightarrow> nat \<Rightarrow> service_threads \<Rightarrow> service_threads \<Rightarrow> bool"
  for env :: service_env where
  steps_none: "service_steps env 0 s s"
| steps_more: "service_step env s t \<Longrightarrow> service_steps env n t u \<Longrightarrow> service_steps env (Suc n) s u"

lemma service_run_steps:
  "service_run env as s = Some u \<Longrightarrow> service_steps env (length as) s u"
proof (induction as arbitrary: s)
  case (Cons a as)
  then obtain t where "service_act env a s = Some t" "service_run env as t = Some u"
    by (auto split: option.splits)
  with Cons show ?case using steps_more service_act_step by (metis length_Cons)
qed (simp add: steps_none)

lemma service_steps_left:
  "service_steps env n s u \<Longrightarrow> service_reach env s \<Longrightarrow> signalled (globals s) \<Longrightarrow>
     n + service_left u \<le> service_left s \<and> service_reach env u \<and> signalled (globals u)"
proof (induction rule: service_steps.induct)
  case (steps_more s t n u)
  note inv = service_reach_inv [OF steps_more.prems(1)]
  from service_left_step [OF inv steps_more.prems(2) steps_more.hyps(1)]
  have "service_left t < service_left s" "signalled (globals t)" by auto
  with steps_more.IH reach_step [OF steps_more.prems(1) steps_more.hyps(1)] show ?case by simp
qed simp

text \<open>A schedule in which the worker begins after the handler has cleared \<open>g_ServiceRunning\<close>.\<close>

definition cleared_first :: "service_action list" where
  "cleared_first = replicate 6 Run_main @ [Control SERVICE_CONTROL_STOP] @ replicate 3 Run_handler"

definition worker_late :: "service_action list" where
  "worker_late = replicate 3 Run_worker @ replicate 2 Run_handler @ replicate 3 Run_main"

lemma worker_late_run:
  "case service_run working_env cleared_first threads_init of None \<Rightarrow> False
     | Some s \<Rightarrow> signalled (globals s) \<and> g_ServiceRunning (globals s) = False \<and>
         worker_thread s = Worker_begin \<and>
         (case service_run working_env worker_late s of None \<Rightarrow> False
          | Some u \<Rightarrow> g_ServiceRunning (globals u) \<and> worker_thread u = Worker_done)"
  by code_simp

text \<open>
  C36. The Windows service stops once its stop event is signalled: whatever the threads do and
  in whatever order, at most sixteen steps remain, the event stays signalled, and where no thread
  can move any more \<open>ServiceMain\<close> has returned, the handler is idle and the worker loop has ended,
  even when the worker set \<open>g_ServiceRunning\<close> after the handler had cleared it.
\<close>

theorem service_stops:
  assumes "service_reach env s" "signalled (globals s)" "service_steps env n s u"
  shows "n \<le> 16 \<and> signalled (globals u) \<and>
    ((\<nexists>v. service_step env u v) \<longrightarrow>
      main_thread u = Main_done \<and> handler_thread u = Handler_idle \<and> worker_thread u = Worker_done)"
proof -
  note u = service_steps_left [OF assms(3,1,2)]
  have "main_left (main_thread s) \<le> 10" by (cases "main_thread s") auto
  moreover have "handler_left (handler_thread s) \<le> 3"
    using signalled_threads(2,3) [OF service_reach_inv [OF assms(1)] assms(2)]
    by (cases "handler_thread s") auto
  moreover have "worker_left (worker_thread s) \<le> 3" by (cases "worker_thread s") auto
  ultimately have "n \<le> 16" using u by (simp add: service_left_def)
  with u service_stuck [OF service_reach_inv] show ?thesis by blast
qed

theorem service_stops_witness:
  "\<exists>s u. service_reach working_env s \<and> signalled (globals s) \<and>
     \<not> g_ServiceRunning (globals s) \<and> worker_thread s = Worker_begin \<and>
     service_steps working_env 8 s u \<and> (8::nat) \<le> 16 \<and> signalled (globals u) \<and>
     g_ServiceRunning (globals u) \<and> worker_thread u = Worker_done"
proof -
  obtain s u where s: "service_run working_env cleared_first threads_init = Some s"
    and u: "service_run working_env worker_late s = Some u"
    using worker_late_run by (auto split: option.splits)
  have reach: "service_reach working_env s" using s by (rule service_run_reach) (rule reach_init)
  have steps: "service_steps working_env 8 s u"
    using service_run_steps [OF u] by (simp add: worker_late_def)
  have sig: "signalled (globals s)" using worker_late_run s u by simp
  from service_stops [OF reach sig steps] reach steps sig worker_late_run s u show ?thesis by auto
qed

end
