(* ===== verification/Locks.thy ===== *)
theory Locks
  imports Prelude
begin

text \<open>
  Threads that take \<open>std::mutex\<close>es with \<open>std::lock_guard\<close> and join one another: what a thread does
  is the list of its lock operations, and one step is one operation of one thread.

  \<^item> A mutex is not recursive: it is granted when no thread holds it, the asking one included.
  \<^item> A join waits until the other thread has nothing left to do. Thread 0 is the one that creates
    and joins the others.
  \<^item> The discipline: a thread takes a mutex only when its rank is above those it holds, gives
    mutexes back in the opposite order, and joins holding none; only thread 0 joins. It excludes
    deadlock, and every run is as long as the operations there are.
  \<^item> A signal handler runs in the middle of a thread: its operations come before what the thread had
    left, under the mutexes the thread holds.
\<close>

section \<open>Threads and steps\<close>

datatype 'm lock_op = Lock 'm | Unlock 'm | Join nat

record 'm lock_thread =
  held :: "'m list"
  todo :: "'m lock_op list"

definition fresh_thread :: "'m lock_op list \<Rightarrow> 'm lock_thread" where
  "fresh_thread ops = \<lparr>held = [], todo = ops\<rparr>"

inductive lock_step :: "'m lock_thread list \<Rightarrow> 'm lock_thread list \<Rightarrow> bool" where
  locks: "i < length ts \<Longrightarrow> todo (ts ! i) = Lock m # ops \<Longrightarrow> \<forall>t \<in> set ts. m \<notin> set (held t) \<Longrightarrow>
     lock_step ts (ts[i := \<lparr>held = m # held (ts ! i), todo = ops\<rparr>])"
| unlocks: "i < length ts \<Longrightarrow> todo (ts ! i) = Unlock m # ops \<Longrightarrow> m \<in> set (held (ts ! i)) \<Longrightarrow>
     lock_step ts (ts[i := \<lparr>held = remove1 m (held (ts ! i)), todo = ops\<rparr>])"
| joins: "i < length ts \<Longrightarrow> todo (ts ! i) = Join k # ops \<Longrightarrow> k < length ts \<Longrightarrow> todo (ts ! k) = [] \<Longrightarrow>
     lock_step ts (ts[i := \<lparr>held = held (ts ! i), todo = ops\<rparr>])"

inductive_cases lock_stepE: "lock_step ts ts'"

abbreviation lock_run :: "'m lock_thread list \<Rightarrow> 'm lock_thread list \<Rightarrow> bool" where
  "lock_run \<equiv> lock_step\<^sup>*\<^sup>*"

definition all_done :: "'m lock_thread list \<Rightarrow> bool" where
  "all_done ts \<longleftrightarrow> (\<forall>t \<in> set ts. todo t = [] \<and> held t = [])"

definition exclusive :: "'m lock_thread list \<Rightarrow> bool" where
  "exclusive ts \<longleftrightarrow> (\<forall>i < length ts. \<forall>j < length ts.
     i \<noteq> j \<longrightarrow> set (held (ts ! i)) \<inter> set (held (ts ! j)) = {})"

definition ops_left :: "'m lock_thread list \<Rightarrow> nat" where
  "ops_left ts = sum_list (map (\<lambda>t. length (todo t)) ts)"

lemma lock_run_length: "lock_run ts ts' \<Longrightarrow> length ts' = length ts"
  by (induction rule: rtranclp_induct) (auto elim: lock_stepE)

text \<open>
  What every schedule from a state has in common: it can be continued until all threads have ended;
  thread \<open>i\<close> never moves; thread \<open>i\<close> never gets past a join of itself.
\<close>

definition always_completes :: "'m lock_thread list \<Rightarrow> bool" where
  "always_completes ts \<longleftrightarrow> (\<forall>ts'. lock_run ts ts' \<longrightarrow> (\<exists>ts''. lock_run ts' ts'' \<and> all_done ts''))"

definition never_moves :: "nat \<Rightarrow> 'm lock_thread list \<Rightarrow> bool" where
  "never_moves i ts \<longleftrightarrow> (\<forall>ts'. lock_run ts ts' \<longrightarrow> ts' ! i = ts ! i)"

definition waits_for_itself :: "nat \<Rightarrow> 'm lock_thread list \<Rightarrow> bool" where
  "waits_for_itself i ts \<longleftrightarrow> (\<forall>ts'. lock_run ts ts' \<longrightarrow> Join i \<in> set (todo (ts' ! i)))"

section \<open>The discipline\<close>

text \<open>
  The mutexes held after the operations, \<^const>\<open>None\<close> when they break the discipline; \<open>n\<close> is the
  number of threads that may be joined.
\<close>

fun held_after ::
    "('m \<Rightarrow> nat) \<Rightarrow> nat \<Rightarrow> 'm lock_op list \<Rightarrow> 'm list \<Rightarrow> 'm list option" where
  "held_after rank n [] H = Some H"
| "held_after rank n (Lock m # ops) H =
     (if \<forall>h \<in> set H. rank h < rank m then held_after rank n ops (m # H) else None)"
| "held_after rank n (Unlock m # ops) H =
     (if H \<noteq> [] \<and> hd H = m then held_after rank n ops (tl H) else None)"
| "held_after rank n (Join k # ops) H =
     (if H = [] \<and> 0 < k \<and> k \<le> n then held_after rank n ops H else None)"

definition disciplined ::
    "('m \<Rightarrow> nat) \<Rightarrow> nat \<Rightarrow> 'm list \<Rightarrow> 'm lock_op list \<Rightarrow> bool" where
  "disciplined rank n H ops \<longleftrightarrow> held_after rank n ops H = Some H"

text \<open>A block guarded by \<open>std::lock_guard\<close>.\<close>

definition guarded :: "'m \<Rightarrow> 'm lock_op list \<Rightarrow> 'm lock_op list" where
  "guarded m ops = Lock m # ops @ [Unlock m]"

named_theorems lock_rules \<open>how disciplined pieces make disciplined code\<close>

lemma held_after_append:
  "held_after rank n (xs @ ys) H = Option.bind (held_after rank n xs H) (held_after rank n ys)"
  by (induction rank n xs H rule: held_after.induct) auto

lemma disciplined_Nil [simp, lock_rules]: "disciplined rank n H []"
  by (simp add: disciplined_def)

lemma disciplined_append [lock_rules]:
  "disciplined rank n H xs \<Longrightarrow> disciplined rank n H ys \<Longrightarrow> disciplined rank n H (xs @ ys)"
  by (simp add: disciplined_def held_after_append)

lemma disciplined_concat [lock_rules]:
  "(\<And>xs. xs \<in> set xss \<Longrightarrow> disciplined rank n H xs) \<Longrightarrow> disciplined rank n H (concat xss)"
  by (induction xss) (simp_all add: disciplined_append)

lemma disciplined_if [lock_rules]:
  "(b \<Longrightarrow> disciplined rank n H xs) \<Longrightarrow> (\<not> b \<Longrightarrow> disciplined rank n H ys) \<Longrightarrow>
   disciplined rank n H (if b then xs else ys)"
  by simp

lemma disciplined_guarded [lock_rules]:
  "\<forall>h \<in> set H. rank h < rank m \<Longrightarrow> disciplined rank n (m # H) ops \<Longrightarrow>
   disciplined rank n H (guarded m ops)"
  by (simp add: disciplined_def guarded_def held_after_append)

lemma disciplined_joins [lock_rules]:
  "\<forall>k \<in> set ks. 0 < k \<and> k \<le> n \<Longrightarrow> disciplined rank n [] (map Join ks)"
  by (induction ks) (simp_all add: disciplined_def)

lemma disciplined_more_threads:
  "disciplined rank n H ops \<Longrightarrow> n \<le> n' \<Longrightarrow> disciplined rank n' H ops"
proof -
  have "held_after rank n ops H = Some H' \<Longrightarrow> n \<le> n' \<Longrightarrow> held_after rank n' ops H = Some H'" for H'
    by (induction rank n ops H rule: held_after.induct) (auto split: if_splits)
  then show "disciplined rank n H ops \<Longrightarrow> n \<le> n' \<Longrightarrow> disciplined rank n' H ops"
    by (simp add: disciplined_def)
qed

section \<open>The invariant\<close>

text \<open>What thread \<open>i\<close> of \<open>ts\<close> may join, and the invariant: every thread keeps to the discipline and
  ends with no mutex held, and no mutex is held twice.\<close>

definition joinable :: "'m lock_thread list \<Rightarrow> nat \<Rightarrow> nat" where
  "joinable ts i = (if i = 0 then length ts - 1 else 0)"

definition lock_inv :: "('m \<Rightarrow> nat) \<Rightarrow> 'm lock_thread list \<Rightarrow> bool" where
  "lock_inv rank ts \<longleftrightarrow> exclusive ts \<and>
     (\<forall>i < length ts. held_after rank (joinable ts i) (todo (ts ! i)) (held (ts ! i)) = Some [])"

lemma joinable_update [simp]: "joinable (ts[i := t]) j = joinable ts j"
  by (simp add: joinable_def)

text \<open>A thread replaced by one that holds nothing another one holds.\<close>

lemma exclusive_update:
  assumes "exclusive ts" and "i < length ts"
    and "\<And>j. j < length ts \<Longrightarrow> j \<noteq> i \<Longrightarrow> set (held t) \<inter> set (held (ts ! j)) = {}"
  shows "exclusive (ts[i := t])"
  using assms by (auto simp: exclusive_def nth_list_update Int_commute)

lemma lock_inv_update:
  assumes inv: "lock_inv rank ts" and i: "i < length ts"
    and "\<And>j. j < length ts \<Longrightarrow> j \<noteq> i \<Longrightarrow> set (held t) \<inter> set (held (ts ! j)) = {}"
    and "held_after rank (joinable ts i) (todo t) (held t) = Some []"
  shows "lock_inv rank (ts[i := t])"
  using assms exclusive_update [of ts i t] by (auto simp: lock_inv_def nth_list_update)

lemma lock_inv_thread:
  assumes "lock_inv rank ts" and "i < length ts"
  shows "held_after rank (joinable ts i) (todo (ts ! i)) (held (ts ! i)) = Some []"
    and "j < length ts \<Longrightarrow> j \<noteq> i \<Longrightarrow> set (held (ts ! i)) \<inter> set (held (ts ! j)) = {}"
  using assms by (auto simp: lock_inv_def exclusive_def)

lemma lock_step_inv:
  assumes "lock_step ts ts'" and inv: "lock_inv rank ts"
  shows "lock_inv rank ts'"
  using assms(1)
proof cases
  case (locks i m ops)
  note now = lock_inv_thread [OF inv locks(2)]
  show ?thesis
    unfolding locks(1) using now locks by (intro lock_inv_update inv) (auto split: if_splits)
next
  case (unlocks i m ops)
  note now = lock_inv_thread [OF inv unlocks(2)]
  show ?thesis
    unfolding unlocks(1) using now unlocks
    by (cases "held (ts ! i)") (intro lock_inv_update inv; auto split: if_splits)+
next
  case (joins i k ops)
  note now = lock_inv_thread [OF inv joins(2)]
  show ?thesis
    unfolding joins(1) using now joins by (intro lock_inv_update inv) (auto split: if_splits)
qed

lemma lock_run_inv: "lock_run ts ts' \<Longrightarrow> lock_inv rank ts \<Longrightarrow> lock_inv rank ts'"
  by (induction rule: rtranclp_induct) (auto intro: lock_step_inv)

section \<open>No deadlock\<close>

text \<open>
  A thread that wants a mutex nobody holds can take it; otherwise its holder, which has not ended, is
  about to give a mutex back or wants one of a higher rank.
\<close>

lemma wants_higher:
  assumes inv: "lock_inv rank ts" and i: "i < length ts" "todo (ts ! i) = Lock m # ops"
  shows "(\<exists>ts'. lock_step ts ts')
    \<or> (\<exists>j < length ts. \<exists>m' ops'. todo (ts ! j) = Lock m' # ops' \<and> rank m < rank m')"
proof (cases "\<forall>t \<in> set ts. m \<notin> set (held t)")
  case True
  with i show ?thesis by (blast intro: locks)
next
  case False
  then obtain j where j: "j < length ts" "m \<in> set (held (ts ! j))"
    by (metis in_set_conv_nth)
  note now = lock_inv_thread(1) [OF inv j(1)]
  show ?thesis
  proof (cases "todo (ts ! j)")
    case Nil
    with now j show ?thesis by simp
  next
    case (Cons op ops')
    show ?thesis
    proof (cases op)
      case (Lock m')
      with Cons now j show ?thesis by (auto split: if_splits)
    next
      case (Unlock m')
      with Cons now have "m' \<in> set (held (ts ! j))" by (auto split: if_splits)
      with Cons Unlock j show ?thesis by (blast intro: unlocks)
    next
      case (Join k)
      with Cons now j show ?thesis by (auto split: if_splits)
    qed
  qed
qed

lemma wanting_steps:
  assumes inv: "lock_inv rank ts" and i: "i < length ts" "todo (ts ! i) = Lock m # ops"
  shows "\<exists>ts'. lock_step ts ts'"
proof (rule ccontr)
  assume stuck: "\<not> ?thesis"
  define wanted where "wanted = {m. \<exists>i < length ts. \<exists>ops. todo (ts ! i) = Lock m # ops}"
  have "wanted \<subseteq> (\<lambda>t. case todo t of Lock m # _ \<Rightarrow> m) ` set ts"
  proof
    fix m assume "m \<in> wanted"
    then obtain i ops where "i < length ts" "todo (ts ! i) = Lock m # ops" by (auto simp: wanted_def)
    then show "m \<in> (\<lambda>t. case todo t of Lock m # _ \<Rightarrow> m) ` set ts"
      by (intro image_eqI [where x = "ts ! i"]) auto
  qed
  then have fin: "finite (rank ` wanted)" by (meson finite_imageI finite_set finite_subset)
  have "m \<in> wanted" using i by (auto simp: wanted_def)
  with fin have "Max (rank ` wanted) \<in> rank ` wanted" by (intro Max_in) auto
  then obtain m' where m': "m' \<in> wanted" "rank m' = Max (rank ` wanted)" by (metis imageE)
  then obtain k ops' where "k < length ts" "todo (ts ! k) = Lock m' # ops'" by (auto simp: wanted_def)
  from wants_higher [OF inv this] stuck obtain m'' where "m'' \<in> wanted" "rank m' < rank m''"
    by (auto simp: wanted_def)
  with fin m'(2) show False by (metis Max_ge imageI leD)
qed

lemma joining_thread:
  assumes inv: "lock_inv rank ts" and i: "i < length ts" "todo (ts ! i) = Join k # ops"
  shows "i = 0 \<and> held (ts ! i) = [] \<and> 0 < k \<and> k < length ts"
  using lock_inv_thread(1) [OF inv i(1)] i by (auto simp: joinable_def split: if_splits)

lemma progress:
  assumes inv: "lock_inv rank ts"
  shows "(\<exists>ts'. lock_step ts ts') \<or> all_done ts"
proof (cases "\<exists>i < length ts. todo (ts ! i) \<noteq> []")
  case False
  have "held (ts ! i) = []" if "i < length ts" for i
    using lock_inv_thread(1) [OF inv that] False that by simp
  with False show ?thesis by (simp add: all_done_def all_set_conv_all_nth)
next
  case True
  have moves: "\<exists>ts'. lock_step ts ts'" if j: "j < length ts" "todo (ts ! j) = op # ops" "\<forall>k. op \<noteq> Join k" for j op ops
  proof (cases op)
    case (Lock m)
    with j show ?thesis by (auto intro: wanting_steps [OF inv])
  next
    case (Unlock m)
    with lock_inv_thread(1) [OF inv j(1)] j have "m \<in> set (held (ts ! j))"
      by (auto split: if_splits)
    with Unlock j show ?thesis by (blast intro: unlocks)
  qed (use j in simp)
  from True obtain i op ops where i: "i < length ts" "todo (ts ! i) = op # ops"
    by (metis neq_Nil_conv)
  show ?thesis
  proof (cases "\<exists>k. op = Join k")
    case False
    with moves i show ?thesis by blast
  next
    case True
    then obtain k where k: "todo (ts ! i) = Join k # ops" using i by blast
    note joining = joining_thread [OF inv i(1) k]
    show ?thesis
    proof (cases "todo (ts ! k)")
      case Nil
      with joining i k show ?thesis by (blast intro: joins)
    next
      case (Cons op' ops')
      with joining_thread [OF inv, of k] joining have "\<forall>k. op' \<noteq> Join k" by auto
      with moves Cons joining show ?thesis by blast
    qed
  qed
qed

section \<open>Every run ends\<close>

lemma ops_left_update:
  "i < length ts \<Longrightarrow> Suc (length (todo t)) = length (todo (ts ! i)) \<Longrightarrow>
   Suc (ops_left (ts[i := t])) = ops_left ts"
proof (induction ts arbitrary: i)
  case (Cons a ts)
  then show ?case by (cases i) (auto simp: ops_left_def)
qed simp

lemma lock_step_counts: "lock_step ts ts' \<Longrightarrow> Suc (ops_left ts') = ops_left ts"
  by (induction rule: lock_step.induct) (auto intro!: ops_left_update)

lemma lock_run_counts: "(lock_step ^^ k) ts ts' \<Longrightarrow> k + ops_left ts' = ops_left ts"
proof (induction k arbitrary: ts')
  case (Suc k)
  from Suc.prems obtain ts'' where "(lock_step ^^ k) ts ts''" "lock_step ts'' ts'" by auto
  with Suc.IH [of ts''] lock_step_counts [of ts'' ts'] show ?case by simp
qed simp

lemma can_complete:
  assumes "lock_inv rank ts"
  shows "\<exists>ts'. lock_run ts ts' \<and> all_done ts'"
  using assms
proof (induction "ops_left ts" arbitrary: ts rule: less_induct)
  case less
  from progress [OF less.prems] show ?case
  proof
    assume "\<exists>ts'. lock_step ts ts'"
    then obtain ts' where step: "lock_step ts ts'" by blast
    from less.hyps [of ts'] lock_step_counts [OF step] lock_step_inv [OF step less.prems]
    obtain ts'' where "lock_run ts' ts'' \<and> all_done ts''" by auto
    with step show ?case by (blast intro: converse_rtranclp_into_rtranclp)
  qed blast
qed

lemma always_completes: "lock_inv rank ts \<Longrightarrow> always_completes ts"
  unfolding always_completes_def by (blast intro: can_complete lock_run_inv)

section \<open>Signal handlers\<close>

definition interrupt :: "nat \<Rightarrow> 'm lock_op list \<Rightarrow> 'm lock_thread list \<Rightarrow> 'm lock_thread list" where
  "interrupt i handler ts = ts[i := \<lparr>held = held (ts ! i), todo = handler @ todo (ts ! i)\<rparr>]"

lemma interrupt_inv:
  assumes inv: "lock_inv rank ts" and i: "i < length ts"
    and "disciplined rank (joinable ts i) (held (ts ! i)) handler"
  shows "lock_inv rank (interrupt i handler ts)"
  unfolding interrupt_def using lock_inv_thread [OF inv i] assms
  by (intro lock_inv_update) (simp_all add: disciplined_def held_after_append)

text \<open>A thread that asks for a mutex it holds stays where it is.\<close>

lemma self_lock_step:
  assumes "lock_step ts ts'" and "i < length ts" and "todo (ts ! i) = Lock m # ops"
    and "m \<in> set (held (ts ! i))"
  shows "length ts' = length ts \<and> ts' ! i = ts ! i"
  using assms(1)
proof cases
  case (locks j m' ops')
  with assms(2-4) have "j \<noteq> i" by auto
  with locks show ?thesis by simp
next
  case (unlocks j m' ops')
  with assms(2,3) have "j \<noteq> i" by auto
  with unlocks show ?thesis by simp
next
  case (joins j k ops')
  with assms(2,3) have "j \<noteq> i" by auto
  with joins show ?thesis by simp
qed

lemma self_lock:
  assumes "i < length ts" and "todo (ts ! i) = Lock m # ops" and "m \<in> set (held (ts ! i))"
  shows "never_moves i ts"
proof -
  have "length ts' = length ts \<and> ts' ! i = ts ! i" if "lock_run ts ts'" for ts'
    using that
  proof (induction rule: rtranclp_induct)
    case (step ts1 ts2)
    with assms self_lock_step [OF step.hyps(2), of i m ops] show ?case by simp
  qed simp
  then show ?thesis unfolding never_moves_def by blast
qed

text \<open>A thread that is to join itself never gets past that.\<close>

lemma self_join_step:
  assumes "lock_step ts ts'" and "i < length ts" and "Join i \<in> set (todo (ts ! i))"
  shows "i < length ts' \<and> Join i \<in> set (todo (ts' ! i))"
  using assms by cases (auto simp: nth_list_update)

lemma self_join:
  assumes "i < length ts" and "Join i \<in> set (todo (ts ! i))"
  shows "waits_for_itself i ts"
proof -
  have "i < length ts' \<and> Join i \<in> set (todo (ts' ! i))" if "lock_run ts ts'" for ts'
    using that assms by (induction rule: rtranclp_induct) (auto dest: self_join_step)
  then show ?thesis unfolding waits_for_itself_def by blast
qed

section \<open>A program that keeps to the discipline\<close>

text \<open>
  The main thread and the threads it creates, each doing one activity after the other; \<open>fits n\<close>
  says of an activity of the main thread that it joins threads numbered \<open>1\<close> to \<open>n\<close>.
\<close>

definition lock_threads ::
    "('a \<Rightarrow> 'm lock_op list) \<Rightarrow> ('b \<Rightarrow> 'm lock_op list) \<Rightarrow> 'a list \<Rightarrow> 'b list list \<Rightarrow>
     'm lock_thread list" where
  "lock_threads main_ops thread_ops main others =
     fresh_thread (concat (map main_ops main))
     # map (\<lambda>work. fresh_thread (concat (map thread_ops work))) others"

locale lock_discipline =
  fixes rank :: "'m \<Rightarrow> nat" and fits :: "nat \<Rightarrow> 'a \<Rightarrow> bool"
    and main_ops :: "'a \<Rightarrow> 'm lock_op list" and thread_ops :: "'b \<Rightarrow> 'm lock_op list"
  assumes main_disciplined: "fits n a \<Longrightarrow> disciplined rank n [] (main_ops a)"
    and thread_disciplined: "disciplined rank 0 [] (thread_ops b)"
begin

abbreviation start :: "'a list \<Rightarrow> 'b list list \<Rightarrow> 'm lock_thread list" where
  "start \<equiv> lock_threads main_ops thread_ops"

lemma start_inv:
  assumes "\<And>a. a \<in> set main \<Longrightarrow> fits (length others) a"
  shows "lock_inv rank (start main others)"
proof -
  have "disciplined rank (length others) [] (concat (map main_ops main))"
    using assms by (auto intro!: disciplined_concat main_disciplined)
  moreover have "disciplined rank 0 [] (concat (map thread_ops work))" for work
    by (auto intro!: disciplined_concat thread_disciplined)
  ultimately show ?thesis
    by (auto simp: lock_inv_def lock_threads_def fresh_thread_def exclusive_def joinable_def
        disciplined_def nth_Cons split: nat.splits)
qed

lemma run_progress:
  assumes "\<And>a. a \<in> set main \<Longrightarrow> fits (length others) a" and "lock_run (start main others) ts"
  shows "exclusive ts" and "(\<exists>ts'. lock_step ts ts') \<or> all_done ts"
    and "always_completes ts"
proof -
  have inv: "lock_inv rank ts" using start_inv [OF assms(1)] assms(2) by (blast intro: lock_run_inv)
  show "exclusive ts" using inv by (simp add: lock_inv_def)
  show "(\<exists>ts'. lock_step ts ts') \<or> all_done ts" by (rule progress [OF inv])
  show "always_completes ts" by (rule always_completes [OF inv])
qed

lemma handler_progress:
  assumes "\<And>a. a \<in> set (h # main) \<Longrightarrow> fits (length others) a"
    and "lock_run (start main others) ts" and "held (ts ! 0) = []"
  shows "always_completes (interrupt 0 (main_ops h) ts)"
proof -
  have len: "length ts = Suc (length others)"
    using lock_run_length [OF assms(2)] by (simp add: lock_threads_def)
  have "lock_inv rank ts"
    by (rule lock_run_inv [OF assms(2) start_inv]) (simp add: assms(1))
  moreover have "disciplined rank (joinable ts 0) (held (ts ! 0)) (main_ops h)"
    using assms(1,3) len by (auto simp: joinable_def intro!: main_disciplined)
  ultimately have "lock_inv rank (interrupt 0 (main_ops h) ts)"
    using len by (intro interrupt_inv) auto
  then show ?thesis by (rule always_completes)
qed

end

end
