(* ===== verification/LockTraces.thy ===== *)
theory LockTraces
  imports Locks Races Daemon
begin

text \<open>
  The lock operations of the daemon: for every function it runs of \<open>core/server.cpp\<close>,
  \<open>core/connection.cpp\<close>, \<open>core/upstream_sync.cpp\<close> and \<open>src/main/production.cpp\<close> that takes a mutex,
  writes to the log or joins a thread, the list of these operations on the branch it takes.

  \<^item> The branch is the one the component's own definition takes on the same arguments; a function
    that changes the state for its successors uses that definition for the next state.
  \<^item> A message below the logger's level takes no lock (\<open>Logger::Impl::log\<close> tests the level first);
    any other takes the logger's mutex while it is written.
  \<^item> The log level and the state a function reads are those at its start. The theorems hold for
    every sequence of these lists, whatever state each was computed from.
\<close>

section \<open>The mutexes\<close>

datatype mutex =
    Connections_mutex
  | Security_mutex
  | Rate_limit_mutex string
  | State_mutex
  | Stats_mutex
  | Logger_mutex

text \<open>The logger's mutex is taken under any other, and no other is nested.\<close>

definition mutex_rank :: "mutex \<Rightarrow> nat" where
  "mutex_rank m = (if m = Logger_mutex then 1 else 0)"

type_synonym lock_ops = "mutex lock_op list"

definition logged :: "Logger \<Rightarrow> LogLevel \<Rightarrow> lock_ops" where
  "logged lg level = (if level < logger_level lg then [] else guarded Logger_mutex [])"

section \<open>A datagram\<close>

definition countRequest_locks :: "string \<Rightarrow> Logger \<Rightarrow> NtpConfig option \<Rightarrow> u64 \<Rightarrow> NtpConnection \<Rightarrow> lock_ops"
where
  "countRequest_locks key lg cfg minute_bucket this =
     (case cfg of
        None \<Rightarrow> []
      | Some c \<Rightarrow>
          if \<not> enable_rate_limiting c then []
          else guarded (Rate_limit_mutex key)
                 (if fst (countRequest cfg minute_bucket this) then logged lg LOG_LEVEL_WARNING else []))"

definition handlePacket_locks ::
    "string \<Rightarrow> Logger \<Rightarrow> (AuthAlgorithm \<Rightarrow> u8 list \<Rightarrow> u8 list option) \<Rightarrow>
     ((u32 \<times> string) list \<Rightarrow> u32 \<times> string) \<Rightarrow> NtpConfig option \<Rightarrow> u64 \<Rightarrow> u8 list \<Rightarrow> NtpConnection \<Rightarrow>
     lock_ops"
where
  "handlePacket_locks key lg digest begin_entry cfg minute_bucket data this =
     (if \<not> conn_active this then []
      else if length data < NTP_PACKET_SIZE then logged lg LOG_LEVEL_WARNING
      else
        (let (parsed, packet) = parseFromData data NtpPacket_init
         in if \<not> parsed then logged lg LOG_LEVEL_WARNING
            else if \<not> isValid packet then logged lg LOG_LEVEL_WARNING
            else if mode packet \<noteq> NtpMode_value CLIENT then logged lg LOG_LEVEL_WARNING
            else
              countRequest_locks key lg cfg minute_bucket this @
              (if fst (countRequest cfg minute_bucket this) then []
               else if authentication_enabled cfg \<and>
                       \<not> validateAuthentication digest begin_entry cfg packet data
               then logged lg LOG_LEVEL_WARNING
               else logged lg LOG_LEVEL_DEBUG)))"

text \<open>\<open>isRateLimitExceeded\<close> and \<open>isDdosAnomaly\<close> lock when their feature is on.\<close>

definition security_locks :: "(NtpConfig \<Rightarrow> bool) \<Rightarrow> NtpServer \<Rightarrow> lock_ops" where
  "security_locks enabled srv =
     (case config_of srv of
        None \<Rightarrow> []
      | Some c \<Rightarrow> if \<not> enabled c then [] else guarded Security_mutex [])"

definition getOrCreateConnection_locks :: "string \<Rightarrow> u16 \<Rightarrow> NtpServer \<Rightarrow> lock_ops" where
  "getOrCreateConnection_locks client_ip client_port srv =
     guarded Connections_mutex
       (case map_of (active_connections srv) (client_key client_ip client_port) of
          Some _ \<Rightarrow> []
        | None \<Rightarrow> logged (server_logger srv) LOG_LEVEL_DEBUG)"

text \<open>\<open>isSynced\<close> and \<open>effectiveStratum\<close>, then \<open>clockOffsetUs\<close>, each lock the manager's state.\<close>

definition answer_locks :: "packet_env \<Rightarrow> u8 list \<Rightarrow> NtpServer \<Rightarrow> lock_ops" where
  "answer_locks env data srv =
     (let lg = server_logger srv; (parsed, request_packet) = parseFromData data NtpPacket_init
      in if \<not> parsed then logged lg LOG_LEVEL_WARNING
         else
           (case upstream_sync srv of
              None \<Rightarrow> []
            | Some m \<Rightarrow> guarded State_mutex [] @ (if isSynced m then guarded State_mutex [] else [])) @
           (if upstream_sync srv = None then [] else guarded State_mutex []) @
           (if fst (selectUpstreamServer (uniform env) (applyDynamicStratum srv)) = [] then []
            else logged lg LOG_LEVEL_DEBUG) @
           (if sendto_result env < 0 then logged lg LOG_LEVEL_ERROR else []))"

definition handle_datagram_locks ::
    "packet_env \<Rightarrow> string \<Rightarrow> u16 \<Rightarrow> u8 list \<Rightarrow> (nat \<times> NtpConnection) \<times> NtpServer \<Rightarrow> lock_ops" where
  "handle_datagram_locks env client_ip client_port data r =
     (let ((p, conn), srv) = r;
          key = client_key client_ip client_port;
          cfg = deref (configs srv) p;
          (ok, conn') = handlePacket (digest_of env) (begin_entry_of env) cfg (request_minute env) data conn
      in handlePacket_locks key (server_logger srv) (digest_of env) (begin_entry_of env) cfg
           (request_minute env) data conn @
         (if ok then answer_locks env data (update_connection key p conn' srv) else []))"

definition processPacket_locks ::
    "packet_env \<Rightarrow> string \<Rightarrow> u16 \<Rightarrow> u8 list \<Rightarrow> NtpServer \<Rightarrow> lock_ops" where
  "processPacket_locks env client_ip client_port data srv =
     (let lg = server_logger srv
      in case isClientAllowed (parse_address env) (config_of srv) client_ip of
           Inl _ \<Rightarrow> []
         | Inr allowed \<Rightarrow>
             if \<not> allowed then logged lg LOG_LEVEL_WARNING
             else
               (let (exceeded, t) = isRateLimitExceeded (config_of srv) (rate_minute env) client_ip
                                      (connection_rate_buckets srv);
                    srv = srv\<lparr>connection_rate_buckets := t\<rparr>
                in security_locks enable_rate_limiting srv @
                   (if exceeded then logged lg LOG_LEVEL_WARNING
                    else
                      (let (anomaly, t) = isDdosAnomaly (config_of srv) (ddos_second env) client_ip
                                            (request_second_buckets srv);
                           srv = srv\<lparr>request_second_buckets := t\<rparr>
                       in security_locks enable_ddos_protection srv @
                          (if anomaly then logged lg LOG_LEVEL_WARNING else []) @
                          (if anomaly \<and> (case config_of srv of None \<Rightarrow> False
                                          | Some c \<Rightarrow> enable_graceful_degradation c)
                           then []
                           else
                             getOrCreateConnection_locks client_ip client_port srv @
                             (case getOrCreateConnection (parse_address env) client_ip client_port srv of
                                Inl _ \<Rightarrow> []
                              | Inr r \<Rightarrow> handle_datagram_locks env client_ip client_port data r))))))"

section \<open>A worker thread\<close>

text \<open>
  What opening and binding a socket log; the two flags say whether setting \<open>SO_REUSEADDR\<close> and the
  non-blocking mode fail, which is logged and otherwise ignored.
\<close>

definition initializeSocket_locks :: "Logger \<Rightarrow> bool \<times> bool \<Rightarrow> int \<Rightarrow> lock_ops" where
  "initializeSocket_locks lg fails sock =
     (if sock = INVALID_SOCKET then logged lg LOG_LEVEL_ERROR
      else (if fst fails then logged lg LOG_LEVEL_WARNING else []) @
           (if snd fails then logged lg LOG_LEVEL_WARNING else []))"

definition bindSocket_locks :: "(string \<Rightarrow> u32 option) \<Rightarrow> int \<Rightarrow> NtpServer \<Rightarrow> lock_ops" where
  "bindSocket_locks pton bind_rc srv =
     (if bindSocket pton bind_rc srv then [] else logged (server_logger srv) LOG_LEVEL_ERROR)"

definition heal_locks ::
    "bool \<times> bool \<Rightarrow> (string \<Rightarrow> u32 option) \<Rightarrow> int \<Rightarrow> int \<Rightarrow> NtpServer \<Rightarrow> lock_ops" where
  "heal_locks fails pton sock bind_rc srv =
     logged (server_logger srv) LOG_LEVEL_ERROR @
     (if heal_allowed srv
      then logged (server_logger srv) LOG_LEVEL_WARNING @
           initializeSocket_locks (server_logger srv) fails sock @
           (if sock = INVALID_SOCKET then [] else bindSocket_locks pton bind_rc srv)
      else [])"

fun processIncomingPackets_locks ::
    "(recv_event \<times> bool \<times> bool) list \<Rightarrow> NtpServer \<Rightarrow> lock_ops" where
  "processIncomingPackets_locks [] srv = []"
| "processIncomingPackets_locks ((ev, fails) # evs) srv =
     (if \<not> workers_running srv then []
      else
        (case ev of
           Would_block \<Rightarrow> []
         | Recv_error pton sock bind_rc \<Rightarrow>
             heal_locks fails pton sock bind_rc srv @
             (let (again, srv) = heal_socket pton sock bind_rc srv
              in if again then processIncomingPackets_locks evs srv else [])
         | Datagram env client_ip client_port bytes \<Rightarrow>
             if bytes = [] then processIncomingPackets_locks evs srv
             else
               processPacket_locks env client_ip client_port (take NTP_PACKET_SIZE bytes) srv @
               (case processPacket env client_ip client_port (take NTP_PACKET_SIZE bytes) srv of
                  Inl _ \<Rightarrow> []
                | Inr (_, srv) \<Rightarrow> processIncomingPackets_locks evs srv)))"

definition cleanupConnections_locks :: lock_ops where
  "cleanupConnections_locks = guarded Connections_mutex []"

definition worker_round_locks :: "(recv_event \<times> bool \<times> bool) list \<Rightarrow> NtpServer \<Rightarrow> lock_ops" where
  "worker_round_locks evs srv =
     processIncomingPackets_locks evs srv @
     (case processIncomingPackets (map fst evs) srv of
        Inl _ \<Rightarrow> []
      | Inr _ \<Rightarrow> cleanupConnections_locks)"

text \<open>The list holds the rounds begun with the flag set; after them it is found cleared.\<close>

fun worker_loop_locks :: "(recv_event \<times> bool \<times> bool) list list \<Rightarrow> NtpServer \<Rightarrow> lock_ops" where
  "worker_loop_locks [] srv = logged (server_logger srv) LOG_LEVEL_DEBUG"
| "worker_loop_locks (evs # rounds) srv =
     worker_round_locks evs srv @
     (case worker_round (map fst evs) srv of
        Inl _ \<Rightarrow> []
      | Inr (_, srv) \<Rightarrow> worker_loop_locks rounds srv)"

definition workerThreadFunction_locks ::
    "(recv_event \<times> bool \<times> bool) list list \<Rightarrow> NtpServer \<Rightarrow> lock_ops" where
  "workerThreadFunction_locks rounds srv =
     logged (server_logger srv) LOG_LEVEL_DEBUG @ worker_loop_locks rounds srv"

section \<open>The synchronisation thread\<close>

definition syncOnce_locks :: "Logger \<Rightarrow> (nat \<Rightarrow> query_env) \<Rightarrow> NtpConfig option \<Rightarrow> lock_ops" where
  "syncOnce_locks lg envs cfg =
     (case cfg of
        None \<Rightarrow> []
      | Some c \<Rightarrow>
          if upstream_servers c = [] then []
          else
            concat (map (\<lambda>attempt. if success attempt then [] else logged lg LOG_LEVEL_DEBUG)
              (attempts envs (upstream_servers c))) @
            (if success (fold keep_best (attempts envs (upstream_servers c)) UpstreamSyncResult_init)
             then guarded State_mutex (logged lg LOG_LEVEL_INFO)
             else logged lg LOG_LEVEL_WARNING))"

fun syncLoop_locks ::
    "Logger \<Rightarrow> NtpConfig option \<Rightarrow> (bool \<times> (nat \<Rightarrow> query_env)) list \<Rightarrow> lock_ops" where
  "syncLoop_locks lg cfg [] = []"
| "syncLoop_locks lg cfg ((still_running, envs) # rounds) =
     (if \<not> still_running then [] else syncOnce_locks lg envs cfg @ syncLoop_locks lg cfg rounds)"

definition sync_thread_locks ::
    "Logger \<Rightarrow> (nat \<Rightarrow> query_env) \<Rightarrow> NtpConfig option \<Rightarrow> (bool \<times> (nat \<Rightarrow> query_env)) list \<Rightarrow> lock_ops"
where
  "sync_thread_locks lg envs cfg rounds = syncOnce_locks lg envs cfg @ syncLoop_locks lg cfg rounds"

section \<open>The configuration watcher\<close>

text \<open>The six setters of the logger are called whatever the new settings are.\<close>

definition reloadConfig_locks ::
    "files \<Rightarrow> (string \<Rightarrow> string option) \<Rightarrow> NtpServer \<Rightarrow> lock_ops" where
  "reloadConfig_locks fs env srv =
     (let lg = server_logger srv
      in case config_of srv of
           None \<Rightarrow> []
         | Some c \<Rightarrow>
             if last_config_file c = [] then logged lg LOG_LEVEL_WARNING
             else
               (let (ok, new_config) = loadFromFile fs env (last_config_file c) c
                in if \<not> ok \<or> \<not> config_validate new_config then logged lg LOG_LEVEL_ERROR
                   else
                     (let lg' = apply_logger_settings new_config lg
                      in concat (replicate 6 (guarded Logger_mutex [])) @
                         (if listen_address new_config \<noteq> server_address srv
                             \<or> listen_port new_config \<noteq> server_port srv
                          then logged lg' LOG_LEVEL_WARNING else []) @
                         logged lg' LOG_LEVEL_INFO)))"

definition watch_round_locks ::
    "int option \<Rightarrow> files \<Rightarrow> (string \<Rightarrow> string option) \<Rightarrow> NtpServer \<Rightarrow> lock_ops" where
  "watch_round_locks current_mtime fs env srv =
     (case (current_mtime, config_mtime srv) of
        (Some t, Some seen) \<Rightarrow>
          if t \<noteq> seen
          then logged (server_logger srv) LOG_LEVEL_INFO @
               reloadConfig_locks fs env (srv\<lparr>config_mtime := Some t\<rparr>)
          else []
      | _ \<Rightarrow> [])"

fun configWatcherLoop_locks ::
    "(int option \<times> files \<times> (string \<Rightarrow> string option)) list \<Rightarrow> NtpServer \<Rightarrow> lock_ops" where
  "configWatcherLoop_locks [] srv = []"
| "configWatcherLoop_locks ((t, fs, env) # rounds) srv =
     (if config_watch_running srv
      then watch_round_locks t fs env srv @ configWatcherLoop_locks rounds (watch_round t fs env srv)
      else [])"

section \<open>Starting, stopping and the signal handlers\<close>

definition server_start_locks ::
    "start_env \<Rightarrow> files \<Rightarrow> bool \<times> bool \<Rightarrow> NtpServer \<Rightarrow> lock_ops" where
  "server_start_locks env fs fails srv =
     (let lg = server_logger srv; c = the_config srv
      in if running srv then logged lg LOG_LEVEL_WARNING
         else
           logged lg LOG_LEVEL_INFO @
           (if enable_tls c \<or> enable_certificate_authentication c \<or> enable_certificate_validation c
            then logged lg LOG_LEVEL_INFO else []) @
           (if tls_settings_missing c then logged lg LOG_LEVEL_ERROR
            else
              initializeSocket_locks lg fails (start_socket env) @
              (if start_socket env = INVALID_SOCKET then logged lg LOG_LEVEL_ERROR
               else
                 bindSocket_locks (start_pton env) (start_bind env) srv @
                 (if \<not> bindSocket (start_pton env) (start_bind env) srv then logged lg LOG_LEVEL_ERROR
                  else
                    concat (replicate (unat (worker_threads c)) (logged lg LOG_LEVEL_DEBUG)) @
                    (if loadState fs srv then logged lg LOG_LEVEL_INFO else []) @
                    (if upstream_servers c \<noteq> [] then logged lg LOG_LEVEL_INFO else []) @
                    logged lg LOG_LEVEL_INFO @ logged lg LOG_LEVEL_INFO))))"

text \<open>
  The threads by number: the workers are 1 to \<^const>\<open>worker_count\<close>, the synchronisation thread and
  the watcher follow.
\<close>

definition sync_thread_number :: "NtpServer \<Rightarrow> nat" where
  "sync_thread_number srv = worker_count srv + 1"

definition watch_thread_number :: "NtpServer \<Rightarrow> nat" where
  "watch_thread_number srv = worker_count srv + 2"

definition stopWorkerThreads_locks :: "NtpServer \<Rightarrow> lock_ops" where
  "stopWorkerThreads_locks srv =
     map Join [1 ..< Suc (worker_count srv)] @ logged (server_logger srv) LOG_LEVEL_INFO"

definition server_stop_locks :: "NtpServer \<Rightarrow> lock_ops" where
  "server_stop_locks srv =
     (if \<not> running srv then []
      else
        logged (server_logger srv) LOG_LEVEL_INFO @
        (case upstream_sync srv of
           None \<Rightarrow> []
         | Some m \<Rightarrow> if fst (sync_stop m) then [Join (sync_thread_number srv)] else []) @
        stopWorkerThreads_locks srv @
        (if config_watch_running srv then [Join (watch_thread_number srv)] else []) @
        cleanupConnections_locks @
        logged (server_logger srv) LOG_LEVEL_INFO)"

text \<open>The handlers of \<open>SIGINT\<close>, \<open>SIGTERM\<close> and \<open>SIGQUIT\<close> (the first signal), and of \<open>SIGHUP\<close>.\<close>

definition signalHandler_locks :: "NtpServer \<Rightarrow> lock_ops" where
  "signalHandler_locks srv = logged (server_logger srv) LOG_LEVEL_INFO @ server_stop_locks srv"

definition hangupHandler_locks :: "files \<Rightarrow> (string \<Rightarrow> string option) \<Rightarrow> NtpServer \<Rightarrow> lock_ops" where
  "hangupHandler_locks fs env srv =
     logged (server_logger srv) LOG_LEVEL_INFO @ reloadConfig_locks fs env srv"

section \<open>Reports\<close>

definition getStatus_locks :: "NtpServer \<Rightarrow> lock_ops" where
  "getStatus_locks srv =
     (if running srv \<and> upstream_sync srv \<noteq> None then guarded State_mutex [] else [])"

definition exportPrometheusMetrics_locks :: "NtpServer \<Rightarrow> lock_ops" where
  "exportPrometheusMetrics_locks srv =
     (if upstream_sync srv = None then [] else guarded State_mutex [] @ guarded State_mutex [])"

definition runHealthChecks_locks :: "NtpServer \<Rightarrow> lock_ops" where
  "runHealthChecks_locks srv =
     (case config_of srv of
        None \<Rightarrow> []
      | Some c \<Rightarrow>
          if upstream_servers c \<noteq> [] \<and> upstream_sync srv \<noteq> None then guarded State_mutex [] else [])"

definition getStats_locks :: lock_ops where
  "getStats_locks = guarded Stats_mutex []"

definition getActiveConnectionCount_locks :: lock_ops where
  "getActiveConnectionCount_locks = guarded Connections_mutex []"

definition listConnections_locks :: lock_ops where
  "listConnections_locks = guarded Connections_mutex []"

section \<open>The main function\<close>

text \<open>
  \<open>main\<close> with the configuration of the command line: the five setters of the logger, its messages,
  the constructor of the server (two messages) and the start. A one-shot command is followed by the
  stop.
\<close>

definition main_start_locks ::
    "NtpConfig \<Rightarrow> start_env \<Rightarrow> files \<Rightarrow> bool \<times> bool \<Rightarrow> lock_ops" where
  "main_start_locks config senv fs fails =
     (let lg = setup_logger config Logger_init; srv = NtpServer_init config lg
      in concat (replicate 5 (guarded Logger_mutex [])) @
         logged lg LOG_LEVEL_INFO @ logged lg LOG_LEVEL_INFO @
         logged lg LOG_LEVEL_INFO @ logged lg LOG_LEVEL_DEBUG @
         server_start_locks senv fs fails srv @
         (if fst (server_start senv srv) then logged lg LOG_LEVEL_INFO @ logged lg LOG_LEVEL_INFO
          else logged lg LOG_LEVEL_ERROR))"

definition one_shot_locks ::
    "files \<Rightarrow> (string \<Rightarrow> string option) \<Rightarrow> string \<Rightarrow> NtpServer \<Rightarrow> lock_ops" where
  "one_shot_locks fs env command srv =
     (if command = ''reload'' then
        (let srv' = snd (reloadConfig fs env srv)
         in logged (server_logger srv) LOG_LEVEL_INFO @ reloadConfig_locks fs env srv @
            logged (server_logger srv') LOG_LEVEL_INFO @ server_stop_locks srv')
      else if command = ''metrics'' then exportPrometheusMetrics_locks srv @ server_stop_locks srv
      else if command = ''health'' then runHealthChecks_locks srv @ server_stop_locks srv
      else if command = ''status'' then getStatus_locks srv @ server_stop_locks srv
      else if command = ''stats'' then getStats_locks @ server_stop_locks srv
      else if command = ''connections'' then listConnections_locks @ server_stop_locks srv
      else [])"

text \<open>After the main loop.\<close>

definition main_shutdown_locks :: "NtpServer \<Rightarrow> lock_ops" where
  "main_shutdown_locks srv =
     logged (server_logger srv) LOG_LEVEL_INFO @ server_stop_locks srv @
     logged (server_logger srv) LOG_LEVEL_INFO"

section \<open>Every list keeps to the discipline\<close>

text \<open>Under any mutex but the logger's, every one of these lists is disciplined.\<close>

lemma rank_simps [simp]:
  "mutex_rank Logger_mutex = 1" "mutex_rank Connections_mutex = 0" "mutex_rank Security_mutex = 0"
  "mutex_rank (Rate_limit_mutex k) = 0" "mutex_rank State_mutex = 0" "mutex_rank Stats_mutex = 0"
  by (simp_all add: mutex_rank_def)

lemma logged_disciplined [lock_rules]:
  "\<forall>h \<in> set H. mutex_rank h = 0 \<Longrightarrow> disciplined mutex_rank n H (logged lg level)"
  by (auto simp: logged_def intro!: lock_rules)

lemma guarded_disciplined [lock_rules]:
  "disciplined mutex_rank n [m] ops \<Longrightarrow> disciplined mutex_rank n [] (guarded m ops)"
  by (auto intro: lock_rules)

lemma packet_parts_disciplined [lock_rules]:
  "disciplined mutex_rank n [] (countRequest_locks key lg cfg w conn)"
  "disciplined mutex_rank n [] (security_locks enabled srv)"
  "disciplined mutex_rank n [] (getOrCreateConnection_locks ip port srv)"
  by (auto simp: countRequest_locks_def security_locks_def getOrCreateConnection_locks_def
      split: option.splits intro!: lock_rules)

lemma handlePacket_disciplined [lock_rules]:
  "disciplined mutex_rank n [] (handlePacket_locks key lg digest begin_entry cfg w data conn)"
  by (auto simp: handlePacket_locks_def Let_def split: prod.splits intro!: lock_rules)

lemma answer_disciplined [lock_rules]: "disciplined mutex_rank n [] (answer_locks env data srv)"
  by (auto simp: answer_locks_def Let_def split: prod.splits option.splits intro!: lock_rules)

lemma handle_datagram_disciplined [lock_rules]:
  "disciplined mutex_rank n [] (handle_datagram_locks env ip port data r)"
  by (auto simp: handle_datagram_locks_def Let_def split: prod.splits intro!: lock_rules)

lemma processPacket_disciplined [lock_rules]:
  "disciplined mutex_rank n [] (processPacket_locks env ip port data srv)"
  by (auto simp: processPacket_locks_def Let_def split: prod.splits sum.splits intro!: lock_rules)

lemma socket_disciplined [lock_rules]:
  "disciplined mutex_rank n [] (initializeSocket_locks lg fails sock)"
  "disciplined mutex_rank n [] (bindSocket_locks pton rc srv)"
  "disciplined mutex_rank n [] (heal_locks fails pton sock rc srv)"
  by (auto simp: initializeSocket_locks_def bindSocket_locks_def heal_locks_def intro!: lock_rules)

lemma processIncomingPackets_disciplined [lock_rules]:
  "disciplined mutex_rank n [] (processIncomingPackets_locks evs srv)"
  by (induction evs srv rule: processIncomingPackets_locks.induct)
    (auto simp: Let_def split: recv_event.splits prod.splits sum.splits intro!: lock_rules)

lemma worker_disciplined [lock_rules]:
  "disciplined mutex_rank n [] cleanupConnections_locks"
  "disciplined mutex_rank n [] (worker_round_locks evs srv)"
  "disciplined mutex_rank n [] (worker_loop_locks rounds srv)"
  "disciplined mutex_rank n [] (workerThreadFunction_locks rounds srv)"
proof -
  show cleanup: "disciplined mutex_rank n [] cleanupConnections_locks"
    by (auto simp: cleanupConnections_locks_def intro!: lock_rules)
  then show round: "disciplined mutex_rank n [] (worker_round_locks evs srv)" for evs srv
    by (auto simp: worker_round_locks_def split: sum.splits intro!: lock_rules)
  show loop: "disciplined mutex_rank n [] (worker_loop_locks rounds srv)"
    by (induction rounds srv rule: worker_loop_locks.induct)
      (auto split: sum.splits prod.splits intro!: lock_rules round)
  then show "disciplined mutex_rank n [] (workerThreadFunction_locks rounds srv)"
    by (auto simp: workerThreadFunction_locks_def intro!: lock_rules)
qed

lemma sync_disciplined [lock_rules]:
  "disciplined mutex_rank n [] (syncOnce_locks lg envs cfg)"
  "disciplined mutex_rank n [] (syncLoop_locks lg cfg rounds)"
  "disciplined mutex_rank n [] (sync_thread_locks lg envs cfg rounds)"
proof -
  show once: "disciplined mutex_rank n [] (syncOnce_locks lg envs cfg)" for lg envs cfg
    by (auto simp: syncOnce_locks_def split: option.splits intro!: lock_rules)
  show "disciplined mutex_rank n [] (syncLoop_locks lg cfg rounds)"
    by (induction lg cfg rounds rule: syncLoop_locks.induct) (auto simp: intro!: lock_rules once)
  then show "disciplined mutex_rank n [] (sync_thread_locks lg envs cfg rounds)"
    by (auto simp: sync_thread_locks_def intro!: lock_rules once)
qed

lemma watch_disciplined [lock_rules]:
  "disciplined mutex_rank n [] (reloadConfig_locks fs env srv)"
  "disciplined mutex_rank n [] (watch_round_locks t fs env srv)"
  "disciplined mutex_rank n [] (configWatcherLoop_locks rounds srv)"
proof -
  show reload: "disciplined mutex_rank n [] (reloadConfig_locks fs env srv)" for fs env srv
    by (auto simp: reloadConfig_locks_def Let_def split: option.splits prod.splits intro!: lock_rules)
  show round: "disciplined mutex_rank n [] (watch_round_locks t fs env srv)" for t fs env srv
    by (auto simp: watch_round_locks_def split: option.splits intro!: lock_rules reload)
  show "disciplined mutex_rank n [] (configWatcherLoop_locks rounds srv)"
    by (induction rounds srv rule: configWatcherLoop_locks.induct) (auto intro!: lock_rules round)
qed

lemma start_disciplined [lock_rules]:
  "disciplined mutex_rank n [] (server_start_locks env fs fails srv)"
  by (auto simp: server_start_locks_def Let_def split del: if_split intro!: lock_rules)

lemma hangup_disciplined [lock_rules]: "disciplined mutex_rank n [] (hangupHandler_locks fs env srv)"
  by (auto simp: hangupHandler_locks_def intro!: lock_rules)

lemma reports_disciplined [lock_rules]:
  "disciplined mutex_rank n [] (getStatus_locks srv)"
  "disciplined mutex_rank n [] (exportPrometheusMetrics_locks srv)"
  "disciplined mutex_rank n [] (runHealthChecks_locks srv)"
  "disciplined mutex_rank n [] getStats_locks"
  "disciplined mutex_rank n [] getActiveConnectionCount_locks"
  "disciplined mutex_rank n [] listConnections_locks"
  by (auto simp: getStatus_locks_def exportPrometheusMetrics_locks_def runHealthChecks_locks_def
      getStats_locks_def getActiveConnectionCount_locks_def listConnections_locks_def
      split: option.splits intro!: lock_rules)

text \<open>Only stopping joins, and it needs the threads it joins to be there.\<close>

lemma join_disciplined [lock_rules]:
  "0 < k \<Longrightarrow> k \<le> n \<Longrightarrow> disciplined mutex_rank n [] ops \<Longrightarrow> disciplined mutex_rank n [] (Join k # ops)"
  by (simp add: disciplined_def)

lemma stop_disciplined [lock_rules]:
  "watch_thread_number srv \<le> n \<Longrightarrow> disciplined mutex_rank n [] (server_stop_locks srv)"
  "watch_thread_number srv \<le> n \<Longrightarrow> disciplined mutex_rank n [] (signalHandler_locks srv)"
  by (auto simp: signalHandler_locks_def server_stop_locks_def stopWorkerThreads_locks_def
      sync_thread_number_def watch_thread_number_def simp del: upt_Suc
      split: option.splits intro!: lock_rules)

lemma reload_worker_count:
  "watch_thread_number (snd (reloadConfig fs env srv)) = watch_thread_number srv"
  by (cases "reloadConfig fs env srv") (auto elim!: reload_cases simp: watch_thread_number_def)

lemma main_disciplined [lock_rules]:
  "disciplined mutex_rank n [] (main_start_locks config senv fs fails)"
  "watch_thread_number srv \<le> n \<Longrightarrow> disciplined mutex_rank n [] (one_shot_locks fs env command srv)"
  "watch_thread_number srv \<le> n \<Longrightarrow> disciplined mutex_rank n [] (main_shutdown_locks srv)"
  by (auto simp: main_start_locks_def one_shot_locks_def main_shutdown_locks_def Let_def
      reload_worker_count split del: if_split intro!: lock_rules)

end
