(* ===== verification/SignalContext.thy ===== *)
theory SignalContext
  imports LockTraces
begin

text \<open>
  The threads of the daemon with their lock operations (\<open>core/server.cpp\<close>,
  \<open>core/upstream_sync.cpp\<close>, \<open>src/main/production.cpp\<close>): no schedule of them deadlocks, and what
  a signal handler meets that runs in the middle of one of them.

  \<^item> Thread 0 runs \<open>main\<close>; the others are the workers, the synchronisation thread and the watcher,
    numbered as stopping joins them. A thread that was not created has nothing to do.
  \<^item> The system delivers a signal of the process to any of its threads, as none blocks it; the
    handlers call functions that lock and join.
  \<^item> Sleeping and receiving are not steps and are taken to end: the server's socket does not block,
    and a query of an upstream server has the timeout of the settings.
  \<^item> Joining oneself throws in most libraries, which nothing catches; here it is a step that never
    comes.
\<close>

section \<open>The threads\<close>

datatype thread_activity =
    Serving "(recv_event \<times> bool \<times> bool) list list" NtpServer
  | Synchronising Logger "nat \<Rightarrow> query_env" "NtpConfig option" "(bool \<times> (nat \<Rightarrow> query_env)) list"
  | Watching "(int option \<times> files \<times> (string \<Rightarrow> string option)) list" NtpServer
  | Reporting_status NtpServer
  | Exporting_metrics NtpServer
  | Checking_health NtpServer
  | Reading_stats
  | Counting_connections
  | Listing_connections
  | Writing_log Logger LogLevel

fun thread_locks :: "thread_activity \<Rightarrow> lock_ops" where
  "thread_locks (Serving rounds srv) = workerThreadFunction_locks rounds srv"
| "thread_locks (Synchronising lg envs cfg rounds) = sync_thread_locks lg envs cfg rounds"
| "thread_locks (Watching rounds srv) = configWatcherLoop_locks rounds srv"
| "thread_locks (Reporting_status srv) = getStatus_locks srv"
| "thread_locks (Exporting_metrics srv) = exportPrometheusMetrics_locks srv"
| "thread_locks (Checking_health srv) = runHealthChecks_locks srv"
| "thread_locks Reading_stats = getStats_locks"
| "thread_locks Counting_connections = getActiveConnectionCount_locks"
| "thread_locks Listing_connections = listConnections_locks"
| "thread_locks (Writing_log lg level) = logged lg level"

datatype main_activity =
    Starting NtpConfig start_env files "bool \<times> bool"
  | Commanding files "string \<Rightarrow> string option" string NtpServer
  | Shutting_down NtpServer
  | Stopping NtpServer
  | Terminating NtpServer
  | Hanging_up files "string \<Rightarrow> string option" NtpServer
  | Reloading files "string \<Rightarrow> string option" NtpServer
  | Doing thread_activity

fun main_locks :: "main_activity \<Rightarrow> lock_ops" where
  "main_locks (Starting config senv fs fails) = main_start_locks config senv fs fails"
| "main_locks (Commanding fs env command srv) = one_shot_locks fs env command srv"
| "main_locks (Shutting_down srv) = main_shutdown_locks srv"
| "main_locks (Stopping srv) = server_stop_locks srv"
| "main_locks (Terminating srv) = signalHandler_locks srv"
| "main_locks (Hanging_up fs env srv) = hangupHandler_locks fs env srv"
| "main_locks (Reloading fs env srv) = reloadConfig_locks fs env srv"
| "main_locks (Doing a) = thread_locks a"

text \<open>Stopping joins threads that are there.\<close>

fun main_fits :: "nat \<Rightarrow> main_activity \<Rightarrow> bool" where
  "main_fits n (Commanding _ _ _ srv) \<longleftrightarrow> watch_thread_number srv \<le> n"
| "main_fits n (Shutting_down srv) \<longleftrightarrow> watch_thread_number srv \<le> n"
| "main_fits n (Stopping srv) \<longleftrightarrow> watch_thread_number srv \<le> n"
| "main_fits n (Terminating srv) \<longleftrightarrow> watch_thread_number srv \<le> n"
| "main_fits n _ \<longleftrightarrow> True"

abbreviation daemon_threads :: "main_activity list \<Rightarrow> thread_activity list list \<Rightarrow> mutex lock_thread list"
where "daemon_threads \<equiv> lock_threads main_locks thread_locks"

lemma thread_locks_disciplined: "disciplined mutex_rank n [] (thread_locks a)"
  by (cases a) (simp_all add: lock_rules)

interpretation daemon_locks: lock_discipline mutex_rank main_fits main_locks thread_locks
proof
  show "disciplined mutex_rank n [] (main_locks a)" if "main_fits n a" for n a
    using that by (cases a) (simp_all add: lock_rules thread_locks_disciplined)
qed (rule thread_locks_disciplined)

section \<open>The handlers\<close>

text \<open>The threads that stopping joins, and where the handlers block on the logger.\<close>

definition joined_by_stop :: "NtpServer \<Rightarrow> nat \<Rightarrow> bool" where
  "joined_by_stop srv i \<longleftrightarrow>
     0 < i \<and> i \<le> worker_count srv
   \<or> i = sync_thread_number srv \<and> (\<exists>m. upstream_sync srv = Some m \<and> sync_running m)
   \<or> i = watch_thread_number srv \<and> config_watch_running srv"

lemma stop_joins:
  "running srv \<Longrightarrow> joined_by_stop srv i \<Longrightarrow> Join i \<in> set (signalHandler_locks srv)"
  by (auto simp: joined_by_stop_def signalHandler_locks_def server_stop_locks_def
      stopWorkerThreads_locks_def sync_stop_def simp del: upt_Suc split: option.splits)

lemma handlers_log_first:
  assumes "logger_level (server_logger srv) \<le> LOG_LEVEL_INFO"
    and "h = signalHandler_locks srv \<or> h = hangupHandler_locks fs env srv"
  shows "\<exists>ops. h = Lock Logger_mutex # ops"
  using assms by (auto simp: signalHandler_locks_def hangupHandler_locks_def logged_def guarded_def)

lemma interrupted_thread:
  assumes "i < length ts"
  shows "length (interrupt i h ts) = length ts" "held (interrupt i h ts ! i) = held (ts ! i)"
    "todo (interrupt i h ts ! i) = h @ todo (ts ! i)"
  using assms by (simp_all add: interrupt_def)

section \<open>Properties\<close>


text \<open>Stopping a server with one worker, which is serving; the main thread takes its first step.\<close>

definition example_running :: NtpServer where
  "example_running = (NtpServer_init setDefaults Logger_init)\<lparr>running := True, worker_count := 1,
     workers_running := True\<rparr>"

definition example_work :: "thread_activity list list" where
  "example_work = [[Counting_connections, Serving [[(Would_block, False, False)]] example_running], [], []]"

lemma example_running_simps [simp]:
  "running example_running" "worker_count example_running = 1" "upstream_sync example_running = None"
  "server_logger example_running = Logger_init" "logger_level Logger_init = 1"
  by (simp_all add: example_running_def NtpServer_init_def Logger_init_def)

lemma example_first_step:
  obtains ts where "lock_step (daemon_threads [Stopping example_running] example_work) ts"
    and "held (ts ! 0) = [Logger_mutex]"
proof -
  let ?ts = "daemon_threads [Stopping example_running] example_work"
  obtain ops where "?ts ! 0 = \<lparr>held = [], todo = Lock Logger_mutex # ops\<rparr>"
    by (auto simp: lock_threads_def fresh_thread_def server_stop_locks_def logged_def guarded_def)
  moreover have "\<forall>t \<in> set ?ts. held t = []" by (auto simp: lock_threads_def fresh_thread_def)
  moreover have "0 < length ?ts" by (simp add: lock_threads_def)
  ultimately have "lock_step ?ts (?ts[0 := \<lparr>held = [Logger_mutex], todo = ops\<rparr>])"
    using lock_step.locks [of 0 ?ts Logger_mutex ops] by simp
  then show thesis
    by (rule that) (use \<open>0 < length ?ts\<close> in \<open>simp only: nth_list_update_eq lock_thread.simps\<close>)
qed

lemma example_fits: "\<forall>a \<in> set [Stopping example_running]. main_fits (length example_work) a"
  by (simp add: watch_thread_number_def example_work_def)




end
