(* ===== verification/Spec2Isabelle.thy ===== *)
theory Spec2Isabelle
  imports
    Prelude CppStd Platform Timestamp Packet Net RateLimit Config ConfigArgs Parser
    SettingTypes Connection Upstream LogFiles LoggerFront Access Server ServerControl Workers StopRace Races
    Reports Daemon Lifecycle Console Exchange WindowsService ServiceThreads Locks LockTraces
    SignalContext
begin

text \<open>
  A model of simple-ntpd, an NTP server in C++ (paths below are under \<open>src/\<close>; \<open>core/\<close>, \<open>config/\<close>
  and \<open>utils/\<close> stand for \<open>src/src/simple-ntpd/...\<close> with the headers in
  \<open>src/include/simple-ntpd/...\<close>).

  \<^bold>\<open>The program.\<close> \<open>main/production.cpp\<close> reads the command line, which may load a configuration file,
  and starts an \<open>NtpServer\<close>. The server opens a UDP socket and creates worker threads, a thread that
  watches the configuration file and, with upstream servers configured, a synchronisation thread. A
  worker receives a datagram and passes it through the access lists, the per-client rate limit and
  the anomaly check, finds or makes the client's \<open>NtpConnection\<close>, lets it decide whether the datagram
  is a request to answer, builds the reply, corrects its time stamps by the offset the
  synchronisation found, sends it and updates the statistics. Signals and one-shot commands reload
  the configuration, report, or stop the server. On Windows a separate service wrapper registers with
  the service control manager, and installs and removes itself.

  \<^bold>\<open>The theories.\<close>

  \<^item> \<open>Prelude\<close>: names of the machine integers, results (\<open>bind_result\<close>), theorem collections and the
    lemmas on lists and words the components share. \<open>CppStd\<close>: the parts of the standard library the
    source uses (\<open>stoi\<close>, \<open>stoul\<close>, \<open>to_string\<close>, \<open>find\<close>, \<open>substr\<close>, \<open>getline\<close>), with their exceptions
    as values of \<open>cpp_exn\<close>.
  \<^item> \<open>Platform\<close>, \<open>Timestamp\<close>, \<open>Packet\<close>: \<open>utils/platform.hpp\<close> and \<open>core/packet.cpp\<close>. Time stamps are
    pairs of 32-bit words, computations on them are 64-bit integers with a proof that they do not
    overflow; a packet is a record, parsing and serialising are functions on byte lists. Lemmas: round
    trips in both directions, validation, the offset and delay of an exchange.
  \<^item> \<open>Net\<close>: \<open>utils/net.cpp\<close>, membership in a CIDR block, against the mathematical meaning of a prefix.
  \<^item> \<open>Config\<close>, \<open>ConfigArgs\<close>, \<open>Parser\<close>: \<open>config/config.cpp\<close> and \<open>config/parser.cpp\<close>. One record with
    every option, validation as a list of errors, the chain of keys of \<open>parseCommandLineArg\<close>, the
    \<open>key=value\<close> reader, the environment overrides, and the INI, JSON and YAML parsers. Lemmas: what
    validation accepts, bounds kept by every setting, round trips of written files, agreement of the
    formats. \<open>SettingTypes\<close>: the enum settings keep their types under every way to set them but the
    environment.
  \<^item> \<open>RateLimit\<close>: the contract of the counters per client and window, as locales (counters that
    forget older windows and counters that keep them), and the abstract limiter that remembers all
    hits, which both implement. \<open>Access\<close>: the checks of \<open>core/server.cpp\<close> before a datagram is
    looked at.
  \<^item> \<open>Connection\<close>: \<open>core/connection.cpp\<close>. \<open>Upstream\<close>: \<open>core/upstream_sync.cpp\<close>. \<open>LogFiles\<close>:
    \<open>utils/logger.cpp\<close> with log rotation. \<open>LoggerFront\<close>: its time stamps, methods by level and the
    console of the Windows build.
  \<^item> \<open>Server\<close>: state and datagram handler of \<open>core/server.cpp\<close>. The configuration objects behind the
    shared pointers are a list, a pointer is an index, so that reloading, connections that keep an old
    object, and the stratum changed in place are as in the code. \<open>server_inv\<close> is its invariant.
  \<^item> \<open>ServerControl\<close>: sockets, start, stop, reload, the watcher, the receive loop with its restart of
    the socket, the worker threads' function. \<open>Workers\<close>: their start and stop as interleaved steps.
    \<open>StopRace\<close>: stopping the server while its workers follow the pointer to the synchronisation.
    \<open>Races\<close>: the restart counter and the statistics, which the workers share without a lock, as
    interleaved accesses. \<open>Reports\<close>: status, metrics and health texts.
  \<^item> \<open>Daemon\<close>: \<open>main/production.cpp\<close> up to the running server. \<open>Lifecycle\<close>: the running daemon as a
    step function over signals, rounds of the threads and changes of files; its invariant holds for
    every sequence of events. \<open>Console\<close>: the texts it prints, with the help text checked against the
    options and commands that are accepted. \<open>Exchange\<close>: the client side of one daemon against the
    server side of another.
  \<^item> \<open>WindowsService\<close>: the functions of \<open>deployment/windows/simple-ntpd-service.cpp\<close>, each run alone.
    \<open>ServiceThreads\<close>: its three threads as a step relation, with an invariant on what the service
    control manager has been told and a measure that bounds the steps to the end.

  \<^item> \<open>Locks\<close>: threads that take mutexes and join one another, as a step relation; a discipline (ranks,
    nesting, joins by one thread that holds nothing) that excludes deadlock and bounds every run,
    stated as a locale; interrupted threads. \<open>LockTraces\<close>: the lock operations of the functions the
    daemon runs (server, connections, synchronisation, signal handlers), branch by branch, each shown
    to keep to the discipline. \<open>SignalContext\<close>: the threads of the daemon as an instance of the
    locale, and the handlers in the middle of them.

  \<^bold>\<open>What the theorems show.\<close> The properties are numbered C1 to C40 in the order of importance and stand
  in the theory of their component. The chain for a reply:
  exactly which datagrams are answered (\<open>Server\<close>), that the reply serialises and parses back to a
  valid packet with the right fields (\<open>Packet\<close>, \<open>Server\<close>), that a client measures the server's clock
  with it (\<open>Exchange\<close>), that every datagram is counted and the server's invariant is kept, and so in
  every reachable state of the daemon all that was sent is well formed (\<open>Lifecycle\<close>). Its threads
  never deadlock, whatever they do and however they are scheduled (\<open>SignalContext\<close>). Some theorems
  state behaviour the code probably does not intend: a zero reference identifier passes
  authentication, workers may end before they start, an unvalidated configuration is started, a
  malformed access list entry ends the process, a worker can follow a null pointer while the server
  stops, several workers can exceed the restart limit together, counted errors get lost, a signal
  handler can block on a lock or a join of its own thread, the environment can set an enum to a value
  it does not have, and the Windows service can be left reported as stopping.

  \<^bold>\<open>Bounds, loops and the outside.\<close> All recursion is structural or over a list, or comes with a
  measure (\<open>escape_loop\<close>, the string scanners); there is no fuel. Loops that wait for the outside world
  (receive loop, watcher, synchronisation, main loop) recurse over the list of what they meet, and end
  where the list ends, which stands for a thread that waits. Counters keep their width and wrap;
  theorems on counting assume fewer than \<open>2 ^ 32\<close> hits. Double precision quotients are modelled by
  integer comparisons that agree below \<open>2 ^ 52\<close>. System calls, the resolver, OpenSSL digests, clocks,
  random numbers, the iteration order of unordered maps and the printing of floating point numbers
  are arguments.

  \<^bold>\<open>Not modelled.\<close> The texts the operations log (\<open>LockTraces\<close> has which of them log and at which
  level); the templates \<open>hton\<close> and \<open>ntoh\<close>, which nothing calls; plain getters and the callbacks that
  are stored but never called; the sockets of the Windows build; what the C++ standard leaves open
  about a data race beyond the interleavings of \<open>Races\<close>, overlapping calls of \<open>ReportSvcStatus\<close>
  among them; the memory allocator and the output streams a signal handler may find in the middle of a
  call; and the destruction of static objects by \<open>exit\<close>.
\<close>

end
